(* ===== verification/Rust_Prelude.thy ===== *)
theory Rust_Prelude
  imports Main "HOL-Library.Word"
begin

text \<open>
  Shared vocabulary of the development: the machine integers of a 64-bit target, Rust's
  \<open>Result\<close>, \<open>Poll\<close> and panics as values, \<open>std::io::Error\<close>, the unchecked and checked integer
  operators of the language, iterators as state-passing functions, and the generic lemmas on
  words, lists and options that the component theories use.
\<close>

named_theorems exec_simps \<open>unfolding of computations that may panic\<close>
named_theorems word_to_nat \<open>the operators of the language read on natural numbers\<close>

section \<open>Machine integers\<close>

type_synonym u8 = "8 word"
type_synonym u16 = "16 word"
type_synonym u32 = "32 word"
type_synonym u64 = "64 word"
type_synonym usize = "64 word"
type_synonym i64 = "64 word"  \<comment> \<open>read with \<open>sint\<close>\<close>
type_synonym RawFd = "32 word"

section \<open>Results, polls and panics\<close>

type_synonym ('a, 'e) result = "'e + 'a"

datatype 'a poll = Pending | Ready 'a

datatype 'a exec = Panicked | Returned 'a

fun exec_bind :: "'a exec \<Rightarrow> ('a \<Rightarrow> 'b exec) \<Rightarrow> 'b exec" where
  "exec_bind Panicked f = Panicked"
| "exec_bind (Returned x) f = f x"

fun result_bind :: "('a, 'e) result \<Rightarrow> ('a \<Rightarrow> ('b, 'e) result) \<Rightarrow> ('b, 'e) result" where
  "result_bind (Inl e) f = Inl e"
| "result_bind (Inr x) f = f x"

fun map_err :: "('e \<Rightarrow> 'f) \<Rightarrow> ('a, 'e) result \<Rightarrow> ('a, 'f) result" where
  "map_err f (Inl e) = Inl (f e)"
| "map_err f (Inr x) = Inr x"

section \<open>I/O errors\<close>

text \<open>
  The kinds of \<open>std::io::ErrorKind\<close> that the sources name, and one constructor for the kinds that
  only the operating system produces. An error carries its kind and its message.
\<close>

datatype error_kind =
    NotFound | UnexpectedEof | WriteZero | WouldBlock | ConnectionRefused | InvalidInput
  | OtherError | OsKind nat

datatype io_error = IoError (kind: error_kind) (message: string)

text \<open>
  An \<open>anyhow::Error\<close>: the texts of its contexts, the last one added first, down to the cause.
  \<open>context\<close> on a result adds one to an error.
\<close>

datatype anyhow = Anyhow "string list"

definition anyhow_io :: "io_error \<Rightarrow> anyhow" where
  "anyhow_io e = Anyhow [message e]"

definition anyhow_msg :: "string \<Rightarrow> anyhow" where
  "anyhow_msg m = Anyhow [m]"

text \<open>The display of an error is the text of its outermost context.\<close>

fun anyhow_display :: "anyhow \<Rightarrow> string" where
  "anyhow_display (Anyhow ms) = (case ms of [] \<Rightarrow> [] | m # _ \<Rightarrow> m)"

fun add_context :: "string \<Rightarrow> anyhow \<Rightarrow> anyhow" where
  "add_context c (Anyhow cs) = Anyhow (c # cs)"

definition with_context_msg :: "string \<Rightarrow> ('a, anyhow) result \<Rightarrow> ('a, anyhow) result" where
  "with_context_msg c r = map_err (add_context c) r"

text \<open>\<open>collect\<close> of an iterator of results: the values, or the first error.\<close>

fun collect_results :: "('a, 'e) result list \<Rightarrow> ('a list, 'e) result" where
  "collect_results [] = Inr []"
| "collect_results (r # rs) =
     result_bind r (\<lambda>x. result_bind (collect_results rs) (\<lambda>xs. Inr (x # xs)))"

text \<open>A \<open>for\<close> loop over a list whose body updates a state and may return early with an error.\<close>

fun try_fold :: "('x \<Rightarrow> 's \<Rightarrow> ('s, 'e) result) \<Rightarrow> 'x list \<Rightarrow> 's \<Rightarrow> ('s, 'e) result" where
  "try_fold f [] s = Inr s"
| "try_fold f (x # xs) s = result_bind (f x s) (try_fold f xs)"

section \<open>Integer operators\<close>

text \<open>
  \<open>+\<close> and \<open>-\<close> of the language: with overflow checks compiled in (debug profile) an overflow
  panics, without them (release profile) the result wraps. The profile is the first argument.
\<close>

definition add_op :: "bool \<Rightarrow> 'a::len word \<Rightarrow> 'a word \<Rightarrow> 'a word exec" where
  "add_op checks a b =
     (if checks \<and> 2 ^ LENGTH('a) \<le> unat a + unat b then Panicked else Returned (a + b))"

definition sub_op :: "bool \<Rightarrow> 'a::len word \<Rightarrow> 'a word \<Rightarrow> 'a word exec" where
  "sub_op checks a b = (if checks \<and> unat a < unat b then Panicked else Returned (a - b))"

definition checked_add :: "'a::len word \<Rightarrow> 'a word \<Rightarrow> 'a word option" where
  "checked_add a b = (if unat a + unat b < 2 ^ LENGTH('a) then Some (a + b) else None)"

definition checked_mul :: "'a::len word \<Rightarrow> 'a word \<Rightarrow> 'a word option" where
  "checked_mul a b = (if unat a * unat b < 2 ^ LENGTH('a) then Some (a * b) else None)"

section \<open>Iterators\<close>

text \<open>
  \<open>Iterator::next(&mut self)\<close> is a function from the iterator's state to the item and the new
  state. \<open>take_next\<close> is the \<open>next\<close> of the adapter \<open>Iterator::take\<close>; \<open>iter_items\<close> lists the items
  of at most \<open>n\<close> calls, up to the first \<open>None\<close>.
\<close>

type_synonym ('s, 'a) iter_next = "'s \<Rightarrow> 'a option \<times> 's"

definition take_next :: "('s, 'a) iter_next \<Rightarrow> (nat \<times> 's, 'a) iter_next" where
  "take_next nxt = (\<lambda>(n, s).
     if n = 0 then (None, (n, s))
     else let (x, s') = nxt s in (x, (n - 1, s')))"

fun iter_items :: "('s, 'a) iter_next \<Rightarrow> nat \<Rightarrow> 's \<Rightarrow> 'a list" where
  "iter_items nxt 0 s = []"
| "iter_items nxt (Suc n) s =
     (case nxt s of (None, s') \<Rightarrow> [] | (Some x, s') \<Rightarrow> x # iter_items nxt n s')"

fun iter_state :: "('s, 'a) iter_next \<Rightarrow> nat \<Rightarrow> 's \<Rightarrow> 's" where
  "iter_state nxt 0 s = s"
| "iter_state nxt (Suc n) s = iter_state nxt n (snd (nxt s))"

section \<open>Lemmas\<close>

lemma exec_bind_Returned_iff [exec_simps]:
  "exec_bind m f = Returned y \<longleftrightarrow> (\<exists>x. m = Returned x \<and> f x = Returned y)"
  by (cases m) auto

lemma exec_bind_Panicked_iff [exec_simps]:
  "exec_bind m f = Panicked \<longleftrightarrow> m = Panicked \<or> (\<exists>x. m = Returned x \<and> f x = Panicked)"
  by (cases m) auto

lemma result_bind_Inr_iff:
  "result_bind m f = Inr y \<longleftrightarrow> (\<exists>x. m = Inr x \<and> f x = Inr y)"
  by (cases m) auto

lemma result_bind_Inl_iff:
  "result_bind m f = Inl e \<longleftrightarrow> m = Inl e \<or> (\<exists>x. m = Inr x \<and> f x = Inl e)"
  by (cases m) auto

lemma map_err_Inr_iff [simp]: "map_err f m = Inr x \<longleftrightarrow> m = Inr x"
  by (cases m) auto

lemma map_err_Inl_iff: "map_err f m = Inl e \<longleftrightarrow> (\<exists>e'. m = Inl e' \<and> e = f e')"
  by (cases m) auto

lemma with_context_msg_Inr_iff [simp]: "with_context_msg c r = Inr x \<longleftrightarrow> r = Inr x"
  by (simp add: with_context_msg_def)

lemma collect_results_Inr_iff: "collect_results rs = Inr xs \<longleftrightarrow> rs = map Inr xs"
proof (induction rs arbitrary: xs)
  case (Cons r rs)
  then show ?case by (cases r; cases xs) (auto simp: result_bind_Inr_iff)
qed auto

lemma collect_results_map_Inr [simp]: "collect_results (map Inr xs) = Inr xs"
  by (simp add: collect_results_Inr_iff)

text \<open>Wrap-around does not happen below the width.\<close>

lemma unat_add_small [word_to_nat]:
  fixes a b :: "'a::len word"
  assumes "unat a + unat b < 2 ^ LENGTH('a)"
  shows "unat (a + b) = unat a + unat b"
  using assms by (simp add: unat_word_ariths)

lemma unat_mul_small [word_to_nat]:
  fixes a b :: "'a::len word"
  assumes "unat a * unat b < 2 ^ LENGTH('a)"
  shows "unat (a * b) = unat a * unat b"
  using assms by (simp add: unat_word_ariths)

lemma unat_sub_small [word_to_nat]:
  fixes a b :: "'a::len word"
  assumes "unat b \<le> unat a"
  shows "unat (a - b) = unat a - unat b"
  using assms by (simp add: unat_sub word_le_nat_alt)

lemma checked_add_Some_iff [word_to_nat]:
  fixes a b c :: "'a::len word"
  shows "checked_add a b = Some c \<longleftrightarrow> unat c = unat a + unat b"
proof
  assume "checked_add a b = Some c"
  then show "unat c = unat a + unat b"
    by (auto simp: checked_add_def unat_add_small split: if_splits)
next
  assume eq: "unat c = unat a + unat b"
  have "unat a + unat b < 2 ^ LENGTH('a)"
    using unsigned_less [of c, where ?'a = nat] eq by simp
  moreover from this have "a + b = c"
    by (simp add: word_unat_eq_iff unat_add_small eq)
  ultimately show "checked_add a b = Some c"
    by (simp add: checked_add_def)
qed

lemma checked_add_None_iff [word_to_nat]:
  fixes a b :: "'a::len word"
  shows "checked_add a b = None \<longleftrightarrow> 2 ^ LENGTH('a) \<le> unat a + unat b"
  by (auto simp: checked_add_def)

lemma checked_mul_Some [word_to_nat]:
  "checked_mul a b = Some c \<Longrightarrow> unat c = unat a * unat b"
  by (auto simp: checked_mul_def unat_mul_small split: if_splits)

lemma checked_mul_None_iff [word_to_nat]:
  fixes a b :: "'a::len word"
  shows "checked_mul a b = None \<longleftrightarrow> 2 ^ LENGTH('a) \<le> unat a * unat b"
  by (auto simp: checked_mul_def)

lemma add_op_exact:
  fixes a b :: "'a::len word"
  assumes "unat a + unat b < 2 ^ LENGTH('a)"
  shows "add_op checks a b = Returned (a + b)"
  using assms by (simp add: add_op_def)

lemma sub_op_exact:
  assumes "unat b \<le> unat a"
  shows "sub_op checks a b = Returned (a - b)"
  using assms by (simp add: sub_op_def)

lemma u64_less: "unat (x::u64) < 2 ^ 64"
  using unsigned_less [of x, where ?'a = nat] by simp

lemma u64_le_max: "unat (x::u64) \<le> 2 ^ 64 - 1"
  using u64_less [of x] by simp

text \<open>Iterators.\<close>

lemma iter_items_length: "length (iter_items nxt n s) \<le> n"
  by (induction n arbitrary: s) (auto split: option.split prod.split)

lemma take_next_0 [simp]: "take_next nxt (0, s) = (None, (0, s))"
  by (simp add: take_next_def)

lemma take_next_Suc [simp]:
  "take_next nxt (Suc n, s) = (fst (nxt s), (n, snd (nxt s)))"
  by (simp add: take_next_def split: prod.split)

lemma iter_state_Suc_right: "iter_state nxt (Suc n) s = snd (nxt (iter_state nxt n s))"
  by (induction n arbitrary: s) auto

end
