(* ===== verification/Rust_Time.thy ===== *)
theory Rust_Time
  imports Rust_Prelude
begin

text \<open>
  \<open>std::time::Duration\<close> and \<open>std::time::Instant\<close> as the sources use them. A duration is a number
  of whole seconds (\<open>u64\<close>) and of nanoseconds (\<open>u32\<close>, below one second in every value the library
  builds); the derived order compares the seconds first. An instant is a reading of the monotonic
  clock in nanoseconds, representable up to \<open>INSTANT_MAX\<close>. The lemmas relate the word-level
  operations to the total number of nanoseconds \<open>in_nanos\<close>.
\<close>

section \<open>Durations\<close>

datatype Duration = Duration (secs: u64) (nanos: u32)

instantiation Duration :: linorder
begin

definition less_eq_Duration :: "Duration \<Rightarrow> Duration \<Rightarrow> bool" where
  "less_eq_Duration a b \<longleftrightarrow> secs a < secs b \<or> (secs a = secs b \<and> nanos a \<le> nanos b)"

definition less_Duration :: "Duration \<Rightarrow> Duration \<Rightarrow> bool" where
  "less_Duration a b \<longleftrightarrow> secs a < secs b \<or> (secs a = secs b \<and> nanos a < nanos b)"

instance
  by standard (auto simp: less_eq_Duration_def less_Duration_def intro: Duration.expand)

end

definition NANOS_PER_SEC :: nat where
  "NANOS_PER_SEC = 1000000000"

definition valid_duration :: "Duration \<Rightarrow> bool" where
  "valid_duration d \<longleftrightarrow> unat (nanos d) < NANOS_PER_SEC"

definition in_nanos :: "Duration \<Rightarrow> nat" where
  "in_nanos d = unat (secs d) * NANOS_PER_SEC + unat (nanos d)"

definition duration_zero :: Duration where
  "duration_zero = Duration 0 0"

definition duration_MAX :: Duration where
  "duration_MAX = Duration (- 1) 999999999"

definition from_secs :: "u64 \<Rightarrow> Duration" where
  "from_secs s = Duration s 0"

definition from_millis :: "u64 \<Rightarrow> Duration" where
  "from_millis m = Duration (m div 1000) (ucast (m mod 1000) * 1000000)"

definition from_micros :: "u64 \<Rightarrow> Duration" where
  "from_micros m = Duration (m div 1000000) (ucast (m mod 1000000) * 1000)"

definition duration_checked_add :: "Duration \<Rightarrow> Duration \<Rightarrow> Duration option" where
  "duration_checked_add a b =
     (case checked_add (secs a) (secs b) of
        None \<Rightarrow> None
      | Some s \<Rightarrow>
          (let n = nanos a + nanos b in
           if 1000000000 \<le> n then
             (case checked_add s 1 of
                None \<Rightarrow> None
              | Some s' \<Rightarrow> Some (Duration s' (n - 1000000000)))
           else Some (Duration s n)))"

section \<open>Instants\<close>

type_synonym Instant = nat

text \<open>The largest reading: a signed 64-bit number of seconds and the nanoseconds below one.\<close>

definition INSTANT_MAX :: nat where
  "INSTANT_MAX = (2 ^ 63 - 1) * NANOS_PER_SEC + (NANOS_PER_SEC - 1)"

definition instant_add :: "Instant \<Rightarrow> Duration \<Rightarrow> Instant exec" where
  "instant_add t d =
     (if t + in_nanos d \<le> INSTANT_MAX then Returned (t + in_nanos d) else Panicked)"

section \<open>Lemmas\<close>

lemma from_secs_valid [simp]: "valid_duration (from_secs s)"
  by (simp add: valid_duration_def from_secs_def NANOS_PER_SEC_def)

lemma from_secs_nanos: "in_nanos (from_secs s) = unat s * NANOS_PER_SEC"
  by (simp add: in_nanos_def from_secs_def)

lemma duration_MAX_valid [simp]: "valid_duration duration_MAX"
  by (simp add: valid_duration_def duration_MAX_def NANOS_PER_SEC_def)

lemma duration_zero_valid [simp]: "valid_duration duration_zero"
  by (simp add: valid_duration_def duration_zero_def NANOS_PER_SEC_def)

lemma duration_zero_nanos [simp]: "in_nanos duration_zero = 0"
  by (simp add: in_nanos_def duration_zero_def)

lemma unat_minus_one_u64: "unat (- 1 :: u64) = 2 ^ 64 - 1"
  by (simp add: unsigned_minus_1_eq_mask mask_eq_exp_minus_1)

lemma duration_MAX_nanos: "in_nanos duration_MAX + 1 = 2 ^ 64 * NANOS_PER_SEC"
  by (simp add: in_nanos_def duration_MAX_def unat_minus_one_u64 NANOS_PER_SEC_def)

lemma unat_millis_part: "unat (ucast (m mod 1000) * 1000000 :: u32) = unat m mod 1000 * 1000000"
  for m :: u64
proof -
  have part: "unat (ucast (m mod 1000) :: u32) = unat m mod 1000"
    by (simp add: unsigned_ucast_eq take_bit_nat_eq_self_iff unat_mod take_bit_nat_def)
  have "unat m mod 1000 * 1000000 < 2 ^ LENGTH(32)"
    using mod_less_divisor [of 1000 "unat m"] by simp
  with part show ?thesis
    by (subst unat_mul_small) simp_all
qed

lemma from_millis_valid [simp]: "valid_duration (from_millis m)"
  by (simp add: valid_duration_def from_millis_def NANOS_PER_SEC_def unat_millis_part)

lemma from_millis_nanos: "in_nanos (from_millis m) = unat m * 1000000"
proof -
  have "unat m div 1000 * 1000 + unat m mod 1000 = unat m"
    by (rule div_mult_mod_eq)
  moreover have "in_nanos (from_millis m)
      = unat m div 1000 * 1000000000 + unat m mod 1000 * 1000000"
    by (simp add: in_nanos_def from_millis_def NANOS_PER_SEC_def unat_millis_part unat_div)
  ultimately show ?thesis by linarith
qed

text \<open>The derived order is the order of the total nanoseconds.\<close>

lemma lex_total_less:
  fixes a b m n k :: nat
  assumes "m < k" and "n < k"
  shows "a * k + m < b * k + n \<longleftrightarrow> a < b \<or> (a = b \<and> m < n)"
proof (cases a b rule: linorder_cases)
  case less
  then have "a * k + k \<le> b * k"
    by (metis Suc_leI add.commute mult_Suc mult_le_mono1)
  with less assms show ?thesis by simp
next
  case greater
  then have "b * k + k \<le> a * k"
    by (metis Suc_leI add.commute mult_Suc mult_le_mono1)
  with greater assms show ?thesis by simp
qed simp

lemma duration_less_iff:
  assumes "valid_duration a" and "valid_duration b"
  shows "a < b \<longleftrightarrow> in_nanos a < in_nanos b"
  using assms
  by (simp add: less_Duration_def in_nanos_def valid_duration_def lex_total_less
      word_less_nat_alt word_unat_eq_iff)

lemma duration_le_iff:
  assumes "valid_duration a" and "valid_duration b"
  shows "a \<le> b \<longleftrightarrow> in_nanos a \<le> in_nanos b"
  using duration_less_iff [OF assms(2,1)] by (simp flip: linorder_not_less)

lemma in_nanos_inject:
  assumes "valid_duration a" and "valid_duration b"
  shows "in_nanos a = in_nanos b \<longleftrightarrow> a = b"
  using duration_le_iff [OF assms] duration_le_iff [OF assms(2,1)] by (auto intro: antisym)

lemma in_nanos_le_MAX:
  assumes "valid_duration d"
  shows "in_nanos d \<le> in_nanos duration_MAX"
proof -
  have "unat (secs d) * NANOS_PER_SEC \<le> (2 ^ 64 - 1) * NANOS_PER_SEC"
    by (rule mult_le_mono1) (rule u64_le_max)
  moreover have "unat (nanos d) < NANOS_PER_SEC"
    using assms by (simp add: valid_duration_def)
  ultimately have "in_nanos d < 2 ^ 64 * NANOS_PER_SEC"
    by (simp add: in_nanos_def NANOS_PER_SEC_def)
  then show ?thesis
    using duration_MAX_nanos by simp
qed

text \<open>\<open>checked_add\<close> with its carry is addition of nanoseconds, or \<open>None\<close> above the maximum.\<close>

lemma nanos_sum:
  assumes "valid_duration a" and "valid_duration b"
  shows "unat (nanos a + nanos b) = unat (nanos a) + unat (nanos b)"
  using assms by (intro unat_add_small) (simp add: valid_duration_def NANOS_PER_SEC_def)

lemma duration_checked_add_Some:
  assumes "valid_duration a" and "valid_duration b" and "duration_checked_add a b = Some c"
  shows "valid_duration c \<and> in_nanos c = in_nanos a + in_nanos b"
proof -
  note n = nanos_sum [OF assms(1,2)]
  from assms(3) obtain s where s: "checked_add (secs a) (secs b) = Some s"
    by (auto simp: duration_checked_add_def split: option.splits)
  then have secs: "unat s = unat (secs a) + unat (secs b)"
    by (simp add: checked_add_Some_iff)
  show ?thesis
  proof (cases "1000000000 \<le> nanos a + nanos b")
    case True
    then have ge: "1000000000 \<le> unat (nanos a) + unat (nanos b)"
      by (simp add: word_le_nat_alt n)
    from True have "unat (nanos a + nanos b - 1000000000)
        = unat (nanos a) + unat (nanos b) - 1000000000"
      by (simp add: unat_sub n)
    moreover from assms(3) s True obtain s' where
      "checked_add s 1 = Some s'" "c = Duration s' (nanos a + nanos b - 1000000000)"
      by (auto simp: duration_checked_add_def Let_def split: option.splits)
    ultimately show ?thesis
      using assms(1,2) ge secs
      by (simp add: in_nanos_def valid_duration_def checked_add_Some_iff NANOS_PER_SEC_def
          algebra_simps)
  next
    case False
    then have "unat (nanos a) + unat (nanos b) < 1000000000"
      by (simp add: word_le_nat_alt n)
    with False assms(3) s n secs show ?thesis
      by (auto simp: duration_checked_add_def Let_def in_nanos_def valid_duration_def
          NANOS_PER_SEC_def algebra_simps)
  qed
qed

lemma duration_checked_add_None:
  assumes "valid_duration a" and "valid_duration b" and "duration_checked_add a b = None"
  shows "in_nanos duration_MAX < in_nanos a + in_nanos b"
proof -
  note n = nanos_sum [OF assms(1,2)]
  have "2 ^ 64 * NANOS_PER_SEC \<le> in_nanos a + in_nanos b"
  proof (cases "checked_add (secs a) (secs b)")
    case None
    then have "2 ^ 64 \<le> unat (secs a) + unat (secs b)"
      by (simp add: checked_add_None_iff)
    then have "2 ^ 64 * NANOS_PER_SEC \<le> (unat (secs a) + unat (secs b)) * NANOS_PER_SEC"
      by (rule mult_le_mono1)
    then show ?thesis
      by (simp add: in_nanos_def algebra_simps)
  next
    case (Some s)
    then have secs: "unat s = unat (secs a) + unat (secs b)"
      by (simp add: checked_add_Some_iff)
    from Some assms(3) have "1000000000 \<le> nanos a + nanos b" and "checked_add s 1 = None"
      by (auto simp: duration_checked_add_def Let_def split: option.splits if_splits)
    then have "1000000000 \<le> unat (nanos a) + unat (nanos b)" and "2 ^ 64 \<le> unat s + 1"
      by (simp_all add: word_le_nat_alt n checked_add_None_iff)
    with secs show ?thesis
      by (simp add: in_nanos_def NANOS_PER_SEC_def)
  qed
  then show ?thesis
    using duration_MAX_nanos by simp
qed

lemma instant_add_Returned [exec_simps]:
  "instant_add t d = Returned t' \<longleftrightarrow> t' = t + in_nanos d \<and> t' \<le> INSTANT_MAX"
  by (auto simp: instant_add_def)

end
