(* ===== verification/Backoff.thy ===== *)
theory Backoff
  imports Rust_Time
begin

text \<open>
  The retry strategies of \<open>src/src/retry.rs\<close>, module \<open>delay\<close>: \<open>FixedDelay\<close>, \<open>FibonacciBackoff\<close> and
  \<open>ExponentialBackoff\<close>, with their constructors and their \<open>Iterator::next\<close>. The locale
  \<open>delay_strategy\<close> states what the retry loop relies on (a strategy never runs dry, its delays are
  well-formed and never shrink) and \<open>capped_strategy\<close> adds the upper limit set by \<open>max_delay\<close>; all
  three strategies are interpreted. The closed forms give the n-th delay of each strategy.
\<close>

section \<open>FixedDelay\<close>

record FixedDelay =
  fd_delay :: Duration

definition FixedDelay_new :: "Duration \<Rightarrow> FixedDelay" where
  "FixedDelay_new delay = \<lparr>fd_delay = delay\<rparr>"

definition FixedDelay_default :: FixedDelay where
  "FixedDelay_default = \<lparr>fd_delay = duration_zero\<rparr>"

definition FixedDelay_from_millis :: "u64 \<Rightarrow> FixedDelay" where
  "FixedDelay_from_millis millis = FixedDelay_new (from_millis millis)"

definition FixedDelay_from_secs :: "u64 \<Rightarrow> FixedDelay" where
  "FixedDelay_from_secs s = FixedDelay_new (from_secs s)"

definition FixedDelay_next :: "(FixedDelay, Duration) iter_next" where
  "FixedDelay_next self = (Some (fd_delay self), self)"

section \<open>FibonacciBackoff\<close>

record FibonacciBackoff =
  fb_current :: Duration
  fb_next :: Duration
  fb_max_delay :: "Duration option"

definition FibonacciBackoff_new :: "Duration \<Rightarrow> FibonacciBackoff" where
  "FibonacciBackoff_new initial_delay =
     \<lparr>fb_current = initial_delay, fb_next = initial_delay, fb_max_delay = None\<rparr>"

definition FibonacciBackoff_from_millis :: "u64 \<Rightarrow> FibonacciBackoff" where
  "FibonacciBackoff_from_millis millis = FibonacciBackoff_new (from_millis millis)"

definition FibonacciBackoff_from_secs :: "u64 \<Rightarrow> FibonacciBackoff" where
  "FibonacciBackoff_from_secs s = FibonacciBackoff_new (from_secs s)"

definition FibonacciBackoff_max_delay :: "FibonacciBackoff \<Rightarrow> Duration \<Rightarrow> FibonacciBackoff" where
  "FibonacciBackoff_max_delay self max_delay = self\<lparr>fb_max_delay := Some max_delay\<rparr>"

definition over_max :: "Duration option \<Rightarrow> Duration \<Rightarrow> bool" where
  "over_max max_delay duration =
     (case max_delay of Some m \<Rightarrow> m < duration | None \<Rightarrow> False)"

definition FibonacciBackoff_next :: "(FibonacciBackoff, Duration) iter_next" where
  "FibonacciBackoff_next self =
     (let duration = fb_current self in
      if over_max (fb_max_delay self) duration then (fb_max_delay self, self)
      else (case duration_checked_add (fb_current self) (fb_next self) of
              Some next_next \<Rightarrow>
                (Some duration, self\<lparr>fb_current := fb_next self, fb_next := next_next\<rparr>)
            | None \<Rightarrow>
                (Some duration, self\<lparr>fb_current := fb_next self, fb_next := duration_MAX\<rparr>)))"

section \<open>ExponentialBackoff\<close>

record ExponentialBackoff =
  eb_base_millis :: u64
  eb_current_millis :: u64
  eb_max_delay :: "Duration option"

definition ExponentialBackoff_from_millis :: "u64 \<Rightarrow> ExponentialBackoff" where
  "ExponentialBackoff_from_millis millis =
     \<lparr>eb_base_millis = millis, eb_current_millis = millis, eb_max_delay = None\<rparr>"

definition ExponentialBackoff_max_delay ::
  "ExponentialBackoff \<Rightarrow> Duration \<Rightarrow> ExponentialBackoff" where
  "ExponentialBackoff_max_delay self max_delay = self\<lparr>eb_max_delay := Some max_delay\<rparr>"

definition ExponentialBackoff_next :: "(ExponentialBackoff, Duration) iter_next" where
  "ExponentialBackoff_next self =
     (let duration = from_millis (eb_current_millis self) in
      if over_max (eb_max_delay self) duration then (eb_max_delay self, self)
      else (case checked_mul (eb_current_millis self) (eb_base_millis self) of
              Some nxt \<Rightarrow> (Some duration, self\<lparr>eb_current_millis := nxt\<rparr>)
            | None \<Rightarrow> (Some duration, self\<lparr>eb_current_millis := - 1\<rparr>)))"

section \<open>Well-formedness\<close>

definition opt_valid :: "Duration option \<Rightarrow> bool" where
  "opt_valid m = (case m of Some d \<Rightarrow> valid_duration d | None \<Rightarrow> True)"

definition FixedDelay_inv :: "FixedDelay \<Rightarrow> bool" where
  "FixedDelay_inv self = valid_duration (fd_delay self)"

definition FibonacciBackoff_inv :: "FibonacciBackoff \<Rightarrow> bool" where
  "FibonacciBackoff_inv self \<longleftrightarrow>
     valid_duration (fb_current self) \<and> valid_duration (fb_next self) \<and>
     opt_valid (fb_max_delay self) \<and> fb_current self \<le> fb_next self"

definition ExponentialBackoff_inv :: "ExponentialBackoff \<Rightarrow> bool" where
  "ExponentialBackoff_inv self \<longleftrightarrow>
     opt_valid (eb_max_delay self) \<and> (eb_base_millis self = 0 \<longrightarrow> eb_current_millis self = 0)"

section \<open>Reference sequences\<close>

fun fib :: "nat \<Rightarrow> nat" where
  "fib 0 = 1"
| "fib (Suc 0) = 1"
| "fib (Suc (Suc n)) = fib n + fib (Suc n)"

definition capped :: "Duration option \<Rightarrow> nat \<Rightarrow> nat" where
  "capped max_delay x = (case max_delay of Some m \<Rightarrow> min (in_nanos m) x | None \<Rightarrow> x)"

definition fib_nanos :: "Duration \<Rightarrow> nat \<Rightarrow> nat" where
  "fib_nanos d j = min (in_nanos duration_MAX) (fib j * in_nanos d)"

definition pow_millis :: "u64 \<Rightarrow> nat \<Rightarrow> nat" where
  "pow_millis b j = min (2 ^ 64 - 1) (unat b ^ Suc j)"

text \<open>A strategy built with or without a call of \<open>max_delay\<close>.\<close>

definition fibonacci_built :: "Duration \<Rightarrow> Duration option \<Rightarrow> FibonacciBackoff" where
  "fibonacci_built d max_delay =
     (case max_delay of
        None \<Rightarrow> FibonacciBackoff_new d
      | Some m \<Rightarrow> FibonacciBackoff_max_delay (FibonacciBackoff_new d) m)"

definition exponential_built :: "u64 \<Rightarrow> Duration option \<Rightarrow> ExponentialBackoff" where
  "exponential_built millis max_delay =
     (case max_delay of
        None \<Rightarrow> ExponentialBackoff_from_millis millis
      | Some m \<Rightarrow> ExponentialBackoff_max_delay (ExponentialBackoff_from_millis millis) m)"

section \<open>The interface the retry loop relies on\<close>

locale delay_strategy =
  fixes nxt :: "('s, Duration) iter_next"
    and inv :: "'s \<Rightarrow> bool"
  assumes yields: "inv s \<Longrightarrow> \<exists>d. fst (nxt s) = Some d \<and> valid_duration d"
    and keeps_inv: "inv s \<Longrightarrow> inv (snd (nxt s))"
    and grows: "inv s \<Longrightarrow> fst (nxt s) = Some d \<Longrightarrow> fst (nxt (snd (nxt s))) = Some e \<Longrightarrow> d \<le> e"
begin

lemma item_cases:
  assumes "inv s"
  obtains d s' where "nxt s = (Some d, s')" and "valid_duration d" and "inv s'"
  using yields [OF assms] keeps_inv [OF assms] by (cases "nxt s") auto

lemma state_inv: "inv s \<Longrightarrow> inv (iter_state nxt n s)"
  by (induction n arbitrary: s) (auto intro: keeps_inv)

lemma items_length: "inv s \<Longrightarrow> length (iter_items nxt n s) = n"
proof (induction n arbitrary: s)
  case (Suc n)
  from Suc.prems obtain d s' where "nxt s = (Some d, s')" "inv s'"
    by (rule item_cases)
  with Suc.IH show ?case by simp
qed simp

lemma items_valid: "inv s \<Longrightarrow> d \<in> set (iter_items nxt n s) \<Longrightarrow> valid_duration d"
proof (induction n arbitrary: s)
  case (Suc n)
  from Suc.prems(1) obtain e s' where "nxt s = (Some e, s')" "valid_duration e" "inv s'"
    by (rule item_cases)
  with Suc show ?case by auto
qed simp

lemma items_ge_first:
  "inv s \<Longrightarrow> fst (nxt s) = Some d \<Longrightarrow> e \<in> set (iter_items nxt n s) \<Longrightarrow> d \<le> e"
proof (induction n arbitrary: s d)
  case (Suc n)
  from Suc.prems(1) obtain s' where s': "nxt s = (Some d, s')" "inv s'"
    using Suc.prems(2) by (cases rule: item_cases) auto
  show ?case
  proof (cases "e = d")
    case False
    with Suc.prems(3) s' have e: "e \<in> set (iter_items nxt n s')" by simp
    obtain d' where d': "fst (nxt s') = Some d'"
      using yields [OF s'(2)] by blast
    from Suc.IH [OF s'(2) d' e] have "d' \<le> e" .
    moreover have "d \<le> d'"
      using grows [OF Suc.prems(1,2)] s'(1) d' by simp
    ultimately show ?thesis by simp
  qed simp
qed simp

lemma items_sorted: "inv s \<Longrightarrow> sorted (iter_items nxt n s)"
proof (induction n arbitrary: s)
  case (Suc n)
  from Suc.prems obtain d s' where s': "nxt s = (Some d, s')" "inv s'"
    by (rule item_cases)
  have "d \<le> e" if "e \<in> set (iter_items nxt n s')" for e
    using items_ge_first [OF Suc.prems, of d e "Suc n"] s' that by simp
  with s' Suc.IH show ?case by simp
qed simp

lemma items_nth:
  "inv s \<Longrightarrow> k < n \<Longrightarrow> fst (nxt (iter_state nxt k s)) = Some (iter_items nxt n s ! k)"
proof (induction n arbitrary: s k)
  case (Suc n)
  from Suc.prems(1) obtain d s' where "nxt s = (Some d, s')" "inv s'"
    by (rule item_cases)
  with Suc show ?case by (cases k) auto
qed simp

end

locale capped_strategy = delay_strategy +
  fixes limit :: "'s \<Rightarrow> Duration option"
  assumes limit_kept: "inv s \<Longrightarrow> limit (snd (nxt s)) = limit s"
    and limited: "inv s \<Longrightarrow> limit s = Some m \<Longrightarrow> fst (nxt s) = Some d \<Longrightarrow> d \<le> m"
begin

lemma items_limited:
  "inv s \<Longrightarrow> limit s = Some m \<Longrightarrow> d \<in> set (iter_items nxt n s) \<Longrightarrow> d \<le> m"
proof (induction n arbitrary: s)
  case (Suc n)
  from Suc.prems(1) obtain e s' where s': "nxt s = (Some e, s')" "inv s'"
    by (rule item_cases)
  moreover have "limit s' = Some m"
    using limit_kept [OF Suc.prems(1)] Suc.prems(2) s'(1) by simp
  moreover have "e \<le> m"
    using limited [OF Suc.prems(1,2)] s'(1) by simp
  ultimately show ?case using Suc by auto
qed simp

end

section \<open>The strategies implement the interface\<close>

lemma fib_pos: "0 < fib n"
  by (induction n rule: fib.induct) auto

lemma fib_mono_step: "fib n \<le> fib (Suc n)"
  by (cases n) (auto simp: fib_pos)

lemma fib_mono: "m \<le> n \<Longrightarrow> fib m \<le> fib n"
  by (rule lift_Suc_mono_le [where f = fib]) (rule fib_mono_step)

lemma checked_add_saturates:
  assumes "valid_duration a" and "valid_duration b"
  shows "in_nanos (case duration_checked_add a b of Some c \<Rightarrow> c | None \<Rightarrow> duration_MAX)
       = min (in_nanos duration_MAX) (in_nanos a + in_nanos b)"
    and "valid_duration (case duration_checked_add a b of Some c \<Rightarrow> c | None \<Rightarrow> duration_MAX)"
proof -
  show "in_nanos (case duration_checked_add a b of Some c \<Rightarrow> c | None \<Rightarrow> duration_MAX)
       = min (in_nanos duration_MAX) (in_nanos a + in_nanos b)"
  proof (cases "duration_checked_add a b")
    case None
    with duration_checked_add_None [OF assms] show ?thesis by simp
  next
    case (Some c)
    with duration_checked_add_Some [OF assms Some] in_nanos_le_MAX [of c] show ?thesis by simp
  qed
  show "valid_duration (case duration_checked_add a b of Some c \<Rightarrow> c | None \<Rightarrow> duration_MAX)"
    using duration_checked_add_Some [OF assms] by (auto split: option.split)
qed

lemma FibonacciBackoff_next_over:
  "over_max (fb_max_delay self) (fb_current self) \<Longrightarrow>
     FibonacciBackoff_next self = (fb_max_delay self, self)"
  by (simp add: FibonacciBackoff_next_def)

lemma FibonacciBackoff_next_under:
  "\<not> over_max (fb_max_delay self) (fb_current self) \<Longrightarrow>
     FibonacciBackoff_next self =
       (Some (fb_current self),
        self\<lparr>fb_current := fb_next self,
             fb_next := (case duration_checked_add (fb_current self) (fb_next self) of
                           Some c \<Rightarrow> c | None \<Rightarrow> duration_MAX)\<rparr>)"
  by (simp add: FibonacciBackoff_next_def Let_def split: option.split)

lemma over_max_Some: "over_max m d \<Longrightarrow> \<exists>x. m = Some x \<and> x < d"
  by (auto simp: over_max_def split: option.splits)

lemma FibonacciBackoff_next_item:
  "fst (FibonacciBackoff_next self) =
     Some (case fb_max_delay self of Some m \<Rightarrow> min m (fb_current self) | None \<Rightarrow> fb_current self)"
  by (cases "over_max (fb_max_delay self) (fb_current self)")
    (auto simp: FibonacciBackoff_next_over FibonacciBackoff_next_under over_max_def min_def
      split: option.splits)

lemma FibonacciBackoff_next_inv:
  assumes "FibonacciBackoff_inv self"
  shows "FibonacciBackoff_inv (snd (FibonacciBackoff_next self))"
proof (cases "over_max (fb_max_delay self) (fb_current self)")
  case True
  with assms show ?thesis by (simp add: FibonacciBackoff_next_over)
next
  case False
  let ?n = "case duration_checked_add (fb_current self) (fb_next self) of
              Some c \<Rightarrow> c | None \<Rightarrow> duration_MAX"
  have v: "valid_duration (fb_current self)" "valid_duration (fb_next self)"
    using assms by (simp_all add: FibonacciBackoff_inv_def)
  note sat = checked_add_saturates [OF v]
  have "in_nanos (fb_next self) \<le> in_nanos ?n"
    using sat(1) in_nanos_le_MAX [OF v(2)] by simp
  then have "fb_next self \<le> ?n"
    using duration_le_iff [OF v(2) sat(2)] by simp
  with assms False v sat(2) show ?thesis
    by (simp add: FibonacciBackoff_inv_def FibonacciBackoff_next_under)
qed

lemma FibonacciBackoff_next_max [simp]:
  "fb_max_delay (snd (FibonacciBackoff_next self)) = fb_max_delay self"
  by (cases "over_max (fb_max_delay self) (fb_current self)")
    (simp_all add: FibonacciBackoff_next_over FibonacciBackoff_next_under)

lemma FibonacciBackoff_next_current:
  assumes "FibonacciBackoff_inv self"
  shows "fb_current self \<le> fb_current (snd (FibonacciBackoff_next self))"
  using assms
  by (cases "over_max (fb_max_delay self) (fb_current self)")
    (simp_all add: FibonacciBackoff_next_over FibonacciBackoff_next_under FibonacciBackoff_inv_def)

interpretation fibonacci: capped_strategy FibonacciBackoff_next FibonacciBackoff_inv fb_max_delay
proof unfold_locales
  fix s :: FibonacciBackoff
  assume inv: "FibonacciBackoff_inv s"
  then show "\<exists>d. fst (FibonacciBackoff_next s) = Some d \<and> valid_duration d"
    by (auto simp: FibonacciBackoff_next_item FibonacciBackoff_inv_def opt_valid_def min_def
        split: option.split)
  show "FibonacciBackoff_inv (snd (FibonacciBackoff_next s))"
    by (rule FibonacciBackoff_next_inv) (rule inv)
  show "fb_max_delay (snd (FibonacciBackoff_next s)) = fb_max_delay s"
    by simp
  fix d e
  assume "fst (FibonacciBackoff_next s) = Some d"
    and "fst (FibonacciBackoff_next (snd (FibonacciBackoff_next s))) = Some e"
  then show "d \<le> e"
    using FibonacciBackoff_next_current [OF inv]
    by (auto simp: FibonacciBackoff_next_item split: option.splits intro: min.mono)
next
  fix s m d
  assume "fb_max_delay s = Some m" and "fst (FibonacciBackoff_next s) = Some d"
  then show "d \<le> m" by (auto simp: FibonacciBackoff_next_item)
qed

interpretation fixed: delay_strategy FixedDelay_next FixedDelay_inv
  by unfold_locales (simp_all add: FixedDelay_next_def FixedDelay_inv_def)

text \<open>Exponential growth.\<close>

lemma ExponentialBackoff_next_over:
  "over_max (eb_max_delay self) (from_millis (eb_current_millis self)) \<Longrightarrow>
     ExponentialBackoff_next self = (eb_max_delay self, self)"
  by (simp add: ExponentialBackoff_next_def)

lemma ExponentialBackoff_next_under:
  "\<not> over_max (eb_max_delay self) (from_millis (eb_current_millis self)) \<Longrightarrow>
     ExponentialBackoff_next self =
       (Some (from_millis (eb_current_millis self)),
        self\<lparr>eb_current_millis :=
               (case checked_mul (eb_current_millis self) (eb_base_millis self) of
                  Some x \<Rightarrow> x | None \<Rightarrow> - 1)\<rparr>)"
  by (simp add: ExponentialBackoff_next_def Let_def split: option.split)

lemma checked_mul_saturates:
  fixes a b :: u64
  shows "unat (case checked_mul a b of Some x \<Rightarrow> x | None \<Rightarrow> - 1) = min (2 ^ 64 - 1) (unat a * unat b)"
proof (cases "checked_mul a b")
  case None
  then have "2 ^ 64 \<le> unat a * unat b" by (simp add: checked_mul_None_iff)
  with None show ?thesis by (simp add: unat_minus_one_u64)
next
  case (Some x)
  with checked_mul_Some [OF Some] u64_le_max [of x] show ?thesis by simp
qed

lemma ExponentialBackoff_next_item:
  "fst (ExponentialBackoff_next self) =
     Some (case eb_max_delay self of
             Some m \<Rightarrow> min m (from_millis (eb_current_millis self))
           | None \<Rightarrow> from_millis (eb_current_millis self))"
  by (cases "over_max (eb_max_delay self) (from_millis (eb_current_millis self))")
    (auto simp: ExponentialBackoff_next_over ExponentialBackoff_next_under over_max_def min_def
      split: option.splits)

lemma ExponentialBackoff_next_kept [simp]:
  "eb_max_delay (snd (ExponentialBackoff_next self)) = eb_max_delay self"
  "eb_base_millis (snd (ExponentialBackoff_next self)) = eb_base_millis self"
  by (cases "over_max (eb_max_delay self) (from_millis (eb_current_millis self))",
      simp_all add: ExponentialBackoff_next_over ExponentialBackoff_next_under)+

lemma ExponentialBackoff_next_current:
  assumes "ExponentialBackoff_inv self"
  shows "unat (eb_current_millis self) \<le> unat (eb_current_millis (snd (ExponentialBackoff_next self)))"
proof (cases "over_max (eb_max_delay self) (from_millis (eb_current_millis self))")
  case True
  then show ?thesis by (simp add: ExponentialBackoff_next_over)
next
  case False
  let ?c = "eb_current_millis self" and ?b = "eb_base_millis self"
  have "unat ?c \<le> unat ?c * unat ?b"
  proof (cases "?b = 0")
    case True
    with assms show ?thesis by (simp add: ExponentialBackoff_inv_def)
  next
    case False
    then have "1 \<le> unat ?b" by (simp add: Suc_le_eq unat_gt_0)
    then show ?thesis by simp
  qed
  with False u64_le_max [of ?c] show ?thesis
    by (simp add: ExponentialBackoff_next_under checked_mul_saturates)
qed

lemma ExponentialBackoff_next_inv:
  assumes "ExponentialBackoff_inv self"
  shows "ExponentialBackoff_inv (snd (ExponentialBackoff_next self))"
proof -
  have "eb_current_millis (snd (ExponentialBackoff_next self)) = 0" if b: "eb_base_millis self = 0"
  proof -
    have c: "eb_current_millis self = 0"
      using assms b by (simp add: ExponentialBackoff_inv_def)
    then show ?thesis
      by (cases "over_max (eb_max_delay self) (from_millis (eb_current_millis self))")
        (simp_all add: ExponentialBackoff_next_over ExponentialBackoff_next_under b c
          checked_mul_def)
  qed
  with assms show ?thesis by (auto simp: ExponentialBackoff_inv_def)
qed

lemma from_millis_mono: "unat a \<le> unat b \<Longrightarrow> from_millis a \<le> from_millis b"
  by (simp add: duration_le_iff from_millis_nanos)

interpretation exponential:
  capped_strategy ExponentialBackoff_next ExponentialBackoff_inv eb_max_delay
proof unfold_locales
  fix s :: ExponentialBackoff
  assume inv: "ExponentialBackoff_inv s"
  then show "\<exists>d. fst (ExponentialBackoff_next s) = Some d \<and> valid_duration d"
    by (auto simp: ExponentialBackoff_next_item ExponentialBackoff_inv_def opt_valid_def min_def
        split: option.split)
  show "ExponentialBackoff_inv (snd (ExponentialBackoff_next s))"
    by (rule ExponentialBackoff_next_inv) (rule inv)
  show "eb_max_delay (snd (ExponentialBackoff_next s)) = eb_max_delay s"
    by simp
  fix d e
  assume "fst (ExponentialBackoff_next s) = Some d"
    and "fst (ExponentialBackoff_next (snd (ExponentialBackoff_next s))) = Some e"
  then show "d \<le> e"
    using from_millis_mono [OF ExponentialBackoff_next_current [OF inv]]
    by (auto simp: ExponentialBackoff_next_item split: option.splits intro: min.mono)
next
  fix s m d
  assume "eb_max_delay s = Some m" and "fst (ExponentialBackoff_next s) = Some d"
  then show "d \<le> m" by (auto simp: ExponentialBackoff_next_item)
qed

section \<open>Closed forms\<close>

lemma fibonacci_built_fields [simp]:
  "fb_current (fibonacci_built d mx) = d"
  "fb_next (fibonacci_built d mx) = d"
  "fb_max_delay (fibonacci_built d mx) = mx"
  by (simp_all add: fibonacci_built_def FibonacciBackoff_new_def FibonacciBackoff_max_delay_def
      split: option.split)

lemma exponential_built_fields [simp]:
  "eb_current_millis (exponential_built b mx) = b"
  "eb_base_millis (exponential_built b mx) = b"
  "eb_max_delay (exponential_built b mx) = mx"
  by (simp_all add: exponential_built_def ExponentialBackoff_from_millis_def
      ExponentialBackoff_max_delay_def split: option.split)

lemma fibonacci_built_inv:
  "valid_duration d \<Longrightarrow> opt_valid mx \<Longrightarrow> FibonacciBackoff_inv (fibonacci_built d mx)"
  by (simp add: FibonacciBackoff_inv_def)

lemma exponential_built_inv: "opt_valid mx \<Longrightarrow> ExponentialBackoff_inv (exponential_built b mx)"
  by (simp add: ExponentialBackoff_inv_def)

lemma min_add_saturates: "min x (min x a + min x b) = min x (a + b)" for a b x :: nat
  by auto

lemma over_max_nanos:
  assumes "opt_valid mx" and "valid_duration d" and "over_max mx d" and "in_nanos d \<le> x"
  shows "capped mx x = capped mx (in_nanos d)"
  using assms by (auto simp: over_max_def capped_def opt_valid_def duration_less_iff split: option.splits)

lemma capped_item:
  assumes "opt_valid mx" and "valid_duration d"
  shows "in_nanos (case mx of Some m \<Rightarrow> min m d | None \<Rightarrow> d) = capped mx (in_nanos d)"
  using assms by (auto simp: capped_def opt_valid_def min_def duration_le_iff split: option.splits)

text \<open>
  The state after \<open>n\<close> calls: the pair of consecutive, saturated Fibonacci multiples with index
  \<open>j\<close>, where \<open>j\<close> falls behind \<open>n\<close> only once the current value has passed the limit.
\<close>

lemma fib_nanos_mono: "i \<le> j \<Longrightarrow> fib_nanos d i \<le> fib_nanos d j"
  unfolding fib_nanos_def by (intro min.mono mult_le_mono1 fib_mono) simp_all

lemma fibonacci_state:
  assumes d: "valid_duration d" and mx: "opt_valid mx"
  defines "st \<equiv> \<lambda>n. iter_state FibonacciBackoff_next n (fibonacci_built d mx)"
  shows "\<exists>j \<le> n. in_nanos (fb_current (st n)) = fib_nanos d j \<and>
           in_nanos (fb_next (st n)) = fib_nanos d (Suc j) \<and>
           (j < n \<longrightarrow> over_max mx (fb_current (st n))) \<and> fb_max_delay (st n) = mx"
proof (induction n)
  case 0
  then show ?case using in_nanos_le_MAX [OF d] by (simp add: st_def fib_nanos_def)
next
  case (Suc n)
  then obtain j where j: "j \<le> n" "in_nanos (fb_current (st n)) = fib_nanos d j"
    "in_nanos (fb_next (st n)) = fib_nanos d (Suc j)"
    "j < n \<longrightarrow> over_max mx (fb_current (st n))" "fb_max_delay (st n) = mx"
    by blast
  have stS: "st (Suc n) = snd (FibonacciBackoff_next (st n))"
    by (simp add: st_def iter_state_Suc_right del: iter_state.simps)
  have inv: "FibonacciBackoff_inv (st n)"
    unfolding st_def by (rule fibonacci.state_inv) (rule fibonacci_built_inv [OF d mx])
  show ?case
  proof (cases "over_max mx (fb_current (st n))")
    case True
    with j have "st (Suc n) = st n" by (simp add: stS FibonacciBackoff_next_over)
    with True j show ?thesis by (intro exI [of _ j]) simp
  next
    case False
    have v: "valid_duration (fb_current (st n))" "valid_duration (fb_next (st n))"
      using inv by (simp_all add: FibonacciBackoff_inv_def)
    have "in_nanos (fb_next (st (Suc n))) = fib_nanos d (Suc (Suc j))"
      using False j checked_add_saturates(1) [OF v]
      by (simp add: stS FibonacciBackoff_next_under fib_nanos_def min_add_saturates algebra_simps)
    with False j show ?thesis
      by (intro exI [of _ "Suc j"]) (simp add: stS FibonacciBackoff_next_under)
  qed
qed

lemma fibonacci_item:
  assumes d: "valid_duration d" and mx: "opt_valid mx" and "k < n"
  shows "in_nanos (iter_items FibonacciBackoff_next n (fibonacci_built d mx) ! k)
       = capped mx (fib_nanos d k)"
proof -
  let ?s = "iter_state FibonacciBackoff_next k (fibonacci_built d mx)"
  note inv = fibonacci_built_inv [OF d mx]
  obtain j where j: "j \<le> k" "in_nanos (fb_current ?s) = fib_nanos d j"
    "j < k \<longrightarrow> over_max mx (fb_current ?s)" "fb_max_delay ?s = mx"
    using fibonacci_state [OF d mx, of k] by blast
  have v: "valid_duration (fb_current ?s)"
    using fibonacci.state_inv [OF inv] by (simp add: FibonacciBackoff_inv_def)
  have "in_nanos (iter_items FibonacciBackoff_next n (fibonacci_built d mx) ! k)
      = capped mx (in_nanos (fb_current ?s))"
    using fibonacci.items_nth [OF inv \<open>k < n\<close>] capped_item [OF mx v]
    by (simp add: FibonacciBackoff_next_item j)
  moreover have "capped mx (in_nanos (fb_current ?s)) = capped mx (fib_nanos d k)"
  proof (cases "j = k")
    case True
    with j show ?thesis by simp
  next
    case False
    with j have "over_max mx (fb_current ?s)" by simp
    then show ?thesis
      using over_max_nanos [OF mx v, of "fib_nanos d k"] fib_nanos_mono [OF j(1)] j(2) by simp
  qed
  ultimately show ?thesis by simp
qed

lemma min_mult_saturates:
  fixes x p c :: nat
  assumes "1 \<le> c"
  shows "min x (min x p * c) = min x (p * c)"
proof (cases "p \<le> x")
  case False
  with assms have "x \<le> x * c" and "x \<le> p * c"
    by (simp_all add: le_trans [of x p])
  with False show ?thesis by simp
qed simp

lemma pow_millis_Suc: "min (2 ^ 64 - 1) (pow_millis b j * unat b) = pow_millis b (Suc j)"
proof (cases "unat b = 0")
  case False
  then have "min (2 ^ 64 - 1) (min (2 ^ 64 - 1) (unat b ^ Suc j) * unat b)
      = min (2 ^ 64 - 1) (unat b ^ Suc j * unat b)"
    by (intro min_mult_saturates) simp
  then show ?thesis
    unfolding pow_millis_def by (simp add: mult.commute)
qed (simp add: pow_millis_def)

lemma pow_millis_mono: "i \<le> j \<Longrightarrow> pow_millis b i \<le> pow_millis b j"
proof (rule lift_Suc_mono_le [where f = "pow_millis b"])
  fix n
  show "pow_millis b n \<le> pow_millis b (Suc n)"
  proof (cases "unat b = 0")
    case False
    then have "unat b ^ Suc n \<le> unat b ^ Suc (Suc n)"
      by (intro power_increasing) simp_all
    then show ?thesis unfolding pow_millis_def by (rule min.mono [OF order_refl])
  qed (simp add: pow_millis_def)
qed

lemma exponential_state:
  fixes b :: u64
  assumes mx: "opt_valid mx"
  defines "st \<equiv> \<lambda>n. iter_state ExponentialBackoff_next n (exponential_built b mx)"
  shows "\<exists>j \<le> n. unat (eb_current_millis (st n)) = pow_millis b j \<and>
           (j < n \<longrightarrow> over_max mx (from_millis (eb_current_millis (st n)))) \<and>
           eb_max_delay (st n) = mx \<and> eb_base_millis (st n) = b"
proof (induction n)
  case 0
  then show ?case using u64_le_max [of b] by (simp add: st_def pow_millis_def)
next
  case (Suc n)
  then obtain j where j: "j \<le> n" "unat (eb_current_millis (st n)) = pow_millis b j"
    "j < n \<longrightarrow> over_max mx (from_millis (eb_current_millis (st n)))"
    "eb_max_delay (st n) = mx" "eb_base_millis (st n) = b"
    by blast
  have stS: "st (Suc n) = snd (ExponentialBackoff_next (st n))"
    by (simp add: st_def iter_state_Suc_right del: iter_state.simps)
  show ?case
  proof (cases "over_max mx (from_millis (eb_current_millis (st n)))")
    case True
    with j have "st (Suc n) = st n" by (simp add: stS ExponentialBackoff_next_over)
    with True j show ?thesis by (intro exI [of _ j]) simp
  next
    case False
    with j have "unat (eb_current_millis (st (Suc n))) = pow_millis b (Suc j)"
      by (simp add: stS ExponentialBackoff_next_under checked_mul_saturates flip: pow_millis_Suc)
    with False j show ?thesis
      by (intro exI [of _ "Suc j"]) (simp add: stS)
  qed
qed

lemma exponential_item:
  assumes mx: "opt_valid mx" and "k < n"
  shows "in_nanos (iter_items ExponentialBackoff_next n (exponential_built b mx) ! k)
       = capped mx (pow_millis b k * 1000000)"
proof -
  let ?s = "iter_state ExponentialBackoff_next k (exponential_built b mx)"
  let ?d = "from_millis (eb_current_millis ?s)"
  note inv = exponential_built_inv [OF mx, of b]
  obtain j where j: "j \<le> k" "unat (eb_current_millis ?s) = pow_millis b j"
    "j < k \<longrightarrow> over_max mx ?d" "eb_max_delay ?s = mx"
    using exponential_state [OF mx, of k b] by blast
  have d: "in_nanos ?d = pow_millis b j * 1000000"
    by (simp add: from_millis_nanos j)
  have "in_nanos (iter_items ExponentialBackoff_next n (exponential_built b mx) ! k)
      = capped mx (in_nanos ?d)"
    using exponential.items_nth [OF inv \<open>k < n\<close>] capped_item [OF mx, of ?d]
    by (simp add: ExponentialBackoff_next_item j)
  moreover have "capped mx (in_nanos ?d) = capped mx (pow_millis b k * 1000000)"
  proof (cases "j = k")
    case True
    with d show ?thesis by simp
  next
    case False
    with j have "over_max mx ?d" by simp
    then show ?thesis
      using over_max_nanos [OF mx, of ?d "pow_millis b k * 1000000"] pow_millis_mono [OF j(1)] d
      by simp
  qed
  ultimately show ?thesis by simp
qed

section \<open>Properties\<close>

text \<open>
  C3. The k-th delay of a Fibonacci back-off started at \<open>d\<close> lasts \<open>fib k\<close> times \<open>d\<close>, saturated at
  the largest representable duration and at the configured maximum, for every schedule length:
  the two-register update with \<open>checked_add\<close> and its carry never loses or wraps a delay.
\<close>

theorem fibonacci_nth_delay:
  assumes "valid_duration d" and "opt_valid mx" and "k < n"
  shows "in_nanos (iter_items FibonacciBackoff_next n (fibonacci_built d mx) ! k)
       = capped mx (min (in_nanos duration_MAX) (fib k * in_nanos d))"
  using fibonacci_item [OF assms] by (simp add: fib_nanos_def)

theorem fibonacci_nth_delay_witness:
  "in_nanos (iter_items FibonacciBackoff_next 6
      (fibonacci_built (from_millis 10) (Some (from_millis 50))) ! 5) = 50000000"
proof -
  have "fib 5 = 8" by code_simp
  moreover have "50000000 \<le> in_nanos duration_MAX"
    using in_nanos_le_MAX [OF from_millis_valid [of 50]] by (simp add: from_millis_nanos)
  ultimately show ?thesis
    using fibonacci_nth_delay [of "from_millis 10" "Some (from_millis 50)" 5 6]
    by (simp add: opt_valid_def capped_def from_millis_nanos)
qed

text \<open>
  C21. The k-th delay of an exponential back-off with base \<open>b\<close> milliseconds is \<open>b ^ (k + 1)\<close>
  milliseconds, saturated at \<open>u64::MAX\<close> milliseconds and at the configured maximum.
\<close>

theorem exponential_nth_delay:
  assumes "opt_valid mx" and "k < n"
  shows "in_nanos (iter_items ExponentialBackoff_next n (exponential_built b mx) ! k)
       = capped mx (min (2 ^ 64 - 1) (unat b ^ Suc k) * 1000000)"
  using exponential_item [OF assms] unfolding pow_millis_def .

theorem exponential_nth_delay_witness:
  "in_nanos (iter_items ExponentialBackoff_next 3 (exponential_built 10 None) ! 2) = 1000000000"
  using exponential_nth_delay [of None 2 3 10]
  by (simp add: opt_valid_def capped_def)

text \<open>
  Every Fibonacci schedule is complete (as many delays as asked for), its delays are
  well-formed, never shrink, and never exceed the maximum set by \<open>max_delay\<close>.
\<close>

lemma fibonacci_schedule:
  assumes "valid_duration d" and "opt_valid mx"
  shows "length (iter_items FibonacciBackoff_next n (fibonacci_built d mx)) = n
       \<and> sorted (iter_items FibonacciBackoff_next n (fibonacci_built d mx))
       \<and> list_all valid_duration (iter_items FibonacciBackoff_next n (fibonacci_built d mx))
       \<and> (case mx of None \<Rightarrow> True
          | Some m \<Rightarrow> list_all (\<lambda>x. x \<le> m)
              (iter_items FibonacciBackoff_next n (fibonacci_built d mx)))"
proof -
  note inv = fibonacci_built_inv [OF assms]
  show ?thesis
    using fibonacci.items_length [OF inv] fibonacci.items_sorted [OF inv]
      fibonacci.items_valid [OF inv] fibonacci.items_limited [OF inv]
    by (auto simp: list_all_iff split: option.split)
qed

text \<open>
  Every exponential schedule, for every base including zero and one, is complete, well-formed,
  never shrinks, and never exceeds the maximum set by \<open>max_delay\<close>.
\<close>

lemma exponential_schedule:
  assumes "opt_valid mx"
  shows "length (iter_items ExponentialBackoff_next n (exponential_built b mx)) = n
       \<and> sorted (iter_items ExponentialBackoff_next n (exponential_built b mx))
       \<and> list_all valid_duration (iter_items ExponentialBackoff_next n (exponential_built b mx))
       \<and> (case mx of None \<Rightarrow> True
          | Some m \<Rightarrow> list_all (\<lambda>x. x \<le> m)
              (iter_items ExponentialBackoff_next n (exponential_built b mx)))"
proof -
  note inv = exponential_built_inv [OF assms, of b]
  show ?thesis
    using exponential.items_length [OF inv] exponential.items_sorted [OF inv]
      exponential.items_valid [OF inv] exponential.items_limited [OF inv]
    by (auto simp: list_all_iff split: option.split)
qed

end
