(* ===== verification/Retry.thy ===== *)
theory Retry
  imports Backoff
begin

text \<open>
  The retry loop of \<open>src/src/retry.rs\<close>: \<open>poll_err!\<close>, \<open>retry_if\<close> and \<open>retry\<close>. The world the retried
  operation acts on is a type variable; \<open>factory\<close> is one attempt (create the future and await it),
  \<open>sleep\<close> the awaited timer, both functions on the world. The strategy is an iterator, so the loop
  need not end: it is a partial function, and \<open>None\<close> means that it never returns. The branch of the loop
  for wasm32, which unwraps the result of the sleep, is a second function. The lemmas show
  that it agrees with a declarative specification on every bounded strategy, what it attempts and
  how long it sleeps, and that it diverges on an unbounded strategy whose attempts keep failing.
\<close>

section \<open>The loop\<close>

text \<open>\<open>Inl r\<close> is an early \<open>return r\<close> of the enclosing function, \<open>Inr err\<close> the value of the block.\<close>

definition poll_err ::
  "('w \<Rightarrow> ('o, 'e) result \<times> 'w) \<Rightarrow> ('e \<Rightarrow> bool) \<Rightarrow> 'w \<Rightarrow> (('o, 'e) result + 'e) \<times> 'w" where
  "poll_err factory condition w =
     (case factory w of
        (Inr output, w') \<Rightarrow> (Inl (Inr output), w')
      | (Inl err, w') \<Rightarrow> if \<not> condition err then (Inl (Inl err), w') else (Inr err, w'))"

partial_function (option) retry_loop ::
  "('i, Duration) iter_next \<Rightarrow> ('w \<Rightarrow> ('o, 'e) result \<times> 'w) \<Rightarrow> ('e \<Rightarrow> bool) \<Rightarrow>
   (Duration \<Rightarrow> 'w \<Rightarrow> 'w) \<Rightarrow> 'e \<Rightarrow> 'i \<Rightarrow> 'w \<Rightarrow> (('o, 'e) result \<times> 'w) option" where
  "retry_loop nxt factory condition sleep err it w =
     (case nxt it of
        (None, it') \<Rightarrow> Some (Inl err, w)
      | (Some delay_duration, it') \<Rightarrow>
          (case poll_err factory condition (sleep delay_duration w) of
             (Inl r, w') \<Rightarrow> Some (r, w')
           | (Inr err', w') \<Rightarrow> retry_loop nxt factory condition sleep err' it' w'))"

definition retry_if ::
  "('i, Duration) iter_next \<Rightarrow> 'i \<Rightarrow> ('w \<Rightarrow> ('o, 'e) result \<times> 'w) \<Rightarrow> ('e \<Rightarrow> bool) \<Rightarrow>
   (Duration \<Rightarrow> 'w \<Rightarrow> 'w) \<Rightarrow> 'w \<Rightarrow> (('o, 'e) result \<times> 'w) option" where
  "retry_if nxt retries factory condition sleep w =
     (case poll_err factory condition w of
        (Inl r, w') \<Rightarrow> Some (r, w')
      | (Inr err, w') \<Rightarrow> retry_loop nxt factory condition sleep err retries w')"

definition retry ::
  "('i, Duration) iter_next \<Rightarrow> 'i \<Rightarrow> ('w \<Rightarrow> ('o, 'e) result \<times> 'w) \<Rightarrow>
   (Duration \<Rightarrow> 'w \<Rightarrow> 'w) \<Rightarrow> 'w \<Rightarrow> (('o, 'e) result \<times> 'w) option" where
  "retry nxt retries factory sleep w = retry_if nxt retries factory (\<lambda>_. True) sleep w"

text \<open>
  The loop as it is compiled for wasm32: there \<open>sleep\<close> gives a \<open>Result\<close>, which the loop unwraps.
\<close>

partial_function (option) retry_loop_wasm ::
  "('i, Duration) iter_next \<Rightarrow> ('w \<Rightarrow> ('o, 'e) result \<times> 'w) \<Rightarrow> ('e \<Rightarrow> bool) \<Rightarrow>
   (Duration \<Rightarrow> 'w \<Rightarrow> (unit, 's) result \<times> 'w) \<Rightarrow> 'e \<Rightarrow> 'i \<Rightarrow> 'w \<Rightarrow>
   (('o, 'e) result exec \<times> 'w) option" where
  "retry_loop_wasm nxt factory condition sleep err it w =
     (case nxt it of
        (None, it') \<Rightarrow> Some (Returned (Inl err), w)
      | (Some delay_duration, it') \<Rightarrow>
          (case sleep delay_duration w of
             (Inl _, w') \<Rightarrow> Some (Panicked, w')
           | (Inr _, w') \<Rightarrow>
               (case poll_err factory condition w' of
                  (Inl r, w'') \<Rightarrow> Some (Returned r, w'')
                | (Inr err', w'') \<Rightarrow> retry_loop_wasm nxt factory condition sleep err' it' w'')))"

definition retry_if_wasm ::
  "('i, Duration) iter_next \<Rightarrow> 'i \<Rightarrow> ('w \<Rightarrow> ('o, 'e) result \<times> 'w) \<Rightarrow> ('e \<Rightarrow> bool) \<Rightarrow>
   (Duration \<Rightarrow> 'w \<Rightarrow> (unit, 's) result \<times> 'w) \<Rightarrow> 'w \<Rightarrow> (('o, 'e) result exec \<times> 'w) option" where
  "retry_if_wasm nxt retries factory condition sleep w =
     (case poll_err factory condition w of
        (Inl r, w') \<Rightarrow> Some (Returned r, w')
      | (Inr err, w') \<Rightarrow> retry_loop_wasm nxt factory condition sleep err retries w')"

section \<open>Specification\<close>

text \<open>
  All attempts a list of delays allows, each after the delay before it; the loop's outcome is the
  first one that is final (a success, or an error that must not be retried), else the last one.
\<close>

fun attempts ::
  "('w \<Rightarrow> ('o, 'e) result \<times> 'w) \<Rightarrow> (Duration \<Rightarrow> 'w \<Rightarrow> 'w) \<Rightarrow> Duration list \<Rightarrow> 'w \<Rightarrow>
   (('o, 'e) result \<times> 'w) list" where
  "attempts factory sleep [] w = [factory w]"
| "attempts factory sleep (d # ds) w =
     factory w # attempts factory sleep ds (sleep d (snd (factory w)))"

definition is_final :: "('e \<Rightarrow> bool) \<Rightarrow> ('o, 'e) result \<Rightarrow> bool" where
  "is_final condition r = (case r of Inr _ \<Rightarrow> True | Inl e \<Rightarrow> \<not> condition e)"

definition retry_spec ::
  "('w \<Rightarrow> ('o, 'e) result \<times> 'w) \<Rightarrow> ('e \<Rightarrow> bool) \<Rightarrow> (Duration \<Rightarrow> 'w \<Rightarrow> 'w) \<Rightarrow> Duration list \<Rightarrow> 'w \<Rightarrow>
   ('o, 'e) result \<times> 'w" where
  "retry_spec factory condition sleep ds w =
     (let as = attempts factory sleep ds w in
      case find (\<lambda>a. is_final condition (fst a)) as of Some a \<Rightarrow> a | None \<Rightarrow> last as)"

text \<open>A world extended with the log of what the loop did.\<close>

datatype 'r event = Attempt 'r | Slept Duration

definition logged_factory ::
  "('w \<Rightarrow> 'r \<times> 'w) \<Rightarrow> 'w \<times> 'r event list \<Rightarrow> 'r \<times> ('w \<times> 'r event list)" where
  "logged_factory factory = (\<lambda>(w, log). let (r, w') = factory w in (r, (w', log @ [Attempt r])))"

definition logged_sleep ::
  "(Duration \<Rightarrow> 'w \<Rightarrow> 'w) \<Rightarrow> Duration \<Rightarrow> 'w \<times> 'r event list \<Rightarrow> 'w \<times> 'r event list" where
  "logged_sleep sleep d = (\<lambda>(w, log). (sleep d w, log @ [Slept d]))"

fun tried :: "'r event list \<Rightarrow> 'r list" where
  "tried [] = []"
| "tried (Attempt r # es) = r # tried es"
| "tried (Slept d # es) = tried es"

fun slept :: "'r event list \<Rightarrow> Duration list" where
  "slept [] = []"
| "slept (Attempt r # es) = slept es"
| "slept (Slept d # es) = d # slept es"

text \<open>
  What a log shows of a run over the delays \<open>ds\<close>, when \<open>all\<close> are the results the attempts would
  give: some \<open>k\<close> delays were slept, in order, around the first \<open>k + 1\<close> attempts; the result is the
  last of them, no earlier one was final, and the loop stopped early only at a final one.
\<close>

definition run_log_ok ::
  "('e \<Rightarrow> bool) \<Rightarrow> Duration list \<Rightarrow> ('o, 'e) result list \<Rightarrow> ('o, 'e) result list \<Rightarrow> Duration list \<Rightarrow>
   ('o, 'e) result \<Rightarrow> bool" where
  "run_log_ok condition ds all made waited r \<longleftrightarrow>
     (\<exists>k \<le> length ds. made = take (Suc k) all \<and> waited = take k ds \<and> r = all ! k \<and>
        (\<forall>i < k. \<not> is_final condition (all ! i)) \<and> (k < length ds \<longrightarrow> is_final condition (all ! k)))"

section \<open>Lemmas\<close>

lemma attempts_nonempty [simp]: "attempts factory sleep ds w \<noteq> []"
  by (cases ds) auto

lemma length_attempts [simp]: "length (attempts factory sleep ds w) = Suc (length ds)"
  by (induction ds arbitrary: w) auto

lemma poll_err_final:
  "is_final condition (fst (factory w)) \<Longrightarrow>
     poll_err factory condition w = (Inl (fst (factory w)), snd (factory w))"
  by (auto simp: poll_err_def is_final_def split: prod.splits sum.splits)

lemma poll_err_retry:
  "\<not> is_final condition (fst (factory w)) \<Longrightarrow>
     \<exists>e. fst (factory w) = Inl e \<and> poll_err factory condition w = (Inr e, snd (factory w))"
  by (auto simp: poll_err_def is_final_def split: prod.splits sum.splits)

lemma retry_spec_Nil:
  "retry_spec factory condition sleep [] w = factory w"
  by (simp add: retry_spec_def Let_def)

lemma retry_spec_final:
  "is_final condition (fst (factory w)) \<Longrightarrow> retry_spec factory condition sleep ds w = factory w"
  by (cases ds) (simp_all add: retry_spec_def Let_def)

lemma retry_spec_retry:
  "\<not> is_final condition (fst (factory w)) \<Longrightarrow>
     retry_spec factory condition sleep (d # ds) w =
     retry_spec factory condition sleep ds (sleep d (snd (factory w)))"
  by (simp add: retry_spec_def Let_def split: option.split)

lemma retry_loop_take:
  "retry_loop (take_next nxt) factory condition sleep err (n, it) w =
     (case iter_items nxt n it of
        [] \<Rightarrow> Some (Inl err, w)
      | d # ds \<Rightarrow> Some (retry_spec factory condition sleep (d # ds) w0))"
  if "factory w0 = (Inl err, w)" and "condition err"
  using that
proof (induction n arbitrary: err it w w0)
  case 0
  then show ?case by (simp add: retry_loop.simps)
next
  case (Suc n)
  then have retried: "\<not> is_final condition (fst (factory w0))"
    by (simp add: is_final_def)
  show ?case
  proof (cases "nxt it")
    case (Pair x it')
    show ?thesis
    proof (cases x)
      case None
      with Pair show ?thesis by (simp add: retry_loop.simps)
    next
      case (Some d)
      let ?w1 = "sleep d w"
      have spec: "retry_spec factory condition sleep (d # ds) w0
          = retry_spec factory condition sleep ds ?w1" for ds
        using retried Suc.prems(1) by (simp add: retry_spec_retry)
      show ?thesis
      proof (cases "is_final condition (fst (factory ?w1))")
        case True
        with Pair Some show ?thesis
          by (simp add: retry_loop.simps [of _ _ _ _ _ "(Suc n, it)"] poll_err_final spec
              retry_spec_final)
      next
        case False
        then obtain e where e: "fst (factory ?w1) = Inl e"
          "poll_err factory condition ?w1 = (Inr e, snd (factory ?w1))"
          by (blast dest: poll_err_retry)
        then have f: "factory ?w1 = (Inl e, snd (factory ?w1))" by (metis prod.collapse)
        have c: "condition e" using False e(1) by (simp add: is_final_def)
        have "retry_loop (take_next nxt) factory condition sleep err (Suc n, it) w
            = retry_loop (take_next nxt) factory condition sleep e (n, it') (snd (factory ?w1))"
          using Pair Some e(2) by (simp add: retry_loop.simps [of _ _ _ _ _ "(Suc n, it)"])
        also have "\<dots> = Some (retry_spec factory condition sleep (iter_items nxt n it') ?w1)"
          using Suc.IH [where it = it', OF f c] f by (simp add: retry_spec_Nil split: list.split)
        finally show ?thesis using Pair Some spec by simp
      qed
    qed
  qed
qed

lemma retry_if_take:
  "retry_if (take_next nxt) (n, it) factory condition sleep w =
     Some (retry_spec factory condition sleep (iter_items nxt n it) w)"
proof (cases "is_final condition (fst (factory w))")
  case True
  then show ?thesis
    by (simp add: retry_if_def poll_err_final retry_spec_final)
next
  case False
  then obtain e where e: "fst (factory w) = Inl e"
    "poll_err factory condition w = (Inr e, snd (factory w))"
    by (blast dest: poll_err_retry)
  then have f: "factory w = (Inl e, snd (factory w))" by (metis prod.collapse)
  have c: "condition e" using False e(1) by (simp add: is_final_def)
  show ?thesis
    using retry_loop_take [where factory = factory and condition = condition and ?w0.0 = w, OF f c,
        of nxt sleep n it] e f
    by (simp add: retry_if_def retry_spec_Nil split: list.split)
qed

text \<open>The log of a run: which attempts were made, and which delays were slept between them.\<close>

lemma tried_append [simp]: "tried (xs @ ys) = tried xs @ tried ys"
  by (induction xs rule: tried.induct) auto

lemma slept_append [simp]: "slept (xs @ ys) = slept xs @ slept ys"
  by (induction xs rule: slept.induct) auto

lemma logged_factory_simp [simp]:
  "logged_factory factory (w, log) =
     (fst (factory w), (snd (factory w), log @ [Attempt (fst (factory w))]))"
  by (simp add: logged_factory_def split: prod.split)

lemma logged_sleep_simp [simp]: "logged_sleep sleep d (w, log) = (sleep d w, log @ [Slept d])"
  by (simp add: logged_sleep_def)

lemma run_log_ok_now:
  "length all = Suc (length ds) \<Longrightarrow> is_final condition (all ! 0) \<or> ds = [] \<Longrightarrow>
     run_log_ok condition ds all [all ! 0] [] (all ! 0)"
  unfolding run_log_ok_def by (intro exI [of _ 0]) (cases all, auto)

lemma run_log_ok_later:
  assumes "\<not> is_final condition a" and "run_log_ok condition ds all made waited r"
  shows "run_log_ok condition (d # ds) (a # all) (a # made) (d # waited) r"
proof -
  from assms(2) obtain k where k: "k \<le> length ds" "made = take (Suc k) all" "waited = take k ds"
    "r = all ! k" "\<forall>i < k. \<not> is_final condition (all ! i)"
    "k < length ds \<longrightarrow> is_final condition (all ! k)"
    by (auto simp: run_log_ok_def)
  with assms(1) show ?thesis
    unfolding run_log_ok_def
    by (intro exI [of _ "Suc k"]) (auto simp: less_Suc_eq_0_disj)
qed

lemma retry_spec_log:
  "\<exists>w' log'. retry_spec (logged_factory factory) condition (logged_sleep sleep) ds (w, log) =
     (fst (retry_spec factory condition sleep ds w), (w', log @ log')) \<and>
     w' = snd (retry_spec factory condition sleep ds w) \<and>
     run_log_ok condition ds (map fst (attempts factory sleep ds w)) (tried log') (slept log')
       (fst (retry_spec factory condition sleep ds w))"
proof (induction ds arbitrary: w log)
  case Nil
  show ?case
    using run_log_ok_now [of "[fst (factory w)]" "[]" condition]
    by (intro exI [of _ "snd (factory w)"] exI [of _ "[Attempt (fst (factory w))]"])
      (simp add: retry_spec_Nil)
next
  case (Cons d ds)
  let ?r = "fst (factory w)" and ?w1 = "snd (factory w)"
  show ?case
  proof (cases "is_final condition ?r")
    case True
    then show ?thesis
      using run_log_ok_now [of "map fst (attempts factory sleep (d # ds) w)" "d # ds" condition]
      by (intro exI [of _ ?w1] exI [of _ "[Attempt ?r]"]) (simp add: retry_spec_final)
  next
    case False
    let ?log = "log @ [Attempt ?r, Slept d]"
    from Cons.IH [of "sleep d ?w1" ?log] obtain log' where IH:
      "retry_spec (logged_factory factory) condition (logged_sleep sleep) ds (sleep d ?w1, ?log) =
         (fst (retry_spec factory condition sleep ds (sleep d ?w1)),
          (snd (retry_spec factory condition sleep ds (sleep d ?w1)), ?log @ log'))"
      "run_log_ok condition ds (map fst (attempts factory sleep ds (sleep d ?w1))) (tried log')
         (slept log') (fst (retry_spec factory condition sleep ds (sleep d ?w1)))"
      by blast
    with False show ?thesis
      by (intro exI [of _ "snd (retry_spec factory condition sleep ds (sleep d ?w1))"]
          exI [of _ "[Attempt ?r, Slept d] @ log'"])
        (simp add: retry_spec_retry run_log_ok_later)
  qed
qed

lemma run_log_ok_never_final:
  assumes "run_log_ok condition ds all made waited r" and "length all = Suc (length ds)"
    and "\<forall>a \<in> set all. \<not> is_final condition a"
  shows "made = all \<and> waited = ds \<and> r = last all"
proof -
  from assms(1) obtain k where k: "k \<le> length ds" "made = take (Suc k) all" "waited = take k ds"
    "r = all ! k" "k < length ds \<longrightarrow> is_final condition (all ! k)"
    by (auto simp: run_log_ok_def)
  have "\<not> is_final condition (all ! k)"
    using assms(3) nth_mem [of k all] assms(2) k(1) by simp
  with k(1,5) have "k = length ds" by auto
  with k assms(2) show ?thesis by (cases all rule: rev_cases) (auto simp: nth_append)
qed

lemma attempts_all:
  "(\<And>v. P (fst (factory v))) \<Longrightarrow> a \<in> set (attempts factory sleep ds w) \<Longrightarrow> P (fst a)"
  by (induction ds arbitrary: w) auto

text \<open>With an unbounded strategy and an operation that keeps failing, the loop never returns.\<close>

lemma retry_loop_diverges_aux:
  assumes nxt: "\<And>it. fst (nxt it) \<noteq> None"
    and fails: "\<And>w. \<not> is_final condition (fst (factory w))"
    and ret: "retry_loop nxt factory condition sleep err it w = Some res"
  shows False
proof -
  have "(\<forall>it. fst (nxt it) \<noteq> None) \<longrightarrow> (\<forall>w. \<not> is_final condition (fst (factory w))) \<longrightarrow> False"
  proof (rule retry_loop.raw_induct [where P = "\<lambda>nxt factory condition sleep err it w res.
          (\<forall>it. fst (nxt it) \<noteq> None) \<longrightarrow>
          (\<forall>w. \<not> is_final condition (fst (factory w))) \<longrightarrow> False", OF _ ret])
    fix loop nxt factory condition sleep err it w res
    assume IH: "\<And>nxt factory condition sleep err it w res.
        loop nxt factory condition sleep err it w = Some res \<Longrightarrow>
        (\<forall>it. fst (nxt it) \<noteq> None) \<longrightarrow>
        (\<forall>w. \<not> is_final condition (fst (factory w))) \<longrightarrow> False"
      and step: "(case nxt it of (None, it') \<Rightarrow> Some (Inl err, w)
         | (Some delay_duration, it') \<Rightarrow>
             (case poll_err factory condition (sleep delay_duration w) of
                (Inl r, w') \<Rightarrow> Some (r, w')
              | (Inr err', w') \<Rightarrow> loop nxt factory condition sleep err' it' w')) = Some res"
    show "(\<forall>it. fst (nxt it) \<noteq> None) \<longrightarrow>
        (\<forall>w. \<not> is_final condition (fst (factory w))) \<longrightarrow> False"
    proof (intro impI)
      assume n: "\<forall>it. fst (nxt it) \<noteq> None"
        and f: "\<forall>w. \<not> is_final condition (fst (factory w))"
      obtain d it' where d: "nxt it = (Some d, it')"
        using n by (metis not_None_eq prod.collapse)
      obtain e where "poll_err factory condition (sleep d w)
          = (Inr e, snd (factory (sleep d w)))"
        using poll_err_retry f by metis
      with step d have "loop nxt factory condition sleep e it' (snd (factory (sleep d w))) = Some res"
        by simp
      from IH [OF this] n f show False by blast
    qed
  qed
  with nxt fails show False by blast
qed

lemma retry_if_diverges:
  assumes nxt: "\<And>it. fst (nxt it) \<noteq> None"
    and fails: "\<And>w. \<not> is_final condition (fst (factory w))"
  shows "retry_if nxt it factory condition sleep w = None"
proof -
  obtain e where e: "poll_err factory condition w = (Inr e, snd (factory w))"
    using poll_err_retry fails by metis
  have "retry_loop nxt factory condition sleep e it (snd (factory w)) = None"
    by (rule ccontr) (auto dest: retry_loop_diverges_aux [OF nxt fails])
  with e show ?thesis by (simp add: retry_if_def)
qed

section \<open>Retrying with a strategy\<close>

lemma retry_if_logged:
  "\<exists>w' log. retry_if (take_next nxt) (n, it) (logged_factory factory) condition (logged_sleep sleep)
       (w, []) = Some (fst (retry_spec factory condition sleep (iter_items nxt n it) w), (w', log)) \<and>
     run_log_ok condition (iter_items nxt n it)
       (map fst (attempts factory sleep (iter_items nxt n it) w)) (tried log) (slept log)
       (fst (retry_spec factory condition sleep (iter_items nxt n it) w))"
  using retry_spec_log [of factory condition sleep "iter_items nxt n it" w "[]"]
  by (auto simp: retry_if_take)

lemma run_log_ok_counts:
  assumes "run_log_ok condition ds all made waited r" and "length all = Suc (length ds)"
  shows "length made = Suc (length waited)" and "length waited \<le> length ds"
    and "set waited \<subseteq> set ds"
  using assms by (auto simp: run_log_ok_def dest: in_set_takeD)

lemma sum_list_le_length_mult:
  "(\<And>x. x \<in> set xs \<Longrightarrow> f x \<le> b) \<Longrightarrow> sum_list (map f xs) \<le> length xs * b" for b :: nat
  by (induction xs) (auto simp: add_mono)

context delay_strategy
begin

lemma retry_exhausts:
  assumes "inv it" and fails: "\<And>v. \<not> is_final condition (fst (factory v))"
  shows "\<exists>r w' log. retry_if (take_next nxt) (n, it) (logged_factory factory) condition
       (logged_sleep sleep) (w, []) = Some (r, (w', log)) \<and>
     length (tried log) = Suc n \<and> slept log = iter_items nxt n it \<and> r = last (tried log)"
proof -
  let ?ds = "iter_items nxt n it"
  let ?all = "map fst (attempts factory sleep ?ds w)"
  have "\<forall>a \<in> set ?all. \<not> is_final condition a"
    using attempts_all [of "\<lambda>r. \<not> is_final condition r" factory] fails by auto
  then show ?thesis
    using retry_if_logged [of nxt n it factory condition sleep w]
      run_log_ok_never_final [of condition ?ds ?all] items_length [OF assms(1)]
    by fastforce
qed

end

context capped_strategy
begin

lemma retry_wait_bound:
  assumes "inv it" and "limit it = Some m" and "valid_duration m"
    and run: "retry_if (take_next nxt) (n, it) (logged_factory factory) condition
       (logged_sleep sleep) (w, []) = Some (r, (w', log))"
  shows "sum_list (map in_nanos (slept log)) \<le> n * in_nanos m"
proof -
  let ?ds = "iter_items nxt n it"
  have log: "run_log_ok condition ?ds (map fst (attempts factory sleep ?ds w)) (tried log)
      (slept log) (fst (retry_spec factory condition sleep ?ds w))"
    using retry_if_logged [of nxt n it factory condition sleep w] run by auto
  have "in_nanos d \<le> in_nanos m" if "d \<in> set (slept log)" for d
  proof -
    have "d \<in> set ?ds" using run_log_ok_counts(3) [OF log] that by auto
    with items_limited [OF assms(1,2)] items_valid [OF assms(1)] assms(3) show ?thesis
      by (simp add: duration_le_iff)
  qed
  then have "sum_list (map in_nanos (slept log)) \<le> length (slept log) * in_nanos m"
    by (rule sum_list_le_length_mult)
  also have "\<dots> \<le> n * in_nanos m"
    using run_log_ok_counts(2) [OF log] items_length [OF assms(1)] by (intro mult_le_mono1) simp
  finally show ?thesis .
qed

end

text \<open>
  On wasm32 the loop gives the same result and reaches the same world when every sleep succeeds, and
  panics at the first sleep that fails.
\<close>

lemma retry_loop_wasm_take:
  assumes "\<And>d w. fst (sleep d w) = Inr ()"
  shows "retry_loop_wasm (take_next nxt) factory condition sleep err (n, it) w =
    map_option (\<lambda>(r, w'). (Returned r, w'))
      (retry_loop (take_next nxt) factory condition (\<lambda>d w. snd (sleep d w)) err (n, it) w)"
proof (induction n arbitrary: err it w)
  case 0
  then show ?case by (simp add: retry_loop.simps retry_loop_wasm.simps)
next
  case (Suc n)
  show ?case
  proof (cases "fst (nxt it)")
    case None
    then show ?thesis by (simp add: retry_loop.simps retry_loop_wasm.simps)
  next
    case (Some d)
    obtain w1 where "sleep d w = (Inr (), w1)" using assms [of d w] by (cases "sleep d w") simp
    with Some show ?thesis
      by (simp add: retry_loop.simps [of _ _ _ _ _ "(Suc n, it)"]
          retry_loop_wasm.simps [of _ _ _ _ _ "(Suc n, it)"] Suc.IH split: prod.split sum.split)
  qed
qed

lemma retry_if_wasm_take:
  assumes "\<And>d w. fst (sleep d w) = Inr ()"
  shows "retry_if_wasm (take_next nxt) (n, it) factory condition sleep w =
    map_option (\<lambda>(r, w'). (Returned r, w'))
      (retry_if (take_next nxt) (n, it) factory condition (\<lambda>d w. snd (sleep d w)) w)"
  using assms by (simp add: retry_if_wasm_def retry_if_def retry_loop_wasm_take split: prod.split sum.split)

lemma retry_loop_wasm_panics:
  assumes "nxt it = (Some d, it')" and "sleep d w = (Inl e, w')"
  shows "retry_loop_wasm nxt factory condition sleep err it w = Some (Panicked, w')"
  using assms by (simp add: retry_loop_wasm.simps)

section \<open>Properties\<close>

text \<open>
  C2. On every strategy limited by \<open>take(n)\<close>, \<open>retry_if\<close> returns, and what it returns is the first
  success or non-retryable error among the attempts the delays allow, else the last attempt's
  error, together with the world that attempt left.
\<close>

theorem retry_if_meets_spec:
  "retry_if (take_next nxt) (n, it) factory condition sleep w =
     Some (retry_spec factory condition sleep (iter_items nxt n it) w)"
  by (rule retry_if_take)

text \<open>
  C19. The log of a run of \<open>retry_if\<close> with \<open>take(n)\<close>: attempts and sleeps alternate, the delays slept
  are the first ones of the strategy in order, there are at most \<open>n + 1\<close> attempts and one sleep
  fewer, every attempt but the last failed with a retryable error, the result is the last
  attempt's, and the loop gives up before the strategy ends only at a final result.
\<close>

theorem retry_if_log:
  "\<exists>r w' log. retry_if (take_next nxt) (n, it) (logged_factory factory) condition
       (logged_sleep sleep) (w, []) = Some (r, (w', log)) \<and>
     run_log_ok condition (iter_items nxt n it)
       (map fst (attempts factory sleep (iter_items nxt n it) w)) (tried log) (slept log) r \<and>
     length (tried log) = Suc (length (slept log)) \<and> length (tried log) \<le> Suc n"
  using retry_if_logged [of nxt n it factory condition sleep w]
    run_log_ok_counts [of condition "iter_items nxt n it"
      "map fst (attempts factory sleep (iter_items nxt n it) w)"]
    iter_items_length [of nxt n it]
  by (fastforce intro: le_trans)

text \<open>
  \<open>retry\<close> with \<open>FixedDelay\<close> and \<open>take(n)\<close> on an operation that always fails makes exactly
  \<open>n + 1\<close> attempts, sleeps the fixed delay \<open>n\<close> times and returns the last error.
\<close>

lemma retry_fixed_exhausts:
  assumes "valid_duration d" and "\<And>v. isl (fst (factory v))"
  shows "\<exists>r w' log. retry (take_next FixedDelay_next) (n, FixedDelay_new d)
       (logged_factory factory) (logged_sleep sleep) (w, []) = Some (r, (w', log)) \<and>
     length (tried log) = Suc n \<and> slept log = replicate n d \<and> r = last (tried log)"
proof -
  have inv: "FixedDelay_inv (FixedDelay_new d)"
    using assms(1) by (simp add: FixedDelay_inv_def FixedDelay_new_def)
  have items: "iter_items FixedDelay_next n (FixedDelay_new d) = replicate n d"
    by (induction n) (simp_all add: FixedDelay_next_def FixedDelay_new_def)
  have "\<not> is_final (\<lambda>_. True) (fst (factory v))" for v
    using assms(2) [of v] by (auto simp: is_final_def isl_def)
  from fixed.retry_exhausts [OF inv, where factory = factory and condition = "\<lambda>_. True"
      and n = n and sleep = sleep and w = w, OF this]
  show ?thesis by (simp add: retry_def items)
qed

text \<open>
  Retrying with a Fibonacci back-off limited by \<open>max_delay(m)\<close> and \<open>take(n)\<close> sleeps at most
  \<open>n\<close> times \<open>m\<close> in total, whatever the operation does.
\<close>

lemma retry_fibonacci_wait_bound:
  assumes "valid_duration d" and "valid_duration m"
    and "retry_if (take_next FibonacciBackoff_next)
           (n, FibonacciBackoff_max_delay (FibonacciBackoff_new d) m)
           (logged_factory factory) condition (logged_sleep sleep) (w, []) = Some (r, (w', log))"
  shows "sum_list (map in_nanos (slept log)) \<le> n * in_nanos m"
proof (rule fibonacci.retry_wait_bound [OF _ _ assms(2,3)])
  show "FibonacciBackoff_inv (FibonacciBackoff_max_delay (FibonacciBackoff_new d) m)"
    using fibonacci_built_inv [of d "Some m"] assms(1,2)
    by (simp add: fibonacci_built_def opt_valid_def)
  show "fb_max_delay (FibonacciBackoff_max_delay (FibonacciBackoff_new d) m) = Some m"
    by (simp add: FibonacciBackoff_max_delay_def)
qed

text \<open>
  C38. A strategy without \<open>take\<close> never ends: \<open>retry\<close> over a Fibonacci back-off on an operation that
  always fails never returns.
\<close>

theorem retry_unbounded_diverges:
  assumes "\<And>v. isl (fst (factory v))"
  shows "retry FibonacciBackoff_next it factory sleep w = None"
  unfolding retry_def
proof (rule retry_if_diverges)
  show "fst (FibonacciBackoff_next s) \<noteq> None" for s
    by (simp add: FibonacciBackoff_next_item)
  show "\<not> is_final (\<lambda>_. True) (fst (factory v))" for v
    using assms [of v] by (auto simp: is_final_def isl_def)
qed

theorem retry_unbounded_diverges_witness:
  "retry FibonacciBackoff_next (FibonacciBackoff_from_millis 10)
     (\<lambda>c :: nat. (Inl NotFound :: (unit, error_kind) result, c + 1)) (\<lambda>_ c. c) 0 = None"
  by (rule retry_unbounded_diverges) simp

end
