(* ===== verification/Timeouts.thy ===== *)
theory Timeouts
  imports Rust_Time
begin

text \<open>
  Time limits: \<open>src/src/timer.rs\<close> (\<open>sleep\<close> and \<open>Sleeper\<close>), \<open>RetryExt::timeout\<close> of \<open>src/src/retry.rs\<close>
  and \<open>timeout\<close> of \<open>src/src/future.rs\<close>. A future is its state with a poll function that is given the
  time of the poll. The timer of \<open>async_io\<close> and the combinators \<open>or\<close> and \<open>race\<close> of \<open>futures_lite\<close> are
  parameters with their documented behaviour as contracts. The lemmas relate both timeouts to one
  specification over the times at which an executor polls.
\<close>

section \<open>Timers\<close>

type_synonym ('f, 'r) poll_fn = "Instant \<Rightarrow> 'f \<Rightarrow> 'r poll \<times> 'f"

text \<open>The package's timer: made at an instant, polled at instants.\<close>

record 'm timer_api =
  tm_after :: "Duration \<Rightarrow> Instant \<Rightarrow> 'm"
  tm_poll :: "('m, Instant) poll_fn"

record 'm Sleeper =
  sleeper_timer :: 'm

definition after :: "'m timer_api \<Rightarrow> Duration \<Rightarrow> Instant \<Rightarrow> 'm" where
  "after tm d now = tm_after tm d now"

definition sleep :: "'m timer_api \<Rightarrow> Duration \<Rightarrow> Instant \<Rightarrow> 'm Sleeper" where
  "sleep tm d now = \<lparr>sleeper_timer = after tm d now\<rparr>"

definition Sleeper_poll :: "'m timer_api \<Rightarrow> ('m Sleeper, unit) poll_fn" where
  "Sleeper_poll tm now self =
     (case tm_poll tm now (sleeper_timer self) of
        (Ready _, m) \<Rightarrow> (Ready (), self\<lparr>sleeper_timer := m\<rparr>)
      | (Pending, m) \<Rightarrow> (Pending, self\<lparr>sleeper_timer := m\<rparr>))"

section \<open>Timeouts\<close>

datatype TimeoutError = TimeoutError

definition TimeoutError_fmt :: "TimeoutError \<Rightarrow> string" where
  "TimeoutError_fmt self = ''TimeoutError''"

text \<open>
  The asynchronous block that sleeps and then yields a result, an error: the sleep is made when the
  block is first polled, not when it is written. A finished block is not polled again (that would
  panic); the last equation only makes the function total.
\<close>

datatype 'm sleep_block = Block_Start Duration | Block_Sleeping "'m Sleeper" | Block_Done

definition sleep_block_poll :: "'m timer_api \<Rightarrow> 'r \<Rightarrow> ('m sleep_block, 'r) poll_fn" where
  "sleep_block_poll tm res now b =
     (let await = (\<lambda>s. case Sleeper_poll tm now s of
          (Ready _, s') \<Rightarrow> (Ready res, Block_Done)
        | (Pending, s') \<Rightarrow> (Pending, Block_Sleeping s'))
      in case b of
          Block_Start d \<Rightarrow> await (sleep tm d now)
        | Block_Sleeping s \<Rightarrow> await s
        | Block_Done \<Rightarrow> (Pending, Block_Done))"

text \<open>\<open>self.map(Ok)\<close>, and the block \<open>async move { Ok(future.await) }\<close>: the value, as a success.\<close>

definition map_ok_poll :: "('f, 'a) poll_fn \<Rightarrow> ('f, ('a, 'e) result) poll_fn" where
  "map_ok_poll p now f =
     (case p now f of (Ready v, f') \<Rightarrow> (Ready (Inr v), f') | (Pending, f') \<Rightarrow> (Pending, f'))"

text \<open>A combinator of two futures: what it answers given the answers its two sides would give.\<close>

type_synonym ('f, 'g, 'r) combinator =
  "('f, 'r) poll_fn \<Rightarrow> ('g, 'r) poll_fn \<Rightarrow> ('f \<times> 'g, 'r) poll_fn"

definition RetryExt_timeout ::
  "('f, 'm sleep_block, ('a, TimeoutError) result) combinator \<Rightarrow> 'm timer_api \<Rightarrow>
   ('f, 'a) poll_fn \<Rightarrow> ('f \<times> 'm sleep_block, ('a, TimeoutError) result) poll_fn" where
  "RetryExt_timeout or_fut tm p = or_fut (map_ok_poll p) (sleep_block_poll tm (Inl TimeoutError))"

definition timeout_error :: "(Duration \<Rightarrow> string) \<Rightarrow> Duration \<Rightarrow> anyhow" where
  "timeout_error debug d = anyhow_msg (''Future timed out after '' @ debug d)"

definition future_timeout ::
  "('f, 'm sleep_block, ('a, anyhow) result) combinator \<Rightarrow> 'm timer_api \<Rightarrow> (Duration \<Rightarrow> string) \<Rightarrow>
   Duration \<Rightarrow> ('f, 'a) poll_fn \<Rightarrow> ('f \<times> 'm sleep_block, ('a, anyhow) result) poll_fn" where
  "future_timeout race tm debug d p = race (map_ok_poll p) (sleep_block_poll tm (Inl (timeout_error debug d)))"

section \<open>Contracts\<close>

text \<open>
  A timer polled at an instant is ready exactly from its deadline on. A poll that is pending keeps
  the deadline; a timer that was ready has none any more and stays pending.
\<close>

definition due :: "nat option \<Rightarrow> Instant \<Rightarrow> bool" where
  "due dl now = (case dl of None \<Rightarrow> False | Some t \<Rightarrow> t \<le> now)"

definition timer_contract :: "('m \<Rightarrow> nat option) \<Rightarrow> 'm timer_api \<Rightarrow> bool" where
  "timer_contract deadline tm \<longleftrightarrow>
     (\<forall>d now. deadline (tm_after tm d now) = Some (now + in_nanos d)) \<and>
     (\<forall>now m. (\<exists>i. fst (tm_poll tm now m) = Ready i) \<longleftrightarrow> due (deadline m) now) \<and>
     (\<forall>now m. deadline (snd (tm_poll tm now m)) = (if due (deadline m) now then None else deadline m))"

text \<open>
  \<open>or\<close> answers with its first side when that is ready and otherwise with its second; \<open>race\<close> has no
  preference. Both are pending only when both sides are, and then both sides have been polled. \<open>or\<close>
  polls its first side, once, whatever the second one answers.
\<close>

definition race_contract :: "('f, 'g, 'r) combinator \<Rightarrow> bool" where
  "race_contract comb \<longleftrightarrow>
     (\<forall>p q now f g.
        (if fst (p now f) = Pending \<and> fst (q now g) = Pending
         then comb p q now (f, g) = (Pending, (snd (p now f), snd (q now g)))
         else fst (comb p q now (f, g)) \<noteq> Pending \<and>
              fst (comb p q now (f, g)) \<in> {fst (p now f), fst (q now g)}))"

definition or_contract :: "('f, 'g, 'r) combinator \<Rightarrow> bool" where
  "or_contract comb \<longleftrightarrow> race_contract comb \<and>
     (\<forall>p q now f g. fst (p now f) \<noteq> Pending \<longrightarrow> fst (comb p q now (f, g)) = fst (p now f)) \<and>
     (\<forall>p q now f g. fst (snd (comb p q now (f, g))) = snd (p now f))"

section \<open>Specification\<close>

text \<open>An executor polls at the given instants until the future is ready.\<close>

fun poll_at :: "('f, 'r) poll_fn \<Rightarrow> Instant list \<Rightarrow> 'f \<Rightarrow> 'r option" where
  "poll_at p [] f = None"
| "poll_at p (t # ts) f =
     (case p t f of (Ready r, f') \<Rightarrow> Some r | (Pending, f') \<Rightarrow> poll_at p ts f')"

text \<open>
  The specification: at the first poll where the inner future is ready its value, else at the first
  poll from the deadline on the error. When both happen at one poll, \<open>both\<close> says which results are
  allowed.
\<close>

fun timeout_spec ::
  "('a \<Rightarrow> ('a, 'e) result set) \<Rightarrow> ('a, 'e) result \<Rightarrow> nat \<Rightarrow> ('f, 'a) poll_fn \<Rightarrow> Instant list \<Rightarrow> 'f \<Rightarrow>
   ('a, 'e) result option set" where
  "timeout_spec both res deadline p [] f = {None}"
| "timeout_spec both res deadline p (t # ts) f =
     (case p t f of
        (Ready v, f') \<Rightarrow> if deadline \<le> t then Some ` both v else {Some (Inr v)}
      | (Pending, f') \<Rightarrow>
          if deadline \<le> t then {Some res} else timeout_spec both res deadline p ts f')"

text \<open>For the witnesses: a timer that is its deadline, and the two combinators.\<close>

definition toy_timer :: "nat option timer_api" where
  "toy_timer = \<lparr>tm_after = (\<lambda>d now. Some (now + in_nanos d)),
     tm_poll = (\<lambda>now m. if due m now then (Ready now, None) else (Pending, m))\<rparr>"

definition first_wins :: "('f, 'g, 'r) combinator" where
  "first_wins p q now fg =
     (case p now (fst fg) of
        (Ready r, f') \<Rightarrow> (Ready r, (f', snd fg))
      | (Pending, f') \<Rightarrow> (case q now (snd fg) of (r, g') \<Rightarrow> (r, (f', g'))))"

definition ready_at :: "nat \<Rightarrow> 'a \<Rightarrow> (unit, 'a) poll_fn" where
  "ready_at t v now f = (if t \<le> now then Ready v else Pending, f)"

section \<open>Lemmas\<close>

lemma sleeper_ready:
  assumes "timer_contract deadline tm"
  shows "fst (Sleeper_poll tm now s) = (if due (deadline (sleeper_timer s)) now then Ready () else Pending) \<and>
     deadline (sleeper_timer (snd (Sleeper_poll tm now s))) =
       (if due (deadline (sleeper_timer s)) now then None else deadline (sleeper_timer s))"
proof -
  obtain r m where m: "tm_poll tm now (sleeper_timer s) = (r, m)" by fastforce
  have "(\<exists>i. r = Ready i) \<longleftrightarrow> due (deadline (sleeper_timer s)) now"
    "deadline m = (if due (deadline (sleeper_timer s)) now then None else deadline (sleeper_timer s))"
    using assms m unfolding timer_contract_def by (metis fst_conv, metis snd_conv)
  with m show ?thesis by (cases r) (simp_all add: Sleeper_poll_def)
qed

lemma sleep_deadline:
  assumes "timer_contract deadline tm"
  shows "deadline (sleeper_timer (sleep tm d now)) = Some (now + in_nanos d)"
  using assms by (simp add: sleep_def after_def timer_contract_def)

text \<open>The deadline of a block: set when it is first polled.\<close>

fun block_deadline :: "('m \<Rightarrow> nat option) \<Rightarrow> Instant \<Rightarrow> 'm sleep_block \<Rightarrow> nat option" where
  "block_deadline deadline now (Block_Start d) = Some (now + in_nanos d)"
| "block_deadline deadline now (Block_Sleeping s) = deadline (sleeper_timer s)"
| "block_deadline deadline now Block_Done = None"

lemma sleep_block_poll_step:
  assumes c: "timer_contract deadline tm" and "b \<noteq> Block_Done"
  shows "let dl = block_deadline deadline now b; (r, b') = sleep_block_poll tm res now b in
     r = (if due dl now then Ready res else Pending) \<and>
     (r = Pending \<longrightarrow> b' \<noteq> Block_Done \<and> (\<forall>now'. block_deadline deadline now' b' = dl))"
proof -
  obtain s where s: "block_deadline deadline now b = deadline (sleeper_timer s)"
    and b: "sleep_block_poll tm res now b =
      (case Sleeper_poll tm now s of
          (Ready _, s') \<Rightarrow> (Ready res, Block_Done)
        | (Pending, s') \<Rightarrow> (Pending, Block_Sleeping s'))"
  proof (cases b)
    case (Block_Start d)
    then show thesis using c that [of "sleep tm d now"]
      by (simp add: sleep_block_poll_def sleep_deadline)
  next
    case (Block_Sleeping s)
    then show thesis using that [of s] by (simp add: sleep_block_poll_def)
  qed (use assms in simp)
  obtain q s' where q: "Sleeper_poll tm now s = (q, s')" by fastforce
  from sleeper_ready [OF c, of now s] q b s show ?thesis
    by (cases q) (auto simp: Let_def split: if_splits)
qed

lemma map_ok_poll_simps [simp]:
  "fst (p now f) = Ready v \<Longrightarrow> fst (map_ok_poll p now f) = Ready (Inr v)"
  "p now f = (Pending, f') \<Longrightarrow> map_ok_poll p now f = (Pending, f')"
  by (auto simp: map_ok_poll_def split: prod.splits)

lemma race_ready:
  assumes "race_contract comb" and "fst (p now f) \<noteq> Pending \<or> fst (q now g) \<noteq> Pending"
  shows "fst (comb p q now (f, g)) \<noteq> Pending"
    and "fst (comb p q now (f, g)) = fst (p now f) \<or> fst (comb p q now (f, g)) = fst (q now g)"
  using assms(1) [unfolded race_contract_def, rule_format, of p now f q g] assms(2) by auto

lemma race_not_ready:
  assumes "race_contract comb" and "fst (comb p q now (f, g)) = Pending"
  shows "fst (p now f) = Pending" and "fst (q now g) = Pending"
  using race_ready(1) [OF assms(1)] assms(2) by blast+

lemma race_pending:
  assumes "race_contract comb" and "p now f = (Pending, f')" and "q now g = (Pending, g')"
  shows "comb p q now (f, g) = (Pending, (f', g'))"
  using assms(1) [unfolded race_contract_def, rule_format, of p now f q g] assms(2,3) by auto

lemma timeout_poll_at:
  fixes tm :: "'m timer_api" and p :: "('f, 'a) poll_fn" and res :: "('a, 'e) result"
    and comb :: "('f, 'm sleep_block, ('a, 'e) result) combinator"
  assumes c: "timer_contract deadline tm" and race: "race_contract comb" and "b \<noteq> Block_Done"
    and both: "\<And>now f g v. fst (p now f) = Ready v \<Longrightarrow>
      fst (comb (map_ok_poll p) (sleep_block_poll tm res) now (f, g)) \<in> Ready ` both v"
    and "ts \<noteq> [] \<Longrightarrow> block_deadline deadline (hd ts) b = Some dl"
  shows "poll_at (comb (map_ok_poll p) (sleep_block_poll tm res)) ts (f, b)
     \<in> timeout_spec both res dl p ts f"
  using assms(3,5)
proof (induction ts arbitrary: f b)
  case Nil
  then show ?case by simp
next
  case (Cons t ts)
  let ?q = "sleep_block_poll tm res :: ('m sleep_block, ('a, 'e) result) poll_fn"
  let ?c = "comb (map_ok_poll p) ?q t (f, b)"
  obtain rb b' where rb: "?q t b = (rb, b')" by fastforce
  have blk: "rb = (if dl \<le> t then Ready res else Pending)"
    "rb = Pending \<Longrightarrow> b' \<noteq> Block_Done" "rb = Pending \<Longrightarrow> block_deadline deadline now' b' = Some dl" for now'
    using sleep_block_poll_step [OF c Cons.prems(1), of t res] Cons.prems(2) rb
    by (auto simp: Let_def due_def)
  obtain rf f' where rf: "p t f = (rf, f')" by fastforce
  note ready = race_ready [OF race, of "map_ok_poll p" t f ?q b]
  show ?case
  proof (cases rf)
    case Pending
    show ?thesis
    proof (cases "dl \<le> t")
      case True
      with ready blk(1) Pending rf rb have "fst ?c = Ready res" by auto
      with rf Pending True show ?thesis by (auto split: prod.split)
    next
      case False
      with race_pending [OF race, of "map_ok_poll p" t f f' ?q b b'] blk(1) Pending rf rb
      have "?c = (Pending, (f', b'))" by simp
      with Cons.IH [of b' f'] blk False Pending rf show ?thesis by simp
    qed
  next
    case (Ready v)
    with rf have v: "fst (p t f) = Ready v" by simp
    with ready(1) obtain x where x: "fst ?c = Ready x" by (cases "fst ?c") auto
    have "x \<in> both v" using both [OF v, of b] x by auto
    moreover have "x = Inr v" if "\<not> dl \<le> t"
      using that ready v blk(1) x rb by auto
    ultimately show ?thesis using rf Ready x by (auto split: prod.split)
  qed
qed

lemma sleep_block_results: "fst (sleep_block_poll tm res now b) \<in> {Pending, Ready res}"
  by (cases b) (auto simp: sleep_block_poll_def split: prod.split poll.split)

lemma toy_timer_contract: "timer_contract (\<lambda>m. m) toy_timer"
  by (simp add: timer_contract_def toy_timer_def)

lemma first_wins_or: "or_contract first_wins"
  by (auto simp: or_contract_def race_contract_def first_wins_def split: prod.split poll.split)

section \<open>Properties\<close>

text \<open>
  C17. \<open>RetryExt::timeout\<close> meets its specification for every future and every times of polling: it
  yields the future's value at the first poll where the future is ready, also when the time is up at
  that poll, and otherwise \<open>TimeoutError\<close> at the first poll at or after the full duration counted
  from the first poll.
\<close>

theorem retry_timeout_meets_spec:
  assumes "timer_contract deadline tm" and "or_contract comb"
  shows "poll_at (RetryExt_timeout comb tm p) (t0 # ts) (f, Block_Start d)
     \<in> timeout_spec (\<lambda>v. {Inr v}) (Inl TimeoutError) (t0 + in_nanos d) p (t0 # ts) f"
  unfolding RetryExt_timeout_def
proof (rule timeout_poll_at [OF assms(1)])
  show "race_contract comb" using assms(2) by (simp add: or_contract_def)
  fix now f g v
  assume "fst (p now f) = Ready v"
  then show "fst (comb (map_ok_poll p) (sleep_block_poll tm (Inl TimeoutError)) now (f, g))
      \<in> Ready ` {Inr v}"
    using assms(2) by (simp add: or_contract_def)
qed simp_all

theorem retry_timeout_meets_spec_witness:
  "poll_at (RetryExt_timeout first_wins toy_timer (ready_at 9 True)) [1, 4, 7, 10] ((), Block_Start (Duration 0 5))
     = Some (Inl TimeoutError) \<and>
   poll_at (RetryExt_timeout first_wins toy_timer (ready_at 5 True)) [1, 4, 7, 10] ((), Block_Start (Duration 0 5))
     = Some (Inr True)"
  using retry_timeout_meets_spec [OF toy_timer_contract first_wins_or, of "ready_at 9 True" 1 "[4, 7, 10]" "()"
      "Duration 0 5"]
    retry_timeout_meets_spec [OF toy_timer_contract first_wins_or, of "ready_at 5 True" 1 "[4, 7, 10]" "()"
      "Duration 0 5"]
  by (simp add: ready_at_def in_nanos_def del: poll_at.simps)

text \<open>
  C37. \<open>future::timeout\<close> meets the same specification, except when the future is ready and the time is
  up at the same poll: then it may yield either the value or the error that names the duration.
\<close>

theorem future_timeout_meets_spec:
  assumes "timer_contract deadline tm" and "race_contract comb"
  shows "poll_at (future_timeout comb tm debug d p) (t0 # ts) (f, Block_Start d)
     \<in> timeout_spec (\<lambda>v. {Inr v, Inl (timeout_error debug d)}) (Inl (timeout_error debug d))
         (t0 + in_nanos d) p (t0 # ts) f"
  unfolding future_timeout_def
proof (rule timeout_poll_at [OF assms])
  let ?q = "sleep_block_poll tm (Inl (timeout_error debug d))"
  fix now f g v
  assume "fst (p now f) = Ready v"
  then show "fst (comb (map_ok_poll p) ?q now (f, g)) \<in> Ready ` {Inr v, Inl (timeout_error debug d)}"
    using race_ready [OF assms(2), of "map_ok_poll p" now f ?q g]
      sleep_block_results [of tm "Inl (timeout_error debug d)" now g]
    by auto
qed simp_all

theorem future_timeout_meets_spec_witness:
  "poll_at (future_timeout first_wins toy_timer (\<lambda>_. ''5ns'') (Duration 0 5) (ready_at 9 True)) [1, 4, 7]
     ((), Block_Start (Duration 0 5)) = Some (Inl (Anyhow [''Future timed out after 5ns'']))"
proof -
  have "race_contract (first_wins :: (unit, nat option sleep_block, (bool, anyhow) result) combinator)"
    by (rule first_wins_or [unfolded or_contract_def, THEN conjunct1])
  from future_timeout_meets_spec [OF toy_timer_contract this, of "\<lambda>_. ''5ns''" "Duration 0 5"
      "ready_at 9 True" 1 "[4, 7]" "()"]
  show ?thesis by (simp add: ready_at_def in_nanos_def timeout_error_def anyhow_msg_def del: poll_at.simps)
qed

end
