(* ===== verification/Retry_Poll.thy ===== *)
theory Retry_Poll
  imports Retry Timeouts
begin

text \<open>
  The future that \<open>retry_if\<close> of \<open>src/src/retry.rs\<close> returns, as an executor sees it: a state machine
  that stops at each \<open>await\<close> and goes on at the next poll. An attempt is a future of its own, made by
  the factory and polled with the world it acts on. A poll goes on through every \<open>await\<close> that is
  ready, so it need not end when the delays are zero: it is a partial function, and \<open>None\<close> means
  that the poll never returns. The lemmas show that the machine refines the awaited loop of \<open>Retry\<close>
  for every way of polling, that a poll ends when the delays are not zero, and how many attempts fit
  into a time limit.
\<close>

section \<open>The future\<close>

record ('w, 'f, 'o, 'e) operation =
  op_make :: "Instant \<Rightarrow> 'w \<Rightarrow> 'f \<times> 'w"
  op_poll :: "Instant \<Rightarrow> 'f \<Rightarrow> 'w \<Rightarrow> ('o, 'e) result poll \<times> 'f \<times> 'w"

text \<open>
  Where the function stands: before its first statement, in the \<open>await\<close> of an attempt, at the head
  of the loop with the last error, in the \<open>await\<close> of the timer, and after its return.
\<close>

datatype ('i, 'm, 'f, 'e) retry_future =
    At_Start 'i
  | In_Attempt 'i 'f
  | At_Head 'i 'e
  | In_Sleep 'i 'e "'m Sleeper"
  | Returned_Once

text \<open>The code between two places: \<open>Inr\<close> goes on within the poll, \<open>Inl\<close> ends the poll.\<close>

definition retry_step ::
  "'m timer_api \<Rightarrow> ('i, Duration) iter_next \<Rightarrow> ('w, 'f, 'o, 'e) operation \<Rightarrow> ('e \<Rightarrow> bool) \<Rightarrow> Instant \<Rightarrow>
   ('i, 'm, 'f, 'e) retry_future \<Rightarrow> 'w \<Rightarrow>
   (('o, 'e) result poll \<times> ('i, 'm, 'f, 'e) retry_future \<times> 'w) +
   (('i, 'm, 'f, 'e) retry_future \<times> 'w)" where
  "retry_step tm nxt op condition now st w =
     (case st of
        At_Start it \<Rightarrow> (case op_make op now w of (f, w') \<Rightarrow> Inr (In_Attempt it f, w'))
      | In_Attempt it f \<Rightarrow>
          (case op_poll op now f w of
             (Pending, f', w') \<Rightarrow> Inl (Pending, In_Attempt it f', w')
           | (Ready (Inr output), f', w') \<Rightarrow> Inl (Ready (Inr output), Returned_Once, w')
           | (Ready (Inl err), f', w') \<Rightarrow>
               if \<not> condition err then Inl (Ready (Inl err), Returned_Once, w')
               else Inr (At_Head it err, w'))
      | At_Head it err \<Rightarrow>
          (case nxt it of
             (None, it') \<Rightarrow> Inl (Ready (Inl err), Returned_Once, w)
           | (Some delay_duration, it') \<Rightarrow> Inr (In_Sleep it' err (sleep tm delay_duration now), w))
      | In_Sleep it err s \<Rightarrow>
          (case Sleeper_poll tm now s of
             (Pending, s') \<Rightarrow> Inl (Pending, In_Sleep it err s', w)
           | (Ready _, s') \<Rightarrow> (case op_make op now w of (f, w') \<Rightarrow> Inr (In_Attempt it f, w')))
      | Returned_Once \<Rightarrow> Inl (Pending, Returned_Once, w))"

text \<open>
  One poll. A future that has returned is not polled again, and the last case above only makes the
  function total.
\<close>

partial_function (option) retry_poll ::
  "'m timer_api \<Rightarrow> ('i, Duration) iter_next \<Rightarrow> ('w, 'f, 'o, 'e) operation \<Rightarrow> ('e \<Rightarrow> bool) \<Rightarrow> Instant \<Rightarrow>
   ('i, 'm, 'f, 'e) retry_future \<Rightarrow> 'w \<Rightarrow>
   (('o, 'e) result poll \<times> ('i, 'm, 'f, 'e) retry_future \<times> 'w) option" where
  "retry_poll tm nxt op condition now st w =
     (case retry_step tm nxt op condition now st w of
        Inl answer \<Rightarrow> Some answer
      | Inr (st', w') \<Rightarrow> retry_poll tm nxt op condition now st' w')"

text \<open>An executor polls at the given instants; \<open>None\<close> when some poll never returns.\<close>

fun retry_polls ::
  "'m timer_api \<Rightarrow> ('i, Duration) iter_next \<Rightarrow> ('w, 'f, 'o, 'e) operation \<Rightarrow> ('e \<Rightarrow> bool) \<Rightarrow> Instant list \<Rightarrow>
   ('i, 'm, 'f, 'e) retry_future \<Rightarrow> 'w \<Rightarrow>
   (('o, 'e) result poll \<times> ('i, 'm, 'f, 'e) retry_future \<times> 'w) option" where
  "retry_polls tm nxt op condition [] st w = Some (Pending, st, w)"
| "retry_polls tm nxt op condition (t # ts) st w =
     (case retry_poll tm nxt op condition t st w of
        None \<Rightarrow> None
      | Some (Ready r, st', w') \<Rightarrow> Some (Ready r, st', w')
      | Some (Pending, st', w') \<Rightarrow> retry_polls tm nxt op condition ts st' w')"

section \<open>Observation\<close>

text \<open>
  A world that records when the attempts started and what they gave, and a factory that gives the
  recorded results again, one after the other.
\<close>

definition recorded_op ::
  "('w, 'f, 'o, 'e) operation \<Rightarrow> ('w \<times> Instant list \<times> ('o, 'e) result list, 'f, 'o, 'e) operation" where
  "recorded_op op =
     \<lparr>op_make = (\<lambda>now (w, ts, rs). let (f, w') = op_make op now w in (f, (w', ts @ [now], rs))),
      op_poll = (\<lambda>now f (w, ts, rs). case op_poll op now f w of
          (Pending, f', w') \<Rightarrow> (Pending, f', (w', ts, rs))
        | (Ready r, f', w') \<Rightarrow> (Ready r, f', (w', ts, rs @ [r])))\<rparr>"

fun replay :: "'e \<Rightarrow> ('o, 'e) result list \<Rightarrow> ('o, 'e) result \<times> ('o, 'e) result list" where
  "replay e0 [] = (Inl e0, [])"
| "replay e0 (r # rs) = (r, rs)"

section \<open>Induction along a poll\<close>

lemma retry_poll_invariant:
  assumes poll: "retry_poll tm nxt op condition now st w = Some answer" and "before st w"
    and "\<And>st w. before st w \<Longrightarrow> case retry_step tm nxt op condition now st w of
      Inl answer \<Rightarrow> ends answer | Inr (st', w') \<Rightarrow> before st' w'"
  shows "ends answer"
proof -
  let ?step = "\<lambda>tm nxt op condition now st w. case retry_step tm nxt op condition now st w of
      Inl answer \<Rightarrow> ends answer | Inr (st', w') \<Rightarrow> before st' w'"
  have "(\<forall>st w. before st w \<longrightarrow> ?step tm nxt op condition now st w) \<longrightarrow> before st w \<longrightarrow> ends answer"
  proof (rule retry_poll.raw_induct [where P = "\<lambda>tm nxt op condition now st w answer.
        (\<forall>st w. before st w \<longrightarrow> ?step tm nxt op condition now st w) \<longrightarrow> before st w \<longrightarrow> ends answer",
        OF _ poll], intro impI, goal_cases)
    case (1 f tm nxt op condition now st w answer)
    then have step: "?step tm nxt op condition now st w" by blast
    show ?case
    proof (cases "retry_step tm nxt op condition now st w")
      case (Inr x)
      with 1(2) step have "f tm nxt op condition now (fst x) (snd x) = Some answer" "before (fst x) (snd x)"
        by (simp_all add: split_beta)
      with 1(1) [of tm nxt op condition now "fst x" "snd x" answer] 1(3) show ?thesis by blast
    qed (use 1(2) step in simp)
  qed
  with assms(2,3) show ?thesis by blast
qed

section \<open>The machine refines the awaited loop\<close>

text \<open>What the awaited loop still has to do from a place of the machine, on the results to come.\<close>

fun resume ::
  "('i, Duration) iter_next \<Rightarrow> ('e \<Rightarrow> bool) \<Rightarrow> 'e \<Rightarrow> ('i, 'm, 'f, 'e) retry_future \<Rightarrow>
   ('o, 'e) result list \<Rightarrow> (('o, 'e) result \<times> ('o, 'e) result list) option" where
  "resume nxt condition e0 (At_Start it) rs = retry_if nxt it (replay e0) condition (\<lambda>_ x. x) rs"
| "resume nxt condition e0 (In_Attempt it f) rs = retry_if nxt it (replay e0) condition (\<lambda>_ x. x) rs"
| "resume nxt condition e0 (In_Sleep it err s) rs = retry_if nxt it (replay e0) condition (\<lambda>_ x. x) rs"
| "resume nxt condition e0 (At_Head it err) rs =
     retry_loop nxt (replay e0) condition (\<lambda>_ x. x) err it rs"
| "resume nxt condition e0 Returned_Once rs = None"

lemma retry_loop_head:
  "retry_loop nxt factory condition (\<lambda>_ x. x) err it rs =
     (case nxt it of
        (None, it') \<Rightarrow> Some (Inl err, rs)
      | (Some d, it') \<Rightarrow> retry_if nxt it' factory condition (\<lambda>_ x. x) rs)"
  by (subst retry_loop.simps)
    (simp add: retry_if_def split: prod.split option.split sum.split)

lemma retry_if_replay:
  "retry_if nxt it (replay e0) condition (\<lambda>_ x. x) (r # rs) =
     (case r of
        Inr v \<Rightarrow> Some (Inr v, rs)
      | Inl e \<Rightarrow> if \<not> condition e then Some (Inl e, rs)
          else retry_loop nxt (replay e0) condition (\<lambda>_ x. x) e it rs)"
  by (simp add: retry_if_def poll_err_def split: sum.split)

definition resumes ::
  "('i, Duration) iter_next \<Rightarrow> ('e \<Rightarrow> bool) \<Rightarrow> 'e \<Rightarrow> ('i, 'm, 'f, 'e) retry_future \<Rightarrow> ('o, 'e) result list \<Rightarrow>
   ('o, 'e) result poll \<Rightarrow> ('i, 'm, 'f, 'e) retry_future \<Rightarrow> ('o, 'e) result list \<Rightarrow> bool" where
  "resumes nxt condition e0 st rs answer st' rs' \<longleftrightarrow>
     (\<exists>new. rs' = rs @ new \<and> (\<forall>later. resume nxt condition e0 st (new @ later) =
        (case answer of
           Pending \<Rightarrow> resume nxt condition e0 st' later
         | Ready r \<Rightarrow> Some (r, later))))"

lemma resumes_trans:
  assumes "resumes nxt condition e0 st rs Pending st1 rs1" and "resumes nxt condition e0 st1 rs1 answer st2 rs2"
  shows "resumes nxt condition e0 st rs answer st2 rs2"
proof -
  from assms obtain new new' where n: "rs1 = rs @ new" "rs2 = rs1 @ new'"
    and r: "\<And>later. resume nxt condition e0 st (new @ later) = resume nxt condition e0 st1 later"
      "\<And>later. resume nxt condition e0 st1 (new' @ later) =
         (case answer of Pending \<Rightarrow> resume nxt condition e0 st2 later | Ready r \<Rightarrow> Some (r, later))"
    by (auto simp: resumes_def)
  have "resume nxt condition e0 st ((new @ new') @ later) =
      (case answer of Pending \<Rightarrow> resume nxt condition e0 st2 later | Ready r \<Rightarrow> Some (r, later))" for later
    using r(1) [of "new' @ later"] r(2) [of later] by simp
  with n show ?thesis unfolding resumes_def by (intro exI [of _ "new @ new'"]) simp
qed

lemma resumes_same:
  assumes "\<And>later. resume nxt condition e0 st later =
     (case answer of Pending \<Rightarrow> resume nxt condition e0 st' later | Ready r \<Rightarrow> Some (r, later))"
  shows "resumes nxt condition e0 st rs answer st' rs"
  unfolding resumes_def using assms by (intro exI [of _ "[]"]) simp

lemma resumes_one:
  assumes "\<And>later. resume nxt condition e0 st (r # later) =
     (case answer of Pending \<Rightarrow> resume nxt condition e0 st' later | Ready r \<Rightarrow> Some (r, later))"
  shows "resumes nxt condition e0 st rs answer st' (rs @ [r])"
  unfolding resumes_def using assms by (intro exI [of _ "[r]"]) simp

lemma retry_step_resumes:
  "case retry_step tm nxt (recorded_op op) condition now st (w, ts, rs) of
     Inl (answer, st', w', ts', rs') \<Rightarrow> resumes nxt condition e0 st rs answer st' rs'
   | Inr (st', w', ts', rs') \<Rightarrow> resumes nxt condition e0 st rs Pending st' rs'"
proof (cases st)
  case (At_Start it)
  then show ?thesis
    by (auto simp: retry_step_def recorded_op_def intro!: resumes_same split: prod.split)
next
  case (In_Attempt it f)
  obtain answer f' w' where call: "op_poll op now f w = (answer, f', w')" by (metis prod_cases3)
  show ?thesis
  proof (cases answer)
    case Pending
    with In_Attempt call show ?thesis
      by (auto simp: retry_step_def recorded_op_def intro!: resumes_same)
  next
    case (Ready r)
    with In_Attempt call show ?thesis
      by (auto simp: retry_step_def recorded_op_def retry_if_replay intro!: resumes_one split: sum.split)
  qed
next
  case (At_Head it err)
  then show ?thesis
    by (auto simp: retry_step_def retry_loop_head intro!: resumes_same split: prod.split option.split)
next
  case (In_Sleep it err s)
  then show ?thesis
    by (auto simp: retry_step_def recorded_op_def intro!: resumes_same split: prod.split poll.split)
qed (auto simp: retry_step_def intro: resumes_same)

lemma retry_poll_resumes:
  fixes w :: 'w
  assumes "retry_poll tm nxt (recorded_op op) condition now st (w, ts, rs) = Some (answer, st', w', ts', rs')"
  shows "resumes nxt condition e0 st rs answer st' rs'"
proof -
  let ?before = "\<lambda>st1 (w1 :: 'w, ts1 :: Instant list, rs1). resumes nxt condition e0 st rs Pending st1 rs1"
  let ?ends = "\<lambda>(answer, st1, w1 :: 'w, ts1 :: Instant list, rs1). resumes nxt condition e0 st rs answer st1 rs1"
  have "?ends (answer, st', w', ts', rs')"
  proof (rule retry_poll_invariant [OF assms, of ?before], goal_cases)
    case 1
    show ?case by (simp add: resumes_same)
  next
    case (2 st1 w1)
    then show ?case
      using retry_step_resumes [where st = st1 and w = "fst w1" and ts = "fst (snd w1)" and rs = "snd (snd w1)"]
      by (fastforce intro: resumes_trans split: sum.splits prod.splits)
  qed
  then show ?thesis by simp
qed

lemma retry_polls_resumes:
  assumes "retry_polls tm nxt (recorded_op op) condition polls st (w, ts, rs) = Some (answer, st', w', ts', rs')"
  shows "resumes nxt condition e0 st rs answer st' rs'"
  using assms
proof (induction polls arbitrary: st w ts rs)
  case Nil
  then show ?case by (auto intro: resumes_same)
next
  case (Cons t polls)
  then obtain a st1 w1 ts1 rs1 where
    p: "retry_poll tm nxt (recorded_op op) condition t st (w, ts, rs) = Some (a, st1, w1, ts1, rs1)"
    by (auto split: option.splits)
  with Cons show ?case
    using retry_poll_resumes [OF p, of e0] by (cases a) (auto intro: resumes_trans)
qed

section \<open>When attempts start\<close>

definition total_delay :: "('i, Duration) iter_next \<Rightarrow> 'i \<Rightarrow> nat \<Rightarrow> nat" where
  "total_delay nxt it k = sum_list (map in_nanos (iter_items nxt k it))"

lemma iter_items_snoc:
  assumes "length (iter_items nxt k it) = k" and "nxt (iter_state nxt k it) = (Some d, it')"
  shows "iter_items nxt (Suc k) it = iter_items nxt k it @ [d]"
  using assms
proof (induction k arbitrary: it)
  case (Suc k)
  then obtain x it1 where x: "nxt it = (Some x, it1)" "length (iter_items nxt k it1) = k"
    by (auto split: prod.splits option.splits)
  with Suc.IH [of it1] Suc.prems(2) show ?case by simp
qed simp

text \<open>
  The attempts of a run started when their delays had passed, and the place of the machine belongs
  to their number: \<open>it0\<close> is the iterator at the start, \<open>now\<close> the time of the last poll.
\<close>

definition run_ok ::
  "('m \<Rightarrow> nat option) \<Rightarrow> ('i, Duration) iter_next \<Rightarrow> 'i \<Rightarrow> Instant \<Rightarrow> ('i, 'm, 'f, 'e) retry_future \<Rightarrow>
   Instant list \<Rightarrow> bool" where
  "run_ok deadline nxt it0 now st ts \<longleftrightarrow>
     (\<forall>k < length ts. hd ts + total_delay nxt it0 k \<le> ts ! k) \<and> (\<forall>t \<in> set ts. t \<le> now) \<and>
     (case st of
        At_Start it \<Rightarrow> ts = [] \<and> it = it0
      | In_Attempt it f \<Rightarrow> (\<exists>n. length ts = Suc n \<and> it = iter_state nxt n it0 \<and> length (iter_items nxt n it0) = n)
      | At_Head it err \<Rightarrow> (\<exists>n. length ts = Suc n \<and> it = iter_state nxt n it0 \<and> length (iter_items nxt n it0) = n)
      | In_Sleep it err s \<Rightarrow> ts \<noteq> [] \<and> it = iter_state nxt (length ts) it0 \<and>
          length (iter_items nxt (length ts) it0) = length ts \<and>
          (\<exists>dl. deadline (sleeper_timer s) = Some dl \<and> hd ts + total_delay nxt it0 (length ts) \<le> dl)
      | Returned_Once \<Rightarrow> True)"

text \<open>
  A run that ended with a value got it from an attempt; one that ended with an error to be retried
  had no delay left.
\<close>

definition ended_ok ::
  "('i, Duration) iter_next \<Rightarrow> 'i \<Rightarrow> ('w, 'f, 'o, 'e) operation \<Rightarrow> ('e \<Rightarrow> bool) \<Rightarrow> ('o, 'e) result poll \<Rightarrow>
   Instant list \<Rightarrow> bool" where
  "ended_ok nxt it0 op condition answer ts \<longleftrightarrow>
     (\<forall>v. answer = Ready (Inr v) \<longrightarrow> (\<exists>now f w. fst (op_poll op now f w) = Ready (Inr v))) \<and>
     (\<forall>err. answer = Ready (Inl err) \<longrightarrow> condition err \<longrightarrow>
        (\<exists>n. length ts = Suc n \<and> length (iter_items nxt n it0) = n \<and> fst (nxt (iter_state nxt n it0)) = None))"

lemma run_ok_later: "run_ok deadline nxt it0 now st ts \<Longrightarrow> now \<le> now' \<Longrightarrow> run_ok deadline nxt it0 now' st ts"
  by (fastforce simp: run_ok_def)

lemma retry_step_run_ok:
  assumes c: "timer_contract deadline tm" and ok: "run_ok deadline nxt it0 now st ts"
  shows "case retry_step tm nxt (recorded_op op) condition now st (w, ts, rs) of
     Inl (answer, st', w', ts', rs') \<Rightarrow> run_ok deadline nxt it0 now st' ts' \<and> ended_ok nxt it0 op condition answer ts'
   | Inr (st', w', ts', rs') \<Rightarrow> run_ok deadline nxt it0 now st' ts'"
proof (cases st)
  case (At_Start it)
  with ok show ?thesis
    by (auto simp: retry_step_def recorded_op_def run_ok_def total_delay_def split: prod.split)
next
  case (In_Attempt it f)
  obtain answer f' w' where call: "op_poll op now f w = (answer, f', w')" by (metis prod_cases3)
  then have "\<exists>now f w. fst (op_poll op now f w) = answer" by (metis fst_conv)
  with In_Attempt ok call show ?thesis
    by (cases answer) (auto simp: retry_step_def recorded_op_def run_ok_def ended_ok_def split: sum.split)
next
  case (At_Head it err)
  then obtain n where n: "length ts = Suc n" "it = iter_state nxt n it0" "length (iter_items nxt n it0) = n"
    using ok by (auto simp: run_ok_def)
  show ?thesis
  proof (cases "nxt it")
    case (Pair x it')
    show ?thesis
    proof (cases x)
      case None
      with Pair At_Head ok n show ?thesis by (simp add: retry_step_def run_ok_def ended_ok_def)
    next
      case (Some d)
      note snoc = iter_items_snoc [OF n(3), of d it']
      have "ts ! n \<le> now" "hd ts + total_delay nxt it0 n \<le> ts ! n" using ok n(1) by (auto simp: run_ok_def)
      then have "hd ts + total_delay nxt it0 (Suc n) \<le> now + in_nanos d"
        using snoc Pair Some n(2) by (simp add: total_delay_def)
      moreover have "it' = iter_state nxt (Suc n) it0" "length (iter_items nxt (Suc n) it0) = Suc n"
        using snoc Pair Some n by (simp_all add: iter_state_Suc_right del: iter_state.simps)
      ultimately show ?thesis
        using Pair Some At_Head ok n(1) sleep_deadline [OF c]
        by (auto simp: retry_step_def run_ok_def simp del: iter_items.simps iter_state.simps)
    qed
  qed
next
  case (In_Sleep it err s)
  then obtain dl where dl: "deadline (sleeper_timer s) = Some dl" "hd ts + total_delay nxt it0 (length ts) \<le> dl"
    using ok by (auto simp: run_ok_def)
  obtain q s' where q: "Sleeper_poll tm now s = (q, s')" by fastforce
  note sl = sleeper_ready [OF c, of now s]
  show ?thesis
  proof (cases q)
    case Pending
    with sl q dl In_Sleep ok show ?thesis
      by (auto simp: retry_step_def run_ok_def ended_ok_def split: if_splits)
  next
    case (Ready u)
    with sl q dl have "dl \<le> now" by (auto simp: due_def split: if_splits)
    with dl(2) Ready q In_Sleep ok show ?thesis
      by (auto simp: retry_step_def recorded_op_def run_ok_def nth_append hd_append less_Suc_eq
          split: prod.split)
  qed
qed (use ok in \<open>simp add: retry_step_def ended_ok_def\<close>)

lemma retry_poll_run_ok:
  assumes "timer_contract deadline tm" and "run_ok deadline nxt it0 now st ts"
    and "retry_poll tm nxt (recorded_op op) condition now st (w, ts, rs) = Some (answer, st', w', ts', rs')"
  shows "run_ok deadline nxt it0 now st' ts' \<and> ended_ok nxt it0 op condition answer ts'"
  using retry_poll_invariant [OF assms(3), of "\<lambda>st w. run_ok deadline nxt it0 now st (fst (snd w))"
      "\<lambda>answer. run_ok deadline nxt it0 now (fst (snd answer)) (fst (snd (snd (snd answer)))) \<and>
         ended_ok nxt it0 op condition (fst answer) (fst (snd (snd (snd answer))))"]
    assms(2) retry_step_run_ok [OF assms(1)]
  by (fastforce split: sum.splits prod.splits)

section \<open>Polls return when no delay is zero\<close>

definition positive_delays :: "('i, Duration) iter_next \<Rightarrow> 'i \<Rightarrow> bool" where
  "positive_delays nxt it \<longleftrightarrow> (\<forall>n. \<forall>d \<in> set (iter_items nxt n it). 0 < in_nanos d)"

fun positive_at :: "('i, Duration) iter_next \<Rightarrow> ('i, 'm, 'f, 'e) retry_future \<Rightarrow> bool" where
  "positive_at nxt (At_Start it) = positive_delays nxt it"
| "positive_at nxt (In_Attempt it f) = positive_delays nxt it"
| "positive_at nxt (At_Head it err) = positive_delays nxt it"
| "positive_at nxt (In_Sleep it err s) = positive_delays nxt it"
| "positive_at nxt Returned_Once = True"

lemma positive_delays_next:
  assumes "positive_delays nxt it" and "nxt it = (Some d, it')"
  shows "0 < in_nanos d" and "positive_delays nxt it'"
proof -
  have "set (iter_items nxt (Suc n) it) = insert d (set (iter_items nxt n it'))" for n
    using assms(2) by simp
  then show "0 < in_nanos d" "positive_delays nxt it'"
    using assms(1) unfolding positive_delays_def by (metis insertI1, metis insertI2)
qed

text \<open>A poll that returns from a good place, having started at most \<open>n\<close> attempts.\<close>

definition poll_returns ::
  "'m timer_api \<Rightarrow> ('i, Duration) iter_next \<Rightarrow> ('w, 'f, 'o, 'e) operation \<Rightarrow> ('e \<Rightarrow> bool) \<Rightarrow> Instant \<Rightarrow>
   ('i, 'm, 'f, 'e) retry_future \<Rightarrow> 'w \<times> Instant list \<times> ('o, 'e) result list \<Rightarrow> nat \<Rightarrow> bool" where
  "poll_returns tm nxt op condition now st x n \<longleftrightarrow>
     (\<exists>answer st' w' ts rs'. retry_poll tm nxt (recorded_op op) condition now st x
         = Some (answer, st', w', fst (snd x) @ ts, rs') \<and>
       length ts \<le> n \<and> set ts \<subseteq> {now} \<and> positive_at nxt st')"

lemma poll_returns_head:
  assumes "timer_contract deadline tm" and "positive_delays nxt it"
  shows "poll_returns tm nxt op condition now (At_Head it err) x 0"
proof (cases "nxt it")
  case (Pair y it')
  show ?thesis
  proof (cases y)
    case None
    with Pair show ?thesis
      by (cases x) (auto simp: poll_returns_def retry_poll.simps retry_step_def)
  next
    case (Some d)
    with Pair assms(2) have d: "0 < in_nanos d" "positive_delays nxt it'" by (auto dest: positive_delays_next)
    have "fst (Sleeper_poll tm now (sleep tm d now)) = Pending"
      using sleeper_ready [OF assms(1)] sleep_deadline [OF assms(1)] d(1) by (simp add: due_def)
    then obtain s where "Sleeper_poll tm now (sleep tm d now) = (Pending, s)" by (metis prod.collapse)
    with Pair Some d(2) show ?thesis
      by (cases x) (auto simp: poll_returns_def retry_poll.simps [of _ _ _ _ _ "At_Head _ _"]
          retry_poll.simps [of _ _ _ _ _ "In_Sleep _ _ _"] retry_step_def)
  qed
qed

lemma poll_returns_attempt:
  assumes "timer_contract deadline tm" and "positive_delays nxt it"
  shows "poll_returns tm nxt op condition now (In_Attempt it f) (w, ts, rs) 0"
proof -
  obtain answer f' w' where call: "op_poll op now f w = (answer, f', w')" by (metis prod_cases3)
  note unfold = retry_poll.simps [of _ _ _ _ _ "In_Attempt _ _"] and sd = retry_step_def recorded_op_def
  consider (retry) err where "answer = Ready (Inl err)" "condition err" | (ends) "answer = Pending"
    | (last) r where "answer = Ready r" "\<And>err. r = Inl err \<Longrightarrow> \<not> condition err"
    by (cases answer) (metis sum.exhaust)+
  then show ?thesis
  proof cases
    case retry
    with call have "retry_poll tm nxt (recorded_op op) condition now (In_Attempt it f) (w, ts, rs) =
        retry_poll tm nxt (recorded_op op) condition now (At_Head it err) (w', ts, rs @ [Inl err])"
      by (subst unfold) (simp add: sd)
    with poll_returns_head [OF assms, of op condition now err "(w', ts, rs @ [Inl err])"] show ?thesis
      by (simp add: poll_returns_def)
  next
    case ends
    with call assms(2) show ?thesis by (auto simp: poll_returns_def unfold sd)
  next
    case last
    with call show ?thesis by (auto simp: poll_returns_def unfold sd split: sum.split)
  qed
qed

lemma poll_returns_make:
  assumes "timer_contract deadline tm" and "positive_delays nxt it"
    and "\<And>w ts rs. retry_poll tm nxt (recorded_op op) condition now st (w, ts, rs) =
      (case op_make op now w of (f, w') \<Rightarrow>
        retry_poll tm nxt (recorded_op op) condition now (In_Attempt it f) (w', ts @ [now], rs))"
  shows "poll_returns tm nxt op condition now st (w, ts, rs) 1"
proof -
  obtain f w' where f: "op_make op now w = (f, w')" by fastforce
  from poll_returns_attempt [OF assms(1,2), of op condition now f w' "ts @ [now]" rs]
  obtain answer st' w2 ts' rs' where "retry_poll tm nxt (recorded_op op) condition now st (w, ts, rs)
      = Some (answer, st', w2, ts @ now # ts', rs')" "length ts' = 0" "positive_at nxt st'"
    by (auto simp: poll_returns_def assms(3) f)
  then show ?thesis
    unfolding poll_returns_def by (intro exI [of _ answer] exI [of _ st'] exI [of _ w2] exI [of _ "[now]"]) auto
qed

lemma poll_returns_more:
  "poll_returns tm nxt op condition now st x n \<Longrightarrow> n \<le> m \<Longrightarrow> poll_returns tm nxt op condition now st x m"
  unfolding poll_returns_def by (meson order_trans)

lemma poll_returns_one:
  assumes "timer_contract deadline tm" and "positive_at nxt st"
  shows "poll_returns tm nxt op condition now st (w, ts, rs) 1"
proof (cases st)
  case (At_Start it)
  with assms show ?thesis
    by (intro poll_returns_make [OF assms(1), of nxt it])
      (simp_all add: retry_poll.simps [of _ _ _ _ _ "At_Start _"] retry_step_def recorded_op_def split: prod.split)
next
  case (In_Attempt it f)
  with assms(2) show ?thesis by (auto intro: poll_returns_more [OF poll_returns_attempt [OF assms(1)]])
next
  case (At_Head it err)
  with assms(2) show ?thesis by (auto intro: poll_returns_more [OF poll_returns_head [OF assms(1)]])
next
  case (In_Sleep it err s)
  obtain q s' where q: "Sleeper_poll tm now s = (q, s')" by fastforce
  show ?thesis
  proof (cases q)
    case Pending
    with q In_Sleep assms(2) show ?thesis by (auto simp: poll_returns_def retry_poll.simps retry_step_def)
  next
    case (Ready u)
    with q In_Sleep assms show ?thesis
      by (intro poll_returns_make [OF assms(1), of nxt it])
        (simp_all add: retry_poll.simps [of _ _ _ _ _ "In_Sleep _ _ _"] retry_step_def recorded_op_def split: prod.split)
  qed
qed (auto simp: poll_returns_def retry_poll.simps retry_step_def)

lemma retry_poll_total:
  assumes "timer_contract deadline tm" and "positive_at nxt st"
  shows "\<exists>answer. retry_poll tm nxt (recorded_op op) condition now st (w, ts, rs) = Some answer"
  using poll_returns_one [OF assms, of op condition now w ts rs] unfolding poll_returns_def by blast

text \<open>
  With zero delays, on an operation that fails at once and is always retried, the very first poll
  never returns: the executor gets no chance to look at a time limit.
\<close>

lemma retry_poll_spins:
  fixes w :: 'w
  assumes c: "timer_contract deadline tm"
    and nxt: "\<And>it. \<exists>d it'. nxt it = (Some d, it') \<and> in_nanos d = 0"
    and op: "\<And>f w. \<exists>err f' w'. op_poll op now f w = (Ready (Inl err), f', w') \<and> condition err"
  shows "retry_poll tm nxt op condition now (At_Start it) w = None"
proof (rule ccontr)
  let ?before = "\<lambda>st (w :: 'w). case st of
      In_Sleep it err s \<Rightarrow> due (deadline (sleeper_timer s)) now | Returned_Once \<Rightarrow> False | _ \<Rightarrow> True"
  assume "retry_poll tm nxt op condition now (At_Start it) w \<noteq> None"
  then obtain answer where ret: "retry_poll tm nxt op condition now (At_Start it) w = Some answer" by blast
  have "?before st w \<Longrightarrow> case retry_step tm nxt op condition now st w of
      Inl answer \<Rightarrow> False | Inr (st', w') \<Rightarrow> ?before st' w'" for st w
  proof (cases st)
    case (In_Attempt it f)
    obtain err f' w' where "op_poll op now f w = (Ready (Inl err), f', w')" "condition err" using op by blast
    with In_Attempt show ?thesis by (simp add: retry_step_def)
  next
    case (At_Head it err)
    obtain d it' where "nxt it = (Some d, it')" "in_nanos d = 0" using nxt by blast
    with At_Head show ?thesis by (simp add: retry_step_def sleep_deadline [OF c] due_def)
  next
    case (In_Sleep it err s)
    moreover assume "?before st w"
    ultimately have "fst (Sleeper_poll tm now s) = Ready ()" using sleeper_ready [OF c] by simp
    then obtain s' where "Sleeper_poll tm now s = (Ready (), s')" by (metis prod.collapse)
    with In_Sleep show ?thesis by (simp add: retry_step_def split: prod.split)
  qed (simp_all add: retry_step_def split: prod.split)
  from retry_poll_invariant [OF ret _ this] show False by simp
qed

section \<open>Under a time limit\<close>

text \<open>
  \<open>retry(..).timeout(..)\<close>: the future with its world as one state. A poll that never returns hangs the
  thread; the lemmas exclude that, and the case only makes the function total.
\<close>

definition retry_fut ::
  "'m timer_api \<Rightarrow> ('i, Duration) iter_next \<Rightarrow> ('w, 'f, 'o, 'e) operation \<Rightarrow> ('e \<Rightarrow> bool) \<Rightarrow>
   (('i, 'm, 'f, 'e) retry_future \<times> 'w, ('o, 'e) result) poll_fn" where
  "retry_fut tm nxt op condition now = (\<lambda>(st, w).
     case retry_poll tm nxt op condition now st w of
       Some (answer, st', w') \<Rightarrow> (answer, (st', w'))
     | None \<Rightarrow> (Pending, (st, w)))"

text \<open>Polling with the state that is left, where a future is dropped.\<close>

fun poll_until :: "('f, 'r) poll_fn \<Rightarrow> Instant list \<Rightarrow> 'f \<Rightarrow> 'r option \<times> 'f" where
  "poll_until p [] f = (None, f)"
| "poll_until p (t # ts) f =
     (case p t f of (Ready r, f') \<Rightarrow> (Some r, f') | (Pending, f') \<Rightarrow> poll_until p ts f')"

lemma poll_until_poll_at: "fst (poll_until p ts f) = poll_at p ts f"
  by (induction ts arbitrary: f) (auto split: prod.split poll.split)

lemma map_ok_poll_state [simp]: "snd (map_ok_poll p now f) = snd (p now f)"
  by (auto simp: map_ok_poll_def split: prod.split poll.split)

lemma timeout_pending:
  fixes p :: "('f, 'a) poll_fn" and tm :: "'m timer_api"
  assumes c: "timer_contract deadline tm" and comb: "or_contract comb" and b: "b \<noteq> Block_Done"
    and "RetryExt_timeout comb tm p t (f, b) = (Pending, (f', b'))"
  shows "f' = snd (p t f) \<and> b' \<noteq> Block_Done \<and>
     (\<forall>now. block_deadline deadline now b' = block_deadline deadline t b) \<and> \<not> due (block_deadline deadline t b) t"
proof -
  let ?q = "sleep_block_poll tm (Inl TimeoutError) :: ('m sleep_block, ('a, TimeoutError) result) poll_fn"
  have race: "race_contract comb" using comb by (simp add: or_contract_def)
  have r: "comb (map_ok_poll p) ?q t (f, b) = (Pending, (f', b'))"
    using assms(4) by (simp add: RetryExt_timeout_def)
  then have "fst (comb (map_ok_poll p) ?q t (f, b)) = Pending" by simp
  note both = race_not_ready [OF race this]
  obtain g b1 where gb: "map_ok_poll p t f = (Pending :: ('a, TimeoutError) result poll, g)" "?q t b = (Pending, b1)"
    using both by (metis prod.collapse)
  from race_pending [OF race, of "map_ok_poll p" t f g ?q b b1] gb r have "f' = g" "b' = b1" by simp_all
  moreover have "g = snd (p t f)" using arg_cong [OF gb(1), of snd] by simp
  ultimately show ?thesis
    using sleep_block_poll_step [OF c b, of t "Inl TimeoutError :: ('a, TimeoutError) result"] gb(2)
    by (auto simp: Let_def split: if_splits)
qed

lemma timeout_value:
  fixes p :: "('f, 'a) poll_fn" and tm :: "'m timer_api"
  assumes "or_contract comb" and "fst (RetryExt_timeout comb tm p t (f, b)) = Ready (Inr v)"
  shows "fst (p t f) = Ready v"
proof (cases "fst (p t f)")
  case Pending
  let ?q = "sleep_block_poll tm (Inl TimeoutError) :: ('m sleep_block, ('a, TimeoutError) result) poll_fn"
  have race: "race_contract comb" using assms(1) by (simp add: or_contract_def)
  have mp: "fst (map_ok_poll p t f) = (Pending :: ('a, TimeoutError) result poll)"
    using Pending by (auto simp: map_ok_poll_def split: prod.split)
  have r: "fst (comb (map_ok_poll p) ?q t (f, b)) = Ready (Inr v)"
    using assms(2) by (simp add: RetryExt_timeout_def)
  show ?thesis
  proof (cases "fst (?q t b) = Pending")
    case True
    with mp race_pending [OF race, of "map_ok_poll p" t f _ ?q b] r show ?thesis
      by (metis fst_conv poll.distinct(1) prod.collapse)
  next
    case False
    with race_ready(2) [OF race, of "map_ok_poll p" t f ?q b] mp r
    have "Ready (Inr v) = fst (?q t b)" by auto
    with sleep_block_results [of tm "Inl TimeoutError :: ('a, TimeoutError) result" t b] show ?thesis by auto
  qed
next
  case (Ready u)
  with assms show ?thesis by (auto simp: RetryExt_timeout_def or_contract_def)
qed

text \<open>What is known of a limited run: \<open>limit\<close> is the instant at which the time is up.\<close>

lemma limited_polls:
  assumes c: "timer_contract deadline tm" and comb: "or_contract comb"
    and "poll_until (RetryExt_timeout comb tm (retry_fut tm nxt (recorded_op op) condition)) polls
      ((st, w, ts, rs), b) = (result, ((st', w', ts', rs'), b'))"
    and "run_ok deadline nxt it0 now st ts" and "positive_at nxt st"
    and "\<forall>x \<in> set ts. t0 \<le> x \<and> x < limit"
    and "b \<noteq> Block_Done" and "polls \<noteq> [] \<Longrightarrow> block_deadline deadline (hd polls) b = Some limit"
    and "sorted (now # polls)" and "\<forall>x \<in> set polls. t0 \<le> x"
  shows "(\<exists>now. run_ok deadline nxt it0 now st' ts') \<and> (\<forall>x \<in> set ts'. t0 \<le> x) \<and>
     (\<forall>x \<in> set (butlast ts'). x < limit) \<and>
     (\<forall>v. result = Some (Inr v) \<longrightarrow> ended_ok nxt it0 op condition (Ready v) ts')"
  using assms(3-)
proof (induction polls arbitrary: st w ts rs b now)
  case Nil
  then show ?case by (auto dest: in_set_butlastD)
next
  case (Cons t polls)
  let ?p = "retry_fut tm nxt (recorded_op op) condition"
  from poll_returns_one [OF c Cons.prems(3), of op condition t w ts rs]
  obtain answer st1 w1 new rs1 where
    p: "retry_poll tm nxt (recorded_op op) condition t st (w, ts, rs) = Some (answer, st1, w1, ts @ new, rs1)"
    and new: "length new \<le> 1" "set new \<subseteq> {t}" "positive_at nxt st1"
    by (auto simp: poll_returns_def)
  then have pt: "snd (?p t (st, w, ts, rs)) = (st1, w1, ts @ new, rs1)" by (simp add: retry_fut_def)
  have ok: "run_ok deadline nxt it0 t st1 (ts @ new)" "ended_ok nxt it0 op condition answer (ts @ new)"
    using retry_poll_run_ok [OF c run_ok_later [OF Cons.prems(2)] p] Cons.prems(7) by simp_all
  have dl: "block_deadline deadline t b = Some limit" using Cons.prems(6) by simp
  obtain a f1 b1 where poll: "RetryExt_timeout comb tm ?p t ((st, w, ts, rs), b) = (a, (f1, b1))"
    by (metis prod_cases3)
  show ?case
  proof (cases a)
    case Pending
    with timeout_pending [OF c comb Cons.prems(5), of ?p t "(st, w, ts, rs)" f1 b1] poll pt dl
    have n: "f1 = (st1, w1, ts @ new, rs1)" "b1 \<noteq> Block_Done" "t < limit"
      "\<And>now. block_deadline deadline now b1 = Some limit" by (auto simp: due_def)
    have "\<forall>x \<in> set (ts @ new). t0 \<le> x \<and> x < limit" using Cons.prems(4,8) new(2) n(3) by auto
    then show ?thesis
      using Cons.IH [OF _ ok(1) new(3) _ n(2)] Cons.prems(1,7,8) poll Pending n(1,4) by auto
  next
    case (Ready r)
    have "f1 = (st1, w1, ts @ new, rs1)"
      using comb poll pt by (metis RetryExt_timeout_def fst_conv map_ok_poll_state or_contract_def snd_conv)
    with Cons.prems(1) poll Ready have ts': "ts' = ts @ new" "st' = st1" "result = Some r" by auto
    have "answer = Ready v" if "r = Inr v" for v
      using timeout_value [OF comb, of tm ?p t "(st, w, ts, rs)" b] poll Ready that p by (simp add: retry_fut_def)
    with ok(2) ts' have "\<forall>v. result = Some (Inr v) \<longrightarrow> ended_ok nxt it0 op condition (Ready v) ts'" by auto
    moreover    have "set (butlast (ts @ new)) \<subseteq> set ts"
      using new(1) by (cases new) (auto simp: butlast_append dest: in_set_butlastD)
    ultimately show ?thesis using ok(1) ts' Cons.prems(4,8) new(2) by auto
  qed
qed

text \<open>A limited run from its first poll on: when the attempts started, and how a result came about.\<close>

lemma limited_attempts:
  assumes "timer_contract deadline tm" and "or_contract comb" and "positive_delays nxt it"
    and "sorted (t0 # polls)"
    and "poll_until (RetryExt_timeout comb tm (retry_fut tm nxt (recorded_op op) condition)) (t0 # polls)
      ((At_Start it, w, [], []), Block_Start d) = (result, ((st, w', starts, rs), b))"
  shows "\<forall>k < length starts. t0 + total_delay nxt it k \<le> starts ! k"
    and "2 \<le> length starts \<longrightarrow> total_delay nxt it (length starts - 2) < in_nanos d"
    and "\<forall>v. result = Some (Inr v) \<longrightarrow> ended_ok nxt it op condition (Ready v) starts"
proof -
  have start: "run_ok deadline nxt it t0 (At_Start it) []" by (simp add: run_ok_def)
  have lim: "(\<exists>now. run_ok deadline nxt it now st starts) \<and> (\<forall>x \<in> set starts. t0 \<le> x) \<and>
     (\<forall>x \<in> set (butlast starts). x < t0 + in_nanos d) \<and>
     (\<forall>v. result = Some (Inr v) \<longrightarrow> ended_ok nxt it op condition (Ready v) starts)"
    by (rule limited_polls [OF assms(1,2,5) start]) (use assms(3,4) in auto)
  then obtain now where ok: "run_ok deadline nxt it now st starts" "\<forall>x \<in> set starts. t0 \<le> x"
    "\<forall>x \<in> set (butlast starts). x < t0 + in_nanos d"
    by blast
  have early: "t0 + total_delay nxt it k \<le> starts ! k" if "k < length starts" for k
    using ok(1,2) that list.set_sel(1) [of starts] by (fastforce simp: run_ok_def)
  then show "\<forall>k < length starts. t0 + total_delay nxt it k \<le> starts ! k" by blast
  show "\<forall>v. result = Some (Inr v) \<longrightarrow> ended_ok nxt it op condition (Ready v) starts" using lim by blast
  have "total_delay nxt it (length starts - 2) < in_nanos d" if "2 \<le> length starts"
  proof -
    have "starts ! (length starts - 2) = butlast starts ! (length starts - 2)"
      using that by (simp add: nth_butlast)
    moreover have "length starts - 2 < length (butlast starts)" using that by simp
    ultimately have "starts ! (length starts - 2) < t0 + in_nanos d" using ok(3) nth_mem by metis
    moreover have "length starts - 2 < length starts" using that by simp
    note early [OF this]
    ultimately show ?thesis by linarith
  qed
  then show "2 \<le> length starts \<longrightarrow> total_delay nxt it (length starts - 2) < in_nanos d" by blast
qed

text \<open>For the witnesses: an operation that fails at once.\<close>

definition failing_op :: "(unit, unit, nat, bool) operation" where
  "failing_op = \<lparr>op_make = (\<lambda>now w. ((), w)), op_poll = (\<lambda>now f w. (Ready (Inl True), f, w))\<rparr>"

lemmas retry_poll_eval = retry_poll.simps retry_step_def recorded_op_def failing_op_def FixedDelay_next_def
  FixedDelay_new_def toy_timer_def Sleeper_poll_def sleep_def after_def due_def in_nanos_def

lemmas limit_eval = take_next_def RetryExt_timeout_def first_wins_def map_ok_poll_def retry_fut_def sleep_block_poll_def Let_def

lemma fixed_positive:
  "0 < in_nanos (fd_delay fd) \<Longrightarrow> positive_delays (take_next FixedDelay_next) (n, fd)"
proof -
  have "set (iter_items (take_next FixedDelay_next) m (n, fd)) \<subseteq> {fd_delay fd}" for m
    by (induction m arbitrary: n) (auto simp: take_next_def FixedDelay_next_def)
  then show "0 < in_nanos (fd_delay fd) \<Longrightarrow> ?thesis" by (fastforce simp: positive_delays_def)
qed

section \<open>Properties\<close>

text \<open>
  C9. The future of \<open>retry_if\<close> refines the awaited loop for every way of polling it: whatever the
  operation, its futures and the times of the polls are, when the future is ready its result is the
  one that the loop computes from the results of the attempts that were made, and the loop uses all
  of them and no more.
\<close>

theorem retry_future_refines:
  fixes st' :: "('i, 'm, 'f, 'e) retry_future"
  assumes "retry_polls tm nxt (recorded_op op) condition polls (At_Start it) (w, [], []) =
     Some (Ready r, st', w', starts, rs)"
  shows "retry_if nxt it (replay e0) condition (\<lambda>_ x. x) rs = Some (r, [])"
proof -
  from retry_polls_resumes [OF assms, of e0]
  have "resume nxt condition e0 (At_Start it :: ('i, 'm, 'f, 'e) retry_future) (rs @ []) = Some (r, [])"
    unfolding resumes_def append_Nil poll.case by blast
  then show ?thesis by simp
qed

theorem retry_future_refines_witness:
  "retry_if (take_next FixedDelay_next) (1, FixedDelay_new (Duration 0 7)) (replay False) (\<lambda>_. True) (\<lambda>_ x. x)
     [Inl True, Inl True] = Some (Inl True :: (nat, bool) result, [])"
proof -
  have "retry_polls toy_timer (take_next FixedDelay_next) (recorded_op failing_op) (\<lambda>_. True) [0, 5, 9]
      (At_Start (1, FixedDelay_new (Duration 0 7))) ((), [], []) =
    Some (Ready (Inl True), Returned_Once, (), [0, 9], [Inl True, Inl True])"
    by (simp add: retry_poll_eval)
  from retry_future_refines [OF this, of False] show ?thesis .
qed

text \<open>
  C18. Retrying under a time limit: on a strategy without zero delays every poll of the future returns,
  an attempt starts only when the delays before it have passed since the first poll, and when the
  limited future is dropped, because it was ready or the time was up, all attempts but two fit into
  the limit with their delays.
\<close>

theorem retry_attempts_within_timeout:
  assumes "timer_contract deadline tm" and "or_contract comb" and "positive_delays nxt it"
    and "sorted (t0 # polls)"
    and "poll_until (RetryExt_timeout comb tm (retry_fut tm nxt (recorded_op op) condition)) (t0 # polls)
      ((At_Start it, w, [], []), Block_Start d) = (result, ((st, w', starts, rs), b))"
  shows "(\<forall>k < length starts. t0 + total_delay nxt it k \<le> starts ! k) \<and>
     (2 \<le> length starts \<longrightarrow> total_delay nxt it (length starts - 2) < in_nanos d) \<and>
     (\<forall>now st w ts rs. positive_at nxt st \<longrightarrow>
        (\<exists>answer. retry_poll tm nxt (recorded_op op) condition now st (w, ts, rs) = Some answer))"
  using limited_attempts(1,2) [OF assms] retry_poll_total [OF assms(1)] by (intro conjI allI impI) simp_all

theorem retry_attempts_within_timeout_witness:
  "case poll_until (RetryExt_timeout first_wins toy_timer (retry_fut toy_timer (take_next FixedDelay_next)
        (recorded_op failing_op) (\<lambda>_. True))) [0, 60, 100, 200, 305]
      ((At_Start (10, FixedDelay_new (Duration 0 100)), (), [], []), Block_Start (Duration 0 300)) of
     (result, ((st, w, starts, rs), b)) \<Rightarrow>
       result = Some (Inl TimeoutError) \<and> starts = [0, 100, 200, 305] \<and>
       total_delay (take_next FixedDelay_next) (10, FixedDelay_new (Duration 0 100)) (length starts - 2) < 300"
proof -
  let ?s = "Block_Sleeping \<lparr>sleeper_timer = Some 300\<rparr>"
  have run: "poll_until (RetryExt_timeout first_wins toy_timer (retry_fut toy_timer (take_next FixedDelay_next)
        (recorded_op failing_op) (\<lambda>_. True))) [0, 60, 100, 200, 305]
      ((At_Start (10, FixedDelay_new (Duration 0 100)), (), [], []), Block_Start (Duration 0 300)) =
    (Some (Inl TimeoutError), ((In_Sleep (6, FixedDelay_new (Duration 0 100)) True \<lparr>sleeper_timer = Some 405\<rparr>,
       (), [0, 100, 200, 305], [Inl True, Inl True, Inl True, Inl True]), Block_Done))"
    by (simp add: retry_poll_eval limit_eval)
  have "sorted [0 :: nat, 60, 100, 200, 305]" by simp
  from retry_attempts_within_timeout [OF toy_timer_contract first_wins_or _ this run]
  have "total_delay (take_next FixedDelay_next) (10, FixedDelay_new (Duration 0 100)) (Suc (Suc 0)) < 300"
    by (simp add: fixed_positive FixedDelay_new_def in_nanos_def)
  with run show ?thesis by simp
qed

end
