(* ===== verification/Tasks.thy ===== *)
theory Tasks
  imports Timeouts
begin

text \<open>
  \<open>src/src/task.rs\<close>: running and spawning futures, for the native target and for WebAssembly
  (\<open>cfg(target_arch = "wasm32")\<close>), with the WebAssembly half of \<open>src/src/timer.rs\<close>, the macro of
  \<open>src/src/test_util.rs\<close> and the subscriber of \<open>src/src/lib.rs\<close>. The executors are parameters:
  \<open>block_on\<close>, which drives a future and is \<open>None\<close> when it does not return, and the record \<open>executor_api\<close>
  of the calls that hand a task to an executor. The lemmas show that \<open>main\<close> never returns and never
  spins, what \<open>run\<close> waits for, and that a spawned task survives its handle.
\<close>

section \<open>The interface of the executors\<close>

datatype target = Native | Wasm32

text \<open>\<open>async_global_executor::block_on\<close>, for a future given by its poll function and its state.\<close>

type_synonym ('f, 'r) block_on = "('f, 'r) poll_fn \<Rightarrow> 'f \<Rightarrow> 'r option"

text \<open>
  \<open>async_global_executor::spawn\<close> gives a handle; \<open>Task::detach\<close> lets the task run on without it;
  \<open>wasm_bindgen_futures::spawn_local\<close> queues a future. \<open>'t\<close> is the type of boxed futures.
\<close>

record ('s, 't, 'h) executor_api =
  ex_spawn :: "'t \<Rightarrow> 's \<Rightarrow> 'h \<times> 's"
  ex_detach :: "'h \<Rightarrow> 's \<Rightarrow> 's"
  ex_drop :: "'h \<Rightarrow> 's \<Rightarrow> 's"
  ex_spawn_local :: "'t \<Rightarrow> 's \<Rightarrow> 's"

section \<open>run and main\<close>

definition run :: "('f, unit) block_on \<Rightarrow> ('f, unit) poll_fn \<Rightarrow> 'f \<Rightarrow> unit option" where
  "run block_on p f = block_on p f"

definition run_wasm :: "('s, 't, 'h) executor_api \<Rightarrow> 't \<Rightarrow> 's \<Rightarrow> 's" where
  "run_wasm ex fut s = ex_spawn_local ex fut s"

text \<open>
  The asynchronous block of \<open>main\<close>: first the closure's future, then sleeps of an hour without end.
  Within one poll the block goes on from a finished sleep to the next; \<open>sleep_loop\<close> is \<open>None\<close> when that
  never meets a sleep that is pending, and the state of a poll that does not return is \<open>Main_Spinning\<close>.
\<close>

datatype ('f, 'm) main_block = Main_Closure 'f | Main_Sleeping "'m Sleeper" | Main_Spinning

definition HOUR :: Duration where
  "HOUR = from_secs 3600"

partial_function (option) sleep_loop :: "'m timer_api \<Rightarrow> Instant \<Rightarrow> 'm Sleeper \<Rightarrow> 'm Sleeper option" where
  "sleep_loop tm now s =
     (case Sleeper_poll tm now s of
        (Pending, s') \<Rightarrow> Some s'
      | (Ready _, s') \<Rightarrow> sleep_loop tm now (sleep tm HOUR now))"

definition main_sleep :: "'m timer_api \<Rightarrow> Instant \<Rightarrow> 'm Sleeper \<Rightarrow> ('f, 'm) main_block" where
  "main_sleep tm now s = (case sleep_loop tm now s of
      None \<Rightarrow> Main_Spinning
    | Some s' \<Rightarrow> Main_Sleeping s')"

definition main_block_poll :: "'m timer_api \<Rightarrow> ('f, unit) poll_fn \<Rightarrow> (('f, 'm) main_block, unit) poll_fn" where
  "main_block_poll tm p now b = (case b of
      Main_Closure f \<Rightarrow> (case p now f of
          (Pending, f') \<Rightarrow> (Pending, Main_Closure f')
        | (Ready _, _) \<Rightarrow> (Pending, main_sleep tm now (sleep tm HOUR now)))
    | Main_Sleeping s \<Rightarrow> (Pending, main_sleep tm now s)
    | Main_Spinning \<Rightarrow> (Pending, Main_Spinning))"

definition task_main ::
  "(('f, 'm) main_block, unit) block_on \<Rightarrow> 'm timer_api \<Rightarrow> ('f, unit) poll_fn \<Rightarrow> 'f \<Rightarrow> unit option" where
  "task_main block_on tm p f = run block_on (main_block_poll tm p) (Main_Closure f)"

section \<open>spawn\<close>

definition task_spawn :: "('s, 't, 'h) executor_api \<Rightarrow> 't \<Rightarrow> 's \<Rightarrow> 's" where
  "task_spawn ex fut s = (case ex_spawn ex fut s of (h, s') \<Rightarrow> ex_detach ex h s')"

definition spawn_task :: "('s, 't, 'h) executor_api \<Rightarrow> 't \<Rightarrow> 's \<Rightarrow> 'h \<times> 's" where
  "spawn_task ex fut s = ex_spawn ex fut s"

text \<open>\<open>ignore\<close> is the block \<open>async move { let _ = future.await; }\<close> around a boxed future.\<close>

definition spawn_wasm :: "('s, 't, 'h) executor_api \<Rightarrow> ('t \<Rightarrow> 't) \<Rightarrow> 't \<Rightarrow> 's \<Rightarrow> 's" where
  "spawn_wasm ex ignore fut s = ex_spawn_local ex (ignore fut) s"

definition run_block_on :: "('f, 'r) block_on \<Rightarrow> ('f, 'r) block_on" where
  "run_block_on block_on = block_on"

definition run_block_on_wasm :: "('s, 't, 'h) executor_api \<Rightarrow> ('t \<Rightarrow> 't) \<Rightarrow> 't \<Rightarrow> 's \<Rightarrow> 's" where
  "run_block_on_wasm ex ignore f s = ex_spawn_local ex (ignore f) s"

section \<open>Timers on WebAssembly\<close>

text \<open>The timer package of that target; its future yields a result. \<open>None\<close> is a panic of \<open>unwrap\<close>.\<close>

record 'd delay_api =
  dl_new :: "Duration \<Rightarrow> Instant \<Rightarrow> 'd"
  dl_poll :: "('d, (unit, io_error) result) poll_fn"

definition sleep_wasm :: "'d delay_api \<Rightarrow> Duration \<Rightarrow> Instant \<Rightarrow> 'd" where
  "sleep_wasm dl d now = dl_new dl d now"

text \<open>One poll of \<open>sleep(..).await.unwrap()\<close>: pending with the delay, finished, or a panic.\<close>

definition sleep_unwrap_wasm :: "'d delay_api \<Rightarrow> Instant \<Rightarrow> 'd \<Rightarrow> (unit poll \<times> 'd) exec" where
  "sleep_unwrap_wasm dl now d = (case dl_poll dl now d of
      (Pending, d') \<Rightarrow> Returned (Pending, d')
    | (Ready (Inr _), d') \<Rightarrow> Returned (Ready (), d')
    | (Ready (Inl _), d') \<Rightarrow> Panicked)"

text \<open>
  The block of \<open>main\<close> on this target: the same loop, with the result of each sleep unwrapped. A poll
  panics, or leaves the block in its next state; \<open>None\<close> is again a poll that does not return.
\<close>

datatype ('f, 'd) main_block_wasm = Wasm_Closure 'f | Wasm_Sleeping 'd

partial_function (option) sleep_loop_wasm :: "'d delay_api \<Rightarrow> Instant \<Rightarrow> 'd \<Rightarrow> 'd exec option" where
  "sleep_loop_wasm dl now d =
     (case sleep_unwrap_wasm dl now d of
        Panicked \<Rightarrow> Some Panicked
      | Returned (Pending, d') \<Rightarrow> Some (Returned d')
      | Returned (Ready _, d') \<Rightarrow> sleep_loop_wasm dl now (sleep_wasm dl HOUR now))"

definition main_wasm_poll ::
  "'d delay_api \<Rightarrow> ('f, unit) poll_fn \<Rightarrow> Instant \<Rightarrow> ('f, 'd) main_block_wasm \<Rightarrow>
   ('f, 'd) main_block_wasm exec option" where
  "main_wasm_poll dl p now b = (case b of
      Wasm_Closure f \<Rightarrow> (case p now f of
          (Pending, f') \<Rightarrow> Some (Returned (Wasm_Closure f'))
        | (Ready _, _) \<Rightarrow>
            map_option (map_exec Wasm_Sleeping) (sleep_loop_wasm dl now (sleep_wasm dl HOUR now)))
    | Wasm_Sleeping d \<Rightarrow> map_option (map_exec Wasm_Sleeping) (sleep_loop_wasm dl now d))"

section \<open>The test macro and the subscriber\<close>

text \<open>\<open>assert_async_block!\<close>: a result \<open>Err\<close> fails the assertion; \<open>None\<close> when the future never ends.\<close>

definition assert_async_block ::
  "('f, ('a, 'e) result) block_on \<Rightarrow> ('f, ('a, 'e) result) poll_fn \<Rightarrow> 'f \<Rightarrow> unit exec option" where
  "assert_async_block block_on p ft = (case run_block_on block_on p ft of
      None \<Rightarrow> None
    | Some (Inr _) \<Rightarrow> Some (Returned ())
    | Some (Inl _) \<Rightarrow> Some Panicked)"

datatype Level = TRACE | DEBUG | INFO | WARN | ERROR

text \<open>
  \<open>try_init\<close> is the installation of a subscriber with a maximal level (and the environment's filter,
  writing to the standard error stream), which fails when there is one already.
\<close>

definition init_tracer :: "(Level \<Rightarrow> 's \<Rightarrow> (unit, 'e) result \<times> 's) \<Rightarrow> Level option \<Rightarrow> 's \<Rightarrow> 's" where
  "init_tracer try_init level s = snd (try_init (case level of None \<Rightarrow> DEBUG | Some l \<Rightarrow> l) s)"

definition init_logger :: "(Level \<Rightarrow> 's \<Rightarrow> (unit, 'e) result \<times> 's) \<Rightarrow> 's \<Rightarrow> 's" where
  "init_logger try_init s = init_tracer try_init None s"

section \<open>Contracts\<close>

text \<open>
  A call of \<open>block_on\<close> that returns has polled the future, at some instants, until it was ready; a
  future that is ready when it is first polled is enough for it to return.
\<close>

definition block_on_contract :: "('f, 'r) block_on \<Rightarrow> bool" where
  "block_on_contract block_on \<longleftrightarrow>
     (\<forall>p f r. block_on p f = Some r \<longrightarrow> (\<exists>ts. poll_at p ts f = Some r)) \<and>
     (\<forall>p f r. (\<forall>t. fst (p t f) = Ready r) \<longrightarrow> block_on p f = Some r)"

text \<open>The tasks that an executor will still poll: dropping the handle of a task cancels it.\<close>

definition executor_contract :: "('s \<Rightarrow> 't list) \<Rightarrow> ('s, 't, 'h) executor_api \<Rightarrow> bool" where
  "executor_contract running ex \<longleftrightarrow>
     (\<forall>fut s. let (h, s') = ex_spawn ex fut s in
        running s' = running s @ [fut] \<and> running (ex_detach ex h s') = running s @ [fut] \<and>
        running (ex_drop ex h s') = running s) \<and>
     (\<forall>fut s. running (ex_spawn_local ex fut s) = running s @ [fut])"

definition install_contract :: "('s \<Rightarrow> Level option) \<Rightarrow> (Level \<Rightarrow> 's \<Rightarrow> (unit, 'e) result \<times> 's) \<Rightarrow> bool" where
  "install_contract installed try_init \<longleftrightarrow>
     (\<forall>l s. installed (snd (try_init l s)) = (case installed s of None \<Rightarrow> Some l | Some l' \<Rightarrow> Some l'))"

text \<open>The state that polls at the given instants leave.\<close>

fun poll_state :: "('f, 'r) poll_fn \<Rightarrow> Instant list \<Rightarrow> 'f \<Rightarrow> 'f" where
  "poll_state p [] f = f"
| "poll_state p (t # ts) f = poll_state p ts (snd (p t f))"

text \<open>For the witnesses: an executor that polls three times.\<close>

definition toy_block_on :: "('f, 'r) block_on" where
  "toy_block_on p f = poll_at p [0, 1, 2] f"

definition toy_executor :: "('t list, 't, nat) executor_api" where
  "toy_executor = \<lparr>ex_spawn = (\<lambda>t s. (length s, s @ [t])), ex_detach = (\<lambda>h s. s),
     ex_drop = (\<lambda>h s. take h s @ drop (Suc h) s), ex_spawn_local = (\<lambda>t s. s @ [t])\<rparr>"

section \<open>Lemmas\<close>

lemma in_nanos_HOUR: "in_nanos HOUR = 3600 * NANOS_PER_SEC"
  by (simp add: HOUR_def from_secs_def in_nanos_def)

text \<open>A poll of the sleeping loop returns: a sleep of an hour made now is not over.\<close>

lemma sleep_loop_pending:
  assumes "timer_contract deadline tm" and "deadline (sleeper_timer s) = Some u" and "now < u"
  shows "\<exists>s'. sleep_loop tm now s = Some s' \<and> deadline (sleeper_timer s') = Some u"
proof -
  have "\<not> due (deadline (sleeper_timer s)) now" using assms(2,3) by (simp add: due_def)
  with sleeper_ready [OF assms(1), of now s] assms(2) show ?thesis
    by (cases "Sleeper_poll tm now s") (simp add: sleep_loop.simps)
qed

lemma sleep_loop_returns:
  assumes "timer_contract deadline tm" and "deadline (sleeper_timer s) = Some u"
  shows "\<exists>s' v. sleep_loop tm now s = Some s' \<and> deadline (sleeper_timer s') = Some v \<and> now < v \<and>
     (now < u \<longrightarrow> v = u) \<and> (u \<le> now \<longrightarrow> v = now + 3600 * NANOS_PER_SEC)"
proof (cases "now < u")
  case True
  then show ?thesis using sleep_loop_pending [OF assms True] by auto
next
  case False
  then have "fst (Sleeper_poll tm now s) = Ready ()"
    using sleeper_ready [OF assms(1), of now s] assms(2) by (simp add: due_def)
  then have again: "sleep_loop tm now s = sleep_loop tm now (sleep tm HOUR now)"
    by (cases "Sleeper_poll tm now s") (simp add: sleep_loop.simps [of tm now s])
  have "now < now + 3600 * NANOS_PER_SEC" by (simp add: NANOS_PER_SEC_def)
  from sleep_loop_pending [OF assms(1) _ this, of "sleep tm HOUR now"] False again show ?thesis
    by (auto simp: sleep_deadline [OF assms(1)] in_nanos_HOUR NANOS_PER_SEC_def)
qed

text \<open>The states of the block between two polls, the last of them at \<open>t\<close>.\<close>

definition main_rests :: "('m \<Rightarrow> nat option) \<Rightarrow> Instant \<Rightarrow> ('f, 'm) main_block \<Rightarrow> bool" where
  "main_rests deadline t b = (case b of
      Main_Closure f \<Rightarrow> True
    | Main_Sleeping s \<Rightarrow> (case deadline (sleeper_timer s) of None \<Rightarrow> False | Some u \<Rightarrow> t < u)
    | Main_Spinning \<Rightarrow> False)"

lemma main_sleep_rests:
  assumes "timer_contract deadline tm" and "deadline (sleeper_timer s) = Some u"
  shows "main_rests deadline now (main_sleep tm now s)"
  using sleep_loop_returns [OF assms, of now] by (auto simp: main_sleep_def main_rests_def)

lemma main_block_poll_rests:
  assumes "timer_contract deadline tm" and "main_rests deadline t b"
  shows "fst (main_block_poll tm p now b) = Pending \<and>
     main_rests deadline now (snd (main_block_poll tm p now b))"
proof (cases b)
  case (Main_Closure f)
  have "main_rests deadline now (main_sleep tm now (sleep tm HOUR now))"
    by (rule main_sleep_rests [OF assms(1) sleep_deadline [OF assms(1)]])
  with Main_Closure show ?thesis
    by (cases "p now f") (auto simp: main_block_poll_def main_rests_def split: poll.split)
next
  case (Main_Sleeping s)
  with assms(2) obtain u where "deadline (sleeper_timer s) = Some u"
    by (auto simp: main_rests_def split: option.splits)
  with main_sleep_rests [OF assms(1) this, of now] Main_Sleeping show ?thesis
    by (simp add: main_block_poll_def)
qed (use assms(2) in \<open>simp add: main_rests_def\<close>)

lemma main_block_polls:
  assumes "timer_contract deadline tm" and "main_rests deadline t b"
  shows "poll_at (main_block_poll tm p) ts b = None"
    and "main_rests deadline (last (t # ts)) (poll_state (main_block_poll tm p) ts b)"
  using assms(2)
proof (induction ts arbitrary: t b)
  case (Cons now ts)
  { case 1
    then show ?case using main_block_poll_rests [OF assms(1) 1, of p now] Cons(1)
      by (cases "main_block_poll tm p now b") auto }
  { case 2
    then show ?case using main_block_poll_rests [OF assms(1) 2, of p now] Cons(2) by fastforce }
qed auto

text \<open>On WebAssembly a delay that fails makes the poll of \<open>main\<close> panic.\<close>

lemma main_wasm_panics:
  assumes "dl_poll dl now d = (Ready (Inl e), d')"
  shows "main_wasm_poll dl p now (Wasm_Sleeping d) = Some Panicked"
  using assms
  by (simp add: main_wasm_poll_def sleep_unwrap_wasm_def sleep_loop_wasm.simps [of dl now d])

text \<open>\<open>run\<close> waits for the future, although its comment says that it returns immediately.\<close>

lemma run_waits:
  assumes "block_on_contract block_on" and "run block_on p f = Some ()"
  shows "\<exists>ts. poll_at p ts f = Some ()"
  using assms by (simp add: block_on_contract_def run_def)

lemma spawned_task_runs:
  assumes "executor_contract running ex"
  shows "running (task_spawn ex fut s) = running s @ [fut]"
    and "spawn_task ex fut s = (h, s') \<Longrightarrow> running (ex_drop ex h s') = running s"
  using assms by (auto simp: executor_contract_def task_spawn_def spawn_task_def split: prod.splits)

lemma toy_executor_contract: "executor_contract (\<lambda>s. s) toy_executor"
  by (simp add: executor_contract_def toy_executor_def)

lemma init_logger_keeps:
  assumes "install_contract installed try_init"
  shows "installed (init_logger try_init (init_tracer try_init (Some l) s)) = installed (init_tracer try_init (Some l) s)"
    and "installed (init_logger try_init s) \<noteq> None"
  using assms by (auto simp: install_contract_def init_logger_def init_tracer_def split: option.splits)

lemma toy_block_on_contract: "block_on_contract toy_block_on"
  unfolding block_on_contract_def toy_block_on_def
proof (intro conjI allI impI)
  fix p :: "('f, 'r) poll_fn" and f r
  assume "\<forall>t. fst (p t f) = Ready r"
  then have "fst (p 0 f) = Ready r" by blast
  then show "poll_at p [0, 1, 2] f = Some r" by (cases "p 0 f") simp
qed blast

section \<open>Properties\<close>

text \<open>
  C25. \<open>task::main\<close> never returns, whatever the future it is given and the instants at which the
  executor polls: after the future the block sleeps an hour at a time. It does not spin either:
  each of its polls returns, and leaves the future unfinished or a sleep whose deadline lies after
  the poll.
\<close>

theorem task_main_never_returns:
  assumes "block_on_contract block_on" and "timer_contract deadline tm"
  shows "task_main block_on tm p f = None \<and>
     main_rests deadline t (poll_state (main_block_poll tm p) (ts @ [t]) (Main_Closure f))"
proof -
  have start: "main_rests deadline 0 (Main_Closure f)" by (simp add: main_rests_def)
  have "task_main block_on tm p f = None"
  proof (rule ccontr)
    assume "task_main block_on tm p f \<noteq> None"
    then have "run block_on (main_block_poll tm p) (Main_Closure f) = Some ()" by (simp add: task_main_def)
    from run_waits [OF assms(1) this] show False
      using main_block_polls(1) [OF assms(2) start] by simp
  qed
  with main_block_polls(2) [OF assms(2) start, of "ts @ [t]" p] show ?thesis by simp
qed

theorem task_main_never_returns_witness:
  "task_main toy_block_on toy_timer (ready_at 1 ()) () = None \<and>
   poll_state (main_block_poll toy_timer (ready_at 1 ())) [0, 5] (Main_Closure ())
     = Main_Sleeping \<lparr>sleeper_timer = Some 3600000000005\<rparr>"
proof -
  have "main_rests (\<lambda>m. m) 5 (poll_state (main_block_poll toy_timer (ready_at 1 ())) ([0] @ [5]) (Main_Closure ()))"
    "task_main toy_block_on toy_timer (ready_at 1 ()) () = None"
    using task_main_never_returns [OF toy_block_on_contract toy_timer_contract, of "ready_at 1 ()" "()" 5 "[0]"]
    by simp_all
  moreover have "sleep_loop toy_timer 5 \<lparr>sleeper_timer = Some 3600000000005\<rparr>
      = Some \<lparr>sleeper_timer = Some 3600000000005\<rparr>"
    by (subst sleep_loop.simps) (simp add: Sleeper_poll_def toy_timer_def due_def)
  ultimately show ?thesis
    by (simp add: main_block_poll_def ready_at_def main_sleep_def sleep_def after_def
        in_nanos_HOUR NANOS_PER_SEC_def) (simp add: toy_timer_def in_nanos_HOUR NANOS_PER_SEC_def)
qed

end
