(* ===== verification/Macros.thy ===== *)
theory Macros
  imports Tasks
begin

text \<open>
  \<open>src/fluvio-future-derive/src/lib.rs\<close>: the attribute macros \<open>main_async\<close>, \<open>test_async\<close> and \<open>test\<close>. A
  token stream is a list of token trees; parsing and printing of the package \<open>syn\<close> are the record
  \<open>syn_api\<close>, and each macro writes its quotation token by token. What the generated code does is found
  from these tokens alone: \<open>read_program\<close> and \<open>read_stmts\<close> read them back, with the compiler's reader of
  function items as a parameter, and \<open>eval_stmts\<close> runs what was read, given what the annotated function
  does. The lemmas are about the errors the macros report and about the outcome of the functions they
  generate.
\<close>

section \<open>Token streams and the interface of the parser\<close>

datatype delimiter = Parenthesis | Brace | Bracket

datatype token_tree = Ident string | Punct string | Lit string | Group delimiter "token_tree list"

type_synonym tokens = "token_tree list"

abbreviation weight :: "tokens \<Rightarrow> nat" where
  "weight \<equiv> size_list size"

text \<open>
  The parts of a parsed function that the macros use; \<open>fn_qualifiers\<close> and \<open>fn_generics\<close> are the parts of
  the signature that only the printing of a whole function shows. \<open>fn_block\<close> is what stands between the
  braces.
\<close>

record ItemFn =
  fn_attrs :: "tokens list"
  fn_vis :: tokens
  fn_asyncness :: bool
  fn_qualifiers :: tokens
  fn_ident :: string
  fn_generics :: tokens
  fn_inputs :: tokens
  fn_output :: tokens
  fn_block :: tokens

text \<open>A parse that fails gives the tokens of its error message.\<close>

record syn_api =
  sy_parse_fn :: "tokens \<Rightarrow> (ItemFn, tokens) result"
  sy_parse_metas :: "tokens \<Rightarrow> (tokens list, tokens) result"
  sy_fn_tokens :: "ItemFn \<Rightarrow> tokens"

section \<open>main_async\<close>

abbreviation path_tokens :: "string \<Rightarrow> string \<Rightarrow> tokens" where
  "path_tokens module_name fn_name \<equiv>
     [Punct ''::'', Ident ''fluvio_future'', Punct ''::'', Ident module_name, Punct ''::'', Ident fn_name]"

abbreviation init_logger_tokens :: tokens where
  "init_logger_tokens \<equiv> path_tokens ''subscriber'' ''init_logger'' @ [Group Parenthesis [], Punct '';'']"

abbreviation call_await_tokens :: "string \<Rightarrow> tokens" where
  "call_await_tokens name \<equiv> [Ident name, Group Parenthesis [], Punct ''.'', Ident ''await'']"

definition compile_error_tokens :: "string \<Rightarrow> tokens" where
  "compile_error_tokens msg = [Ident ''compile_error'', Punct ''!'', Group Parenthesis [Lit msg], Punct '','']"

text \<open>The function nested in the new \<open>main\<close>; qualifiers and generics of the original are not kept.\<close>

definition main_nested_tokens :: "ItemFn \<Rightarrow> tokens" where
  "main_nested_tokens input = concat (fn_attrs input) @
     [Ident ''async'', Ident ''fn'', Ident ''main'', Group Parenthesis (fn_inputs input)] @ fn_output input @
     [Group Brace [Group Brace (fn_block input)]]"

definition main_async :: "syn_api \<Rightarrow> tokens \<Rightarrow> tokens \<Rightarrow> tokens" where
  "main_async sy attr item = (case sy_parse_fn sy item of
      Inl err \<Rightarrow> err
    | Inr input \<Rightarrow>
        if fn_ident input \<noteq> ''main'' then
          compile_error_tokens ''only the main function can be tagged with #[fluvio_future::main_async]''
        else if \<not> fn_asyncness input then
          compile_error_tokens ''the async keyword is missing from the function declaration''
        else
          fn_vis input @ [Ident ''fn'', Ident ''main'', Group Parenthesis []] @ fn_output input @
          [Group Brace (
             init_logger_tokens @
             main_nested_tokens input @
             path_tokens ''task'' ''run_block_on'' @
             [Group Parenthesis [Ident ''async'', Group Brace (call_await_tokens ''main'')]])])"

section \<open>The test attributes\<close>

definition generate_test_attributes :: "tokens list \<Rightarrow> tokens" where
  "generate_test_attributes metas = concat (map (\<lambda>meta. [Punct ''#'', Group Bracket meta]) metas)"

definition test_async :: "syn_api \<Rightarrow> tokens \<Rightarrow> tokens \<Rightarrow> tokens" where
  "test_async sy args item = (case sy_parse_metas sy args of
      Inl err \<Rightarrow> err
    | Inr metas \<Rightarrow> (case sy_parse_fn sy item of
        Inl err \<Rightarrow> err
      | Inr input \<Rightarrow>
          [Punct ''#'', Group Bracket [Ident ''test'']] @ generate_test_attributes metas @
          [Ident ''fn'', Ident (fn_ident input @ ''_sync''), Group Parenthesis [],
           Group Brace (
             init_logger_tokens @
             sy_fn_tokens sy input @
             [Ident ''let'', Ident ''ft'', Punct ''='', Ident ''async'',
              Group Brace (call_await_tokens (fn_ident input)), Punct '';''] @
             [Punct ''#'', Group Bracket [Ident ''cfg'', Group Parenthesis [Ident ''not'', Group Parenthesis
                [Ident ''target_arch'', Punct ''='', Lit ''wasm32'']]],
              Ident ''if'', Ident ''let'', Ident ''Err'', Group Parenthesis [Ident ''err''], Punct ''=''] @
             path_tokens ''task'' ''run_block_on'' @ [Group Parenthesis [Ident ''ft''],
              Group Brace [Ident ''assert'', Punct ''!'', Group Parenthesis
                [Ident ''false'', Punct '','', Lit ''error: {:?}'', Punct '','', Ident ''err''], Punct '';'']])]))"

definition test_attr :: "syn_api \<Rightarrow> tokens \<Rightarrow> tokens \<Rightarrow> tokens" where
  "test_attr sy args item = (case sy_parse_metas sy args of
      Inl err \<Rightarrow> err
    | Inr metas \<Rightarrow> (case sy_parse_fn sy item of
        Inl err \<Rightarrow> err
      | Inr input \<Rightarrow>
          [Punct ''#'', Group Bracket [Ident ''test'']] @ generate_test_attributes metas @
          [Ident ''fn'', Ident (fn_ident input @ ''_sync''), Group Parenthesis [],
           Group Brace (
             init_logger_tokens @
             sy_fn_tokens sy input @
             [Ident ''let'', Ident ''ft'', Punct ''='', Ident ''async'',
              Group Brace (call_await_tokens (fn_ident input) @ [Punct '';'']), Punct '';''] @
             path_tokens ''task'' ''run_block_on'' @ [Group Parenthesis [Ident ''ft''], Punct '';''])]))"

section \<open>Reading generated code\<close>

text \<open>
  A part of the grammar of Rust: absolute paths, variables, calls with at most one argument, \<open>.await\<close> and
  \<open>async\<close> blocks as expressions; items, \<open>let\<close>, expressions with and without a semicolon, \<open>if let\<close> on a
  constructor with an attribute or without, and macro calls as statements.
\<close>

datatype expr =
    E_Var string
  | E_Path "string list"
  | E_Call expr "expr option"
  | E_Await expr
  | E_Async "stmt list"
and stmt =
    S_Item ItemFn
  | S_Let string expr
  | S_Semi expr
  | S_Tail expr
  | S_If_Let "tokens option" string expr "stmt list"
  | S_Macro string tokens

text \<open>
  The compiler's reader of function items: the function at the start of the tokens and what follows
  it, or \<open>None\<close> when they do not start with a function.
\<close>

type_synonym front_end = "tokens \<Rightarrow> (ItemFn \<times> tokens) option"

fun read_path :: "string list \<Rightarrow> tokens \<Rightarrow> string list \<times> tokens" where
  "read_path p (Punct c # Ident x # ts) =
     (if c = ''::'' then read_path (p @ [x]) ts else (p, Punct c # Ident x # ts))"
| "read_path p ts = (p, ts)"

lemma read_path_weight: "read_path p ts = (q, rest) \<Longrightarrow> weight rest \<le> weight ts"
  by (induction p ts rule: read_path.induct) (auto split: if_splits)

lemma read_path_shorter:
  assumes "read_path [] (Punct c # ts) = (x # xs, rest)"
  shows "weight rest < Suc (weight ts)"
proof (cases ts)
  case (Cons t us)
  with assms show ?thesis by (cases t) (auto split: if_splits dest!: read_path_weight)
qed (use assms in simp)

function (sequential)
  read_expr :: "front_end \<Rightarrow> tokens \<Rightarrow> (expr \<times> tokens) option" and
  read_postfix :: "front_end \<Rightarrow> expr \<Rightarrow> tokens \<Rightarrow> (expr \<times> tokens) option" and
  read_stmts :: "front_end \<Rightarrow> tokens \<Rightarrow> stmt list option" and
  read_if :: "front_end \<Rightarrow> tokens option \<Rightarrow> tokens \<Rightarrow> stmt list option"
where
  "read_expr fe (Ident x # ts) =
     (if x = ''async'' then (case ts of
         Group Brace b # rest \<Rightarrow> (case read_stmts fe b of
            None \<Rightarrow> None
          | Some ss \<Rightarrow> read_postfix fe (E_Async ss) rest)
       | _ \<Rightarrow> None)
      else read_postfix fe (E_Var x) ts)"
| "read_expr fe (Punct c # ts) =
     (case read_path [] (Punct c # ts) of
        ([], _) \<Rightarrow> None
      | (p, rest) \<Rightarrow> read_postfix fe (E_Path p) rest)"
| "read_expr fe ts = None"
| "read_postfix fe e (Group Parenthesis [] # ts) = read_postfix fe (E_Call e None) ts"
| "read_postfix fe e (Group Parenthesis (a # as) # ts) = (case read_expr fe (a # as) of
      Some (arg, []) \<Rightarrow> read_postfix fe (E_Call e (Some arg)) ts
    | _ \<Rightarrow> None)"
| "read_postfix fe e (Punct c # Ident x # ts) =
     (if c = ''.'' \<and> x = ''await'' then read_postfix fe (E_Await e) ts else Some (e, Punct c # Ident x # ts))"
| "read_postfix fe e ts = Some (e, ts)"
| "read_stmts fe [] = Some []"
| "read_stmts fe (t # ts) = (case fe (t # ts) of
      Some (f, rest) \<Rightarrow>
        if weight rest < weight (t # ts) then map_option ((#) (S_Item f)) (read_stmts fe rest) else None
    | None \<Rightarrow>
        if t = Ident ''let'' then (case ts of
            Ident x # Punct p # rest \<Rightarrow> if p \<noteq> ''='' then None else (case read_expr fe rest of
                Some (e, Punct q # rest') \<Rightarrow>
                  if q = '';'' \<and> weight rest' < weight (t # ts)
                  then map_option ((#) (S_Let x e)) (read_stmts fe rest') else None
              | _ \<Rightarrow> None)
          | _ \<Rightarrow> None)
        else if t = Ident ''if'' then read_if fe None ts
        else if t = Punct ''#'' then (case ts of
            Group Bracket a # Ident i # rest \<Rightarrow> if i = ''if'' then read_if fe (Some a) rest else None
          | _ \<Rightarrow> None)
        else (case (t, ts) of
            (Ident m, Punct b # Group Parenthesis a # Punct q # rest) \<Rightarrow>
              if b = ''!'' \<and> q = '';'' then map_option ((#) (S_Macro m a)) (read_stmts fe rest) else None
          | _ \<Rightarrow> (case read_expr fe (t # ts) of
                Some (e, []) \<Rightarrow> Some [S_Tail e]
              | Some (e, Punct q # rest) \<Rightarrow>
                  if q = '';'' \<and> weight rest < weight (t # ts)
                  then map_option ((#) (S_Semi e)) (read_stmts fe rest) else None
              | _ \<Rightarrow> None)))"
| "read_if fe attr (Ident l # Ident c # Group Parenthesis [Ident x] # Punct p # ts) =
     (if l \<noteq> ''let'' \<or> p \<noteq> ''='' then None else (case read_expr fe ts of
        Some (e, Group Brace b # rest) \<Rightarrow>
          if weight b < weight ts \<and> weight rest < weight ts then
            (case (read_stmts fe b, read_stmts fe rest) of
               (Some body, Some ss) \<Rightarrow> Some (S_If_Let attr c e body # ss)
             | _ \<Rightarrow> None)
          else None
      | _ \<Rightarrow> None))"
| "read_if fe attr ts = None"
  by pat_completeness auto
termination
  by (relation "measure (\<lambda>x. case x of
      Inl (Inl (fe, ts)) \<Rightarrow> 2 * weight ts
    | Inl (Inr (fe, e, ts)) \<Rightarrow> 2 * weight ts
    | Inr (Inl (fe, ts)) \<Rightarrow> 2 * weight ts + 1
    | Inr (Inr (fe, a, ts)) \<Rightarrow> 2 * weight ts)") 
   (auto dest: read_path_shorter [OF sym])

text \<open>What a macro's output is for the compiler: one function, or an error that it reports.\<close>

datatype program = Program ItemFn | Rejected string | Unreadable

definition read_program :: "front_end \<Rightarrow> tokens \<Rightarrow> program" where
  "read_program fe ts = (case fe ts of
      Some (f, []) \<Rightarrow> Program f
    | Some _ \<Rightarrow> Unreadable
    | None \<Rightarrow> (case ts of
        Ident m # Punct b # Group Parenthesis [Lit msg] # _ \<Rightarrow>
          if m = ''compile_error'' \<and> b = ''!'' then Rejected msg else Unreadable
      | _ \<Rightarrow> Unreadable))"

section \<open>What is relied on of the parsers\<close>

text \<open>The parts that a function read by \<open>syn\<close> has, and the two attributes that the macros write.\<close>

definition parsed :: "syn_api \<Rightarrow> ItemFn \<Rightarrow> bool" where
  "parsed sy f \<longleftrightarrow> (\<exists>ts. sy_parse_fn sy ts = Inr f)"

definition attr_part :: "syn_api \<Rightarrow> tokens \<Rightarrow> bool" where
  "attr_part sy a \<longleftrightarrow> a = [Punct ''#'', Group Bracket [Ident ''test'']] \<or>
     (\<exists>ts metas m. sy_parse_metas sy ts = Inr metas \<and> m \<in> set metas \<and> a = [Punct ''#'', Group Bracket m]) \<or>
     (\<exists>f. parsed sy f \<and> a \<in> set (fn_attrs f))"

definition name_part :: "syn_api \<Rightarrow> string \<Rightarrow> bool" where
  "name_part sy n \<longleftrightarrow> n = ''main'' \<or> (\<exists>f. parsed sy f \<and> (n = fn_ident f \<or> n = fn_ident f @ ''_sync''))"

text \<open>Tokens with which no function begins.\<close>

fun no_function :: "tokens \<Rightarrow> bool" where
  "no_function (Punct c # Group Bracket a # Ident i # ts) = (c = ''#'' \<and> i = ''if'')"
| "no_function (Punct c # ts) = (c = ''::'')"
| "no_function (Ident x # Group Parenthesis [] # ts) = True"
| "no_function (Ident x # Punct c # ts) = (c = ''!'')"
| "no_function (Ident x # ts) = (x = ''let'')"
| "no_function ts = False"

text \<open>
  The compiler reads a function that \<open>syn\<close> prints as the function it was parsed from, and parts of
  parsed functions that stand in the order of the grammar as the function with these parts; it reads at
  least one token, and nothing where no function begins. The name of a function is not a keyword.
\<close>

definition front_end_contract :: "front_end \<Rightarrow> syn_api \<Rightarrow> bool" where
  "front_end_contract fe sy \<longleftrightarrow>
     (\<forall>f rest. parsed sy f \<longrightarrow> fe (sy_fn_tokens sy f @ rest) = Some (f, rest)) \<and>
     (\<forall>attrs vis asyncness name inputs output body rest.
        (\<forall>a \<in> set attrs. attr_part sy a) \<and> (vis = [] \<or> (\<exists>f. parsed sy f \<and> vis = fn_vis f)) \<and>
        name_part sy name \<and> (inputs = [] \<or> (\<exists>f. parsed sy f \<and> inputs = fn_inputs f)) \<and>
        (output = [] \<or> (\<exists>f. parsed sy f \<and> output = fn_output f)) \<longrightarrow>
        fe (concat attrs @ vis @ (if asyncness then [Ident ''async''] else []) @
            [Ident ''fn'', Ident name, Group Parenthesis inputs] @ output @ [Group Brace body] @ rest) =
          Some (\<lparr>fn_attrs = attrs, fn_vis = vis, fn_asyncness = asyncness, fn_qualifiers = [], fn_ident = name,
            fn_generics = [], fn_inputs = inputs, fn_output = output, fn_block = body\<rparr>, rest)) \<and>
     (\<forall>ts. no_function ts \<longrightarrow> fe ts = None) \<and>
     (\<forall>f. parsed sy f \<longrightarrow> fn_ident f \<notin> {''async'', ''let'', ''if''}) \<and>
     (\<forall>ts f rest. fe ts = Some (f, rest) \<longrightarrow> weight rest < weight ts)"

section \<open>Running generated code\<close>

text \<open>
  The behaviour of the annotated functions is a parameter: \<open>body f s\<close> is what the future of \<open>f()\<close> comes
  to. A value is unit, a result, or a future; a future changes the state when it is run. \<open>None\<close> is code
  that the compiler does not accept: a call of a name that is not in scope, with missing arguments, an
  \<open>await\<close> without a future, or an error pattern for the unit value.
\<close>

datatype 'v outcome = Diverges | Panics | Finished 'v

datatype ('a, 'e) ret = Ret_Unit | Ret_Result "('a, 'e) result"

datatype ('a, 'e, 's) val =
    V_Ret "('a, 'e) ret"
  | V_Future "'s \<Rightarrow> (('a, 'e, 's) val outcome \<times> 's) option"

type_synonym ('a, 'e, 's) fut = "'s \<Rightarrow> (('a, 'e, 's) val outcome \<times> 's) option"

type_synonym ('a, 'e, 's) eval_result = "(('a, 'e, 's) val outcome \<times> 's \<times> ('a, 'e, 's) fut list) option"

abbreviation V_Unit :: "('a, 'e, 's) val" where
  "V_Unit \<equiv> V_Ret Ret_Unit"

fun outcome_map :: "('v \<Rightarrow> 'w) \<Rightarrow> 'v outcome \<times> 's \<Rightarrow> 'w outcome \<times> 's" where
  "outcome_map g (Finished v, s) = (Finished (g v), s)"
| "outcome_map g (Panics, s) = (Panics, s)"
| "outcome_map g (Diverges, s) = (Diverges, s)"

text \<open>The next step after an expression, with its value.\<close>

definition run_bind ::
  "('a, 'e, 's) eval_result \<Rightarrow>
   (('a, 'e, 's) val \<Rightarrow> 's \<times> ('a, 'e, 's) fut list \<Rightarrow> ('a, 'e, 's) eval_result) \<Rightarrow> ('a, 'e, 's) eval_result" where
  "run_bind m k = (case m of
      None \<Rightarrow> None
    | Some (Finished v, st) \<Rightarrow> k v st
    | Some (Panics, st) \<Rightarrow> Some (Panics, st)
    | Some (Diverges, st) \<Rightarrow> Some (Diverges, st))"

definition run_future :: "('a, 'e, 's) fut \<Rightarrow> 's \<times> ('a, 'e, 's) fut list \<Rightarrow> ('a, 'e, 's) eval_result" where
  "run_future g st = map_option (\<lambda>(r, s). (r, s, snd st)) (g (fst st))"

text \<open>
  \<open>run_block_on\<close>: on the native target the future is run to its end and gives its value; on
  WebAssembly it is queued, wrapped so that its value is dropped.
\<close>

definition run_block_on_call ::
  "target \<Rightarrow> ('a, 'e, 's) val \<Rightarrow> 's \<times> ('a, 'e, 's) fut list \<Rightarrow> ('a, 'e, 's) eval_result" where
  "run_block_on_call tgt v st = (case v of
      V_Ret _ \<Rightarrow> None
    | V_Future g \<Rightarrow> (case tgt of
        Native \<Rightarrow> run_future g st
      | Wasm32 \<Rightarrow>
          Some (Finished V_Unit, fst st, snd st @ [\<lambda>s. map_option (outcome_map (\<lambda>_. V_Unit)) (g s)])))"

fun scope_of :: "stmt list \<Rightarrow> string \<Rightarrow> ItemFn option" where
  "scope_of [] name = None"
| "scope_of (S_Item f # ss) name = (if fn_ident f = name then Some f else scope_of ss name)"
| "scope_of (_ # ss) name = scope_of ss name"

text \<open>An attribute \<open>cfg\<close> with the predicates \<open>not\<close> and \<open>target_arch\<close>; \<open>None\<close> for other attributes.\<close>

fun cfg_holds :: "target \<Rightarrow> tokens \<Rightarrow> bool option" where
  "cfg_holds tgt [Ident k, Group Parenthesis p] = (if k = ''not'' then map_option Not (cfg_holds tgt p) else None)"
| "cfg_holds tgt [Ident k, Punct c, Lit v] =
     (if k = ''target_arch'' \<and> c = ''='' then Some (v = ''wasm32'' \<longleftrightarrow> tgt = Wasm32) else None)"
| "cfg_holds tgt ts = None"

fun attr_enabled :: "target \<Rightarrow> tokens option \<Rightarrow> bool option" where
  "attr_enabled tgt None = Some True"
| "attr_enabled tgt (Some [Ident k, Group Parenthesis p]) = (if k = ''cfg'' then cfg_holds tgt p else None)"
| "attr_enabled tgt (Some ts) = None"

text \<open>Whether a pattern with this constructor matches a value.\<close>

fun matches :: "string \<Rightarrow> ('a, 'e, 's) val \<Rightarrow> bool option" where
  "matches c (V_Ret (Ret_Result r)) = (if c = ''Err'' then Some (isl r)
     else if c = ''Ok'' then Some (\<not> isl r) else None)"
| "matches c v = None"

definition assert_holds :: "string \<Rightarrow> tokens \<Rightarrow> bool option" where
  "assert_holds m ts = (if m \<noteq> ''assert'' then None else case ts of
      Ident b # _ \<Rightarrow> if b = ''true'' then Some True else if b = ''false'' then Some False else None
    | _ \<Rightarrow> None)"

fun eval_expr ::
  "target \<Rightarrow> ('s \<Rightarrow> 's) \<Rightarrow> (ItemFn \<Rightarrow> 's \<Rightarrow> ('a, 'e) ret outcome \<times> 's) \<Rightarrow> bool \<Rightarrow> (string \<Rightarrow> ItemFn option) \<Rightarrow>
   (string \<Rightarrow> ('a, 'e, 's) val option) \<Rightarrow> expr \<Rightarrow> 's \<times> ('a, 'e, 's) fut list \<Rightarrow> ('a, 'e, 's) eval_result" and
  eval_stmts ::
  "target \<Rightarrow> ('s \<Rightarrow> 's) \<Rightarrow> (ItemFn \<Rightarrow> 's \<Rightarrow> ('a, 'e) ret outcome \<times> 's) \<Rightarrow> bool \<Rightarrow> (string \<Rightarrow> ItemFn option) \<Rightarrow>
   (string \<Rightarrow> ('a, 'e, 's) val option) \<Rightarrow> stmt list \<Rightarrow> 's \<times> ('a, 'e, 's) fut list \<Rightarrow> ('a, 'e, 's) eval_result" where
  "eval_expr tgt init body asy items locals (E_Var x) st =
     (case locals x of None \<Rightarrow> None | Some v \<Rightarrow> Some (Finished v, st))"
| "eval_expr tgt init body asy items locals (E_Path p) st = None"
| "eval_expr tgt init body asy items locals (E_Call (E_Var x) None) st = (case items x of
      None \<Rightarrow> None
    | Some f \<Rightarrow>
        if fn_asyncness f \<and> fn_inputs f = []
        then Some (Finished (V_Future (\<lambda>s. Some (outcome_map V_Ret (body f s)))), st) else None)"
| "eval_expr tgt init body asy items locals (E_Call (E_Path p) None) st =
     (if p = [''fluvio_future'', ''subscriber'', ''init_logger''] then Some (Finished V_Unit, init (fst st), snd st)
      else None)"
| "eval_expr tgt init body asy items locals (E_Call (E_Path p) (Some a)) st =
     (if p = [''fluvio_future'', ''task'', ''run_block_on'']
      then run_bind (eval_expr tgt init body asy items locals a st) (run_block_on_call tgt) else None)"
| "eval_expr tgt init body asy items locals (E_Call e a) st = None"
| "eval_expr tgt init body asy items locals (E_Await e) st =
     (if \<not> asy then None else run_bind (eval_expr tgt init body asy items locals e st) (\<lambda>v st'. case v of
        V_Future g \<Rightarrow> run_future g st'
      | V_Ret _ \<Rightarrow> None))"
| "eval_expr tgt init body asy items locals (E_Async ss) st =
     Some (Finished (V_Future (\<lambda>s.
       case eval_stmts tgt init body True (items ++ scope_of ss) locals ss (s, []) of
         Some (r, s', []) \<Rightarrow> Some (r, s')
       | _ \<Rightarrow> None)), st)"
| "eval_stmts tgt init body asy items locals [] st = Some (Finished V_Unit, st)"
| "eval_stmts tgt init body asy items locals (S_Item f # ss) st = eval_stmts tgt init body asy items locals ss st"
| "eval_stmts tgt init body asy items locals (S_Let x e # ss) st =
     run_bind (eval_expr tgt init body asy items locals e st) (\<lambda>v.
       eval_stmts tgt init body asy items (locals(x \<mapsto> v)) ss)"
| "eval_stmts tgt init body asy items locals (S_Semi e # ss) st =
     run_bind (eval_expr tgt init body asy items locals e st) (\<lambda>_.
       eval_stmts tgt init body asy items locals ss)"
| "eval_stmts tgt init body asy items locals (S_Tail e # ss) st =
     (if ss = [] then eval_expr tgt init body asy items locals e st else None)"
| "eval_stmts tgt init body asy items locals (S_If_Let attr c e bs # ss) st = (case attr_enabled tgt attr of
      None \<Rightarrow> None
    | Some False \<Rightarrow> eval_stmts tgt init body asy items locals ss st
    | Some True \<Rightarrow> run_bind (eval_expr tgt init body asy items locals e st) (\<lambda>v st'. case matches c v of
        None \<Rightarrow> None
      | Some False \<Rightarrow> eval_stmts tgt init body asy items locals ss st'
      | Some True \<Rightarrow> run_bind (eval_stmts tgt init body asy items locals bs st') (\<lambda>_.
          eval_stmts tgt init body asy items locals ss)))"
| "eval_stmts tgt init body asy items locals (S_Macro m a # ss) st = (case assert_holds m a of
      None \<Rightarrow> None
    | Some True \<Rightarrow> eval_stmts tgt init body asy items locals ss st
    | Some False \<Rightarrow> Some (Panics, st))"

definition call_fn ::
  "front_end \<Rightarrow> target \<Rightarrow> ('s \<Rightarrow> 's) \<Rightarrow> (ItemFn \<Rightarrow> 's \<Rightarrow> ('a, 'e) ret outcome \<times> 's) \<Rightarrow> ItemFn \<Rightarrow> 's \<Rightarrow>
   ('a, 'e, 's) eval_result" where
  "call_fn fe tgt init body f s = (case read_stmts fe (fn_block f) of
      None \<Rightarrow> None
    | Some ss \<Rightarrow> eval_stmts tgt init body False (scope_of ss) Map.empty ss (s, []))"

text \<open>
  The outcomes of the annotated function as the outcome of the generated one: passed on, dropped, or with
  an error as a panic. An error pattern does not match the unit value, which is a type error.
\<close>

definition passed_on :: "('a, 'e) ret outcome \<times> 's \<Rightarrow> ('a, 'e, 's) eval_result" where
  "passed_on r = (case outcome_map V_Ret r of (v, s) \<Rightarrow> Some (v, s, []))"

definition dropped :: "('a, 'e) ret outcome \<times> 's \<Rightarrow> ('a, 'e, 's) val outcome \<times> 's" where
  "dropped r = outcome_map (\<lambda>_. V_Unit) r"

definition asserted :: "('a, 'e) ret outcome \<times> 's \<Rightarrow> ('a, 'e, 's) eval_result" where
  "asserted r = (case r of
      (Finished (Ret_Result (Inr _)), s) \<Rightarrow> Some (Finished V_Unit, s, [])
    | (Finished (Ret_Result (Inl _)), s) \<Rightarrow> Some (Panics, s, [])
    | (Finished Ret_Unit, s) \<Rightarrow> None
    | (Panics, s) \<Rightarrow> Some (Panics, s, [])
    | (Diverges, s) \<Rightarrow> Some (Diverges, s, []))"

section \<open>Lemmas\<close>

lemma front_endD:
  assumes "front_end_contract fe sy"
  shows "parsed sy f \<Longrightarrow> fe (sy_fn_tokens sy f @ rest) = Some (f, rest)"
    and "no_function ts \<Longrightarrow> fe ts = None"
    and "fe ts = Some (g, rest') \<Longrightarrow> weight rest' < weight ts"
    and "parsed sy f \<Longrightarrow> fn_ident f \<noteq> ''async'' \<and> fn_ident f \<noteq> ''let'' \<and> fn_ident f \<noteq> ''if''"
  using assms by (auto simp: front_end_contract_def)

lemma front_end_fn:
  assumes "front_end_contract fe sy" and "\<forall>a \<in> set attrs. attr_part sy a"
    and "vis = [] \<or> (\<exists>f. parsed sy f \<and> vis = fn_vis f)" and "name_part sy name"
    and "inputs = [] \<or> (\<exists>f. parsed sy f \<and> inputs = fn_inputs f)"
    and "output = [] \<or> (\<exists>f. parsed sy f \<and> output = fn_output f)"
  shows "fe (concat attrs @ vis @ (if asyncness then [Ident ''async''] else []) @
            [Ident ''fn'', Ident name, Group Parenthesis inputs] @ output @ [Group Brace body] @ rest) =
          Some (\<lparr>fn_attrs = attrs, fn_vis = vis, fn_asyncness = asyncness, fn_qualifiers = [], fn_ident = name,
            fn_generics = [], fn_inputs = inputs, fn_output = output, fn_block = body\<rparr>, rest)"
  using assms unfolding front_end_contract_def by blast

lemma read_item:
  assumes "fe (p @ rest) = Some (f, rest)" and "weight rest < weight (p @ rest)"
  shows "read_stmts fe (p @ rest) = map_option ((#) (S_Item f)) (read_stmts fe rest)"
proof -
  obtain t ts where "p @ rest = t # ts" using assms(2) by (cases "p @ rest") auto
  then show ?thesis using assms by simp
qed

lemma read_postfix_semi [simp]: "read_postfix fe e (Punct '';'' # rest) = Some (e, Punct '';'' # rest)"
proof (cases rest)
  case (Cons t ts)
  then show ?thesis by (cases t) simp_all
qed simp

lemma read_init_logger:
  assumes "front_end_contract fe sy"
  shows "read_stmts fe (init_logger_tokens @ rest) = map_option ((#) (S_Semi (E_Call
     (E_Path [''fluvio_future'', ''subscriber'', ''init_logger'']) None))) (read_stmts fe rest)"
  by (simp add: front_endD(2) [OF assms])

lemma read_call_await:
  assumes "front_end_contract fe sy" and "name \<noteq> ''async''" and "name \<noteq> ''let''" and "name \<noteq> ''if''"
  shows "read_stmts fe (call_await_tokens name) = Some [S_Tail (E_Await (E_Call (E_Var name) None))]"
    and "read_stmts fe (call_await_tokens name @ [Punct '';'']) = Some [S_Semi (E_Await (E_Call (E_Var name) None))]"
  using assms(2-4) by (simp_all add: front_endD(2) [OF assms(1)])

lemma read_let_ft:
  assumes "front_end_contract fe sy" and "read_stmts fe b = Some ss"
  shows "read_stmts fe ([Ident ''let'', Ident ''ft'', Punct ''='', Ident ''async'', Group Brace b, Punct '';''] @ rest) =
     map_option ((#) (S_Let ''ft'' (E_Async ss))) (read_stmts fe rest)"
  using assms(2) by (simp add: front_endD(2) [OF assms(1)])

lemma read_if_let:
  assumes "front_end_contract fe sy"
  shows "read_stmts fe ([Punct ''#'', Group Bracket cfg, Ident ''if'', Ident ''let'', Ident c,
       Group Parenthesis [Ident x], Punct ''=''] @ path_tokens ''task'' ''run_block_on'' @
       [Group Parenthesis [Ident ''ft''],
        Group Brace [Ident ''assert'', Punct ''!'', Group Parenthesis a, Punct '';'']]) =
     Some [S_If_Let (Some cfg) c (E_Call (E_Path [''fluvio_future'', ''task'', ''run_block_on'']) (Some (E_Var ''ft'')))
       [S_Macro ''assert'' a]]"
  by (simp add: front_endD(2) [OF assms])

lemma read_run_ft:
  assumes "front_end_contract fe sy"
  shows "read_stmts fe (path_tokens ''task'' ''run_block_on'' @ [Group Parenthesis [Ident ''ft''], Punct '';'']) =
     Some [S_Semi (E_Call (E_Path [''fluvio_future'', ''task'', ''run_block_on'']) (Some (E_Var ''ft'')))]"
  by (simp add: front_endD(2) [OF assms])

lemma read_run_async:
  assumes "front_end_contract fe sy" and "read_stmts fe b = Some ss"
  shows "read_stmts fe (path_tokens ''task'' ''run_block_on'' @ [Group Parenthesis [Ident ''async'', Group Brace b]]) =
     Some [S_Tail (E_Call (E_Path [''fluvio_future'', ''task'', ''run_block_on'']) (Some (E_Async ss)))]"
  using assms(2) by (simp add: front_endD(2) [OF assms(1)])

text \<open>A future of the block \<open>async { name().await }\<close>, and of the block with a semicolon.\<close>

lemma run_call_await:
  assumes "items name = Some f" and "fn_asyncness f" and "fn_inputs f = []"
  shows "eval_stmts tgt init body True items locals [S_Tail (E_Await (E_Call (E_Var name) None))] (s, []) =
      passed_on (body f s)"
    and "eval_stmts tgt init body True items locals [S_Semi (E_Await (E_Call (E_Var name) None))] (s, []) =
      (case dropped (body f s) of (v, s') \<Rightarrow> Some (v, s', []))"
  using assms
  by (cases "body f s"; cases "fst (body f s)"; simp add: run_bind_def run_future_def passed_on_def dropped_def)+

abbreviation run_ft :: expr where
  "run_ft \<equiv> E_Call (E_Path [''fluvio_future'', ''task'', ''run_block_on'']) (Some (E_Var ''ft''))"

abbreviation init_stmt :: stmt where
  "init_stmt \<equiv> S_Semi (E_Call (E_Path [''fluvio_future'', ''subscriber'', ''init_logger'']) None)"

lemma read_fn_then:
  assumes "front_end_contract fe sy" and "parsed sy f"
  shows "read_stmts fe (sy_fn_tokens sy f @ rest) = map_option ((#) (S_Item f)) (read_stmts fe rest)"
  using front_endD(1) [OF assms] front_endD(3) [OF assms(1)] by (intro read_item) blast+

lemma drop_unit: "outcome_map (\<lambda>_. V_Unit) (outcome_map g r) = outcome_map (\<lambda>_. V_Unit) r"
  by (cases r; cases "fst r") simp_all

lemma scope_of_expr [simp]: "scope_of [S_Tail e] = Map.empty" "scope_of [S_Semi e] = Map.empty"
  by auto

lemma run_async_call:
  assumes "items name = Some f" and "fn_asyncness f" and "fn_inputs f = []"
  shows "eval_expr tgt init body asy items locals (E_Async [S_Tail (E_Await (E_Call (E_Var name) None))]) st =
      Some (Finished (V_Future (\<lambda>s. Some (outcome_map V_Ret (body f s)))), st)"
    and "eval_expr tgt init body asy items locals (E_Async [S_Semi (E_Await (E_Call (E_Var name) None))]) st =
      Some (Finished (V_Future (\<lambda>s. Some (dropped (body f s)))), st)"
proof -
  show "eval_expr tgt init body asy items locals (E_Async [S_Tail (E_Await (E_Call (E_Var name) None))]) st =
      Some (Finished (V_Future (\<lambda>s. Some (outcome_map V_Ret (body f s)))), st)"
    unfolding eval_expr.simps scope_of_expr map_add_empty
      run_call_await(1) [where items = items and name = name, OF assms]
    by (auto simp: passed_on_def split: prod.split)
  show "eval_expr tgt init body asy items locals (E_Async [S_Semi (E_Await (E_Call (E_Var name) None))]) st =
      Some (Finished (V_Future (\<lambda>s. Some (dropped (body f s)))), st)"
    unfolding eval_expr.simps scope_of_expr map_add_empty
      run_call_await(2) [where items = items and name = name, OF assms]
    by (auto split: prod.split)
qed

lemma run_asserted:
  assumes "items (fn_ident f) = Some f" and "fn_asyncness f" and "fn_inputs f = []"
  shows "eval_stmts tgt init body False items Map.empty
     [init_stmt, S_Item f, S_Let ''ft'' (E_Async [S_Tail (E_Await (E_Call (E_Var (fn_ident f)) None))]),
      S_If_Let (Some [Ident ''cfg'', Group Parenthesis [Ident ''not'', Group Parenthesis
         [Ident ''target_arch'', Punct ''='', Lit ''wasm32'']]]) ''Err'' run_ft
        [S_Macro ''assert'' (Ident ''false'' # as)]] (s, []) =
     (case tgt of Native \<Rightarrow> asserted (body f (init s)) | Wasm32 \<Rightarrow> Some (Finished V_Unit, init s, []))"
proof (cases tgt)
  case Native
  obtain r s' where r: "body f (init s) = (r, s')" by fastforce
  show ?thesis
    using Native r
    by (cases r) (simp_all add: run_bind_def run_block_on_call_def run_future_def assms
        asserted_def assert_holds_def split: ret.split sum.split)
next
  case Wasm32
  then show ?thesis by (simp add: run_bind_def)
qed

lemma run_dropped:
  assumes "items (fn_ident f) = Some f" and "fn_asyncness f" and "fn_inputs f = []"
  shows "eval_stmts tgt init body False items Map.empty
     [init_stmt, S_Item f, S_Let ''ft'' (E_Async [S_Semi (E_Await (E_Call (E_Var (fn_ident f)) None))]), S_Semi run_ft]
     (s, []) =
     (case tgt of
        Native \<Rightarrow> (case dropped (body f (init s)) of (v, s') \<Rightarrow> Some (v, s', []))
      | Wasm32 \<Rightarrow> Some (Finished V_Unit, init s, [\<lambda>t. Some (dropped (body f t))]))"
proof (cases tgt)
  case Native
  obtain r s' where r: "body f (init s) = (r, s')" by fastforce
  show ?thesis
    using Native r
    by (cases r) (simp_all add: run_bind_def run_block_on_call_def run_future_def assms dropped_def)
next
  case Wasm32
  show ?thesis
    unfolding Wasm32 eval_stmts.simps run_async_call(2) [where items = items and name = "fn_ident f", OF assms]
    by (simp add: run_bind_def run_block_on_call_def dropped_def drop_unit)
qed

lemma run_passed_on:
  assumes "items (fn_ident f) = Some f" and "fn_asyncness f"
  shows "eval_stmts tgt init body False items Map.empty
     [init_stmt, S_Item f, S_Tail (E_Call (E_Path [''fluvio_future'', ''task'', ''run_block_on''])
        (Some (E_Async [S_Tail (E_Await (E_Call (E_Var (fn_ident f)) None))])))] (s, []) =
     (case tgt of
        Native \<Rightarrow> if fn_inputs f = [] then passed_on (body f (init s)) else None
      | Wasm32 \<Rightarrow> Some (Finished V_Unit, init s,
          [\<lambda>t. if fn_inputs f = [] then Some (dropped (body f t)) else None]))"
proof (cases "fn_inputs f = []")
  case True
  then show ?thesis
    by (simp add: run_bind_def run_block_on_call_def run_future_def assms dropped_def drop_unit
        passed_on_def case_prod_beta split: target.split)
next
  case False
  with assms show ?thesis
    by (simp add: run_bind_def run_block_on_call_def run_future_def map_add_def split: target.split)
qed

text \<open>The function that is nested in the generated \<open>main\<close>: the annotated one, its block in another block.\<close>

definition main_nested :: "ItemFn \<Rightarrow> ItemFn" where
  "main_nested input = input\<lparr>fn_vis := [], fn_qualifiers := [], fn_generics := [],
     fn_block := [Group Brace (fn_block input)]\<rparr>"

lemma input_parts:
  assumes "parsed sy input"
  shows "fn_vis input = [] \<or> (\<exists>f. parsed sy f \<and> fn_vis input = fn_vis f)"
    "fn_inputs input = [] \<or> (\<exists>f. parsed sy f \<and> fn_inputs input = fn_inputs f)"
    "fn_output input = [] \<or> (\<exists>f. parsed sy f \<and> fn_output input = fn_output f)"
    "\<forall>a \<in> set (fn_attrs input). attr_part sy a"
    "name_part sy ''main''" "name_part sy (fn_ident input @ ''_sync'')"
  using assms by (auto simp: attr_part_def name_part_def)

lemma read_main_nested:
  assumes "front_end_contract fe sy" and "parsed sy input" and "fn_ident input = ''main''" and "fn_asyncness input"
  shows "read_stmts fe (main_nested_tokens input @ rest) =
     map_option ((#) (S_Item (main_nested input))) (read_stmts fe rest)"
proof -
  have "fe (main_nested_tokens input @ rest) = Some (main_nested input, rest)"
    using front_end_fn [OF assms(1) input_parts(4) [OF assms(2)] _ input_parts(5,2,3) [OF assms(2)],
        of "[]" True "[Group Brace (fn_block input)]" rest] assms(3,4)
    by (simp add: main_nested_tokens_def main_nested_def)
  then show ?thesis using front_endD(3) [OF assms(1)] by (intro read_item)
qed

text \<open>What is read from the output of \<open>main_async\<close> for a function it accepts.\<close>

lemma main_async_read:
  assumes "front_end_contract fe sy" and "sy_parse_fn sy item = Inr input"
    and "fn_ident input = ''main''" and "fn_asyncness input"
  shows "\<exists>f. read_program fe (main_async sy attr item) = Program f \<and> fn_ident f = ''main'' \<and> fn_inputs f = [] \<and>
     \<not> fn_asyncness f \<and> fn_vis f = fn_vis input \<and> fn_output f = fn_output input \<and>
     read_stmts fe (fn_block f) = Some [init_stmt, S_Item (main_nested input), S_Tail (E_Call
       (E_Path [''fluvio_future'', ''task'', ''run_block_on''])
       (Some (E_Async [S_Tail (E_Await (E_Call (E_Var ''main'') None))])))]"
proof -
  have p: "parsed sy input" using assms(2) by (auto simp: parsed_def)
  let ?block = "init_logger_tokens @ main_nested_tokens input @ path_tokens ''task'' ''run_block_on'' @
      [Group Parenthesis [Ident ''async'', Group Brace (call_await_tokens ''main'')]]"
  let ?f = "\<lparr>fn_attrs = [], fn_vis = fn_vis input, fn_asyncness = False, fn_qualifiers = [], fn_ident = ''main'',
      fn_generics = [], fn_inputs = [], fn_output = fn_output input, fn_block = ?block\<rparr>"
  have "read_program fe (main_async sy attr item) = Program ?f"
    using front_end_fn [OF assms(1) _ input_parts(1,5) [OF p] _ input_parts(3) [OF p], of "[]" "[]" False ?block "[]"]
      assms(2-4) by (simp add: main_async_def read_program_def)
  moreover have "read_stmts fe ?block = Some [init_stmt, S_Item (main_nested input), S_Tail (E_Call
      (E_Path [''fluvio_future'', ''task'', ''run_block_on''])
      (Some (E_Async [S_Tail (E_Await (E_Call (E_Var ''main'') None))])))]"
  proof -
    have "read_stmts fe (call_await_tokens ''main'') = Some [S_Tail (E_Await (E_Call (E_Var ''main'') None))]"
      by (rule read_call_await(1) [OF assms(1)]) simp_all
    from read_run_async [OF assms(1) this] show ?thesis
      unfolding read_init_logger [OF assms(1)] read_main_nested [OF assms(1) p assms(3,4)] by simp
  qed
  ultimately show ?thesis by (intro exI [of _ ?f]) simp
qed

text \<open>What is read from the outputs of the test macros.\<close>

lemma read_test_fn:
  assumes "front_end_contract fe sy" and "sy_parse_metas sy args = Inr metas" and "parsed sy input"
  shows "read_program fe ([Punct ''#'', Group Bracket [Ident ''test'']] @ generate_test_attributes metas @
       [Ident ''fn'', Ident (fn_ident input @ ''_sync''), Group Parenthesis [], Group Brace b]) =
     Program \<lparr>fn_attrs = map (\<lambda>m. [Punct ''#'', Group Bracket m]) ([Ident ''test''] # metas), fn_vis = [],
       fn_asyncness = False, fn_qualifiers = [], fn_ident = fn_ident input @ ''_sync'', fn_generics = [],
       fn_inputs = [], fn_output = [], fn_block = b\<rparr>"
proof -
  have "\<forall>a \<in> set (map (\<lambda>m. [Punct ''#'', Group Bracket m]) ([Ident ''test''] # metas)). attr_part sy a"
    using assms(2) by (auto simp: attr_part_def)
  from front_end_fn [OF assms(1) this _ input_parts(6) [OF assms(3)], of "[]" "[]" "[]" False b "[]"]
  show ?thesis by (simp add: read_program_def generate_test_attributes_def)
qed

abbreviation cfg_not_wasm :: tokens where
  "cfg_not_wasm \<equiv> [Ident ''cfg'', Group Parenthesis [Ident ''not'', Group Parenthesis
     [Ident ''target_arch'', Punct ''='', Lit ''wasm32'']]]"

abbreviation assert_args :: tokens where
  "assert_args \<equiv> [Ident ''false'', Punct '','', Lit ''error: {:?}'', Punct '','', Ident ''err'']"

lemma read_call_named:
  assumes "front_end_contract fe sy" and "parsed sy f"
  shows "read_stmts fe (call_await_tokens (fn_ident f)) = Some [S_Tail (E_Await (E_Call (E_Var (fn_ident f)) None))]"
    and "read_stmts fe (call_await_tokens (fn_ident f) @ [Punct '';'']) =
      Some [S_Semi (E_Await (E_Call (E_Var (fn_ident f)) None))]"
  using front_endD(4) [OF assms] read_call_await [OF assms(1)] by blast+

lemma test_async_read:
  assumes "front_end_contract fe sy" and "sy_parse_metas sy args = Inr metas" and "sy_parse_fn sy item = Inr input"
  shows "\<exists>f. read_program fe (test_async sy args item) = Program f \<and> fn_ident f = fn_ident input @ ''_sync'' \<and>
     fn_inputs f = [] \<and> fn_attrs f = map (\<lambda>m. [Punct ''#'', Group Bracket m]) ([Ident ''test''] # metas) \<and>
     read_stmts fe (fn_block f) = Some [init_stmt, S_Item input,
       S_Let ''ft'' (E_Async [S_Tail (E_Await (E_Call (E_Var (fn_ident input)) None))]),
       S_If_Let (Some cfg_not_wasm) ''Err'' run_ft [S_Macro ''assert'' assert_args]]"
proof -
  have p: "parsed sy input" using assms(3) by (auto simp: parsed_def)
  show ?thesis
    unfolding test_async_def assms(2,3) sum.case read_test_fn [OF assms(1,2) p] program.inject
    by (rule exI, rule conjI, rule refl,
        unfold ItemFn.select_convs read_init_logger [OF assms(1)] read_fn_then [OF assms(1) p]
          read_let_ft [OF assms(1) read_call_named(1) [OF assms(1) p]] read_if_let [OF assms(1)])
      simp
qed

lemma test_attr_read:
  assumes "front_end_contract fe sy" and "sy_parse_metas sy args = Inr metas" and "sy_parse_fn sy item = Inr input"
  shows "\<exists>f. read_program fe (test_attr sy args item) = Program f \<and> fn_ident f = fn_ident input @ ''_sync'' \<and>
     fn_inputs f = [] \<and> fn_attrs f = map (\<lambda>m. [Punct ''#'', Group Bracket m]) ([Ident ''test''] # metas) \<and>
     read_stmts fe (fn_block f) = Some [init_stmt, S_Item input,
       S_Let ''ft'' (E_Async [S_Semi (E_Await (E_Call (E_Var (fn_ident input)) None))]), S_Semi run_ft]"
proof -
  have p: "parsed sy input" using assms(3) by (auto simp: parsed_def)
  show ?thesis
    unfolding test_attr_def assms(2,3) sum.case read_test_fn [OF assms(1,2) p] program.inject
    by (rule exI, rule conjI, rule refl,
        unfold ItemFn.select_convs read_init_logger [OF assms(1)] read_fn_then [OF assms(1) p]
          read_let_ft [OF assms(1) read_call_named(2) [OF assms(1) p]] read_run_ft [OF assms(1)])
      simp
qed

section \<open>A parser for the witnesses\<close>

text \<open>Annotated functions without parts besides their name, printed and read back.\<close>

definition sample_fn :: "string \<Rightarrow> ItemFn" where
  "sample_fn name = \<lparr>fn_attrs = [], fn_vis = [], fn_asyncness = True, fn_qualifiers = [],
     fn_ident = name, fn_generics = [], fn_inputs = [], fn_output = [], fn_block = []\<rparr>"

fun sample_parse :: "tokens \<Rightarrow> (ItemFn, tokens) result" where
  "sample_parse [Ident n] = (if n \<in> {''async'', ''let'', ''if''} then Inl [] else Inr (sample_fn n))"
| "sample_parse ts = Inl []"

definition sample_syn :: syn_api where
  "sample_syn = \<lparr>sy_parse_fn = sample_parse,
     sy_parse_metas = (\<lambda>ts. Inr (map (\<lambda>t. [t]) ts)),
     sy_fn_tokens = (\<lambda>f. [Ident ''async'', Ident ''fn'', Ident (fn_ident f), Group Parenthesis [], Group Brace []])\<rparr>"

fun sample_fe :: front_end where
  "sample_fe (Punct c # Group Bracket a # ts) = (if c \<noteq> ''#'' then None else map_option (\<lambda>(f, rest).
     (f\<lparr>fn_attrs := [Punct c, Group Bracket a] # fn_attrs f\<rparr>, rest)) (sample_fe ts))"
| "sample_fe (Ident k # Ident n # Group Parenthesis [] # Group Brace b # rest) =
     (if k = ''fn'' then Some ((sample_fn n)\<lparr>fn_asyncness := False, fn_block := b\<rparr>, rest) else None)"
| "sample_fe (Ident a # Ident k # Ident n # Group Parenthesis [] # Group Brace b # rest) =
     (if a = ''async'' \<and> k = ''fn'' then Some ((sample_fn n)\<lparr>fn_block := b\<rparr>, rest) else None)"
| "sample_fe ts = None"

lemma sample_parsed: "parsed sample_syn f \<longleftrightarrow> (\<exists>n. f = sample_fn n \<and> n \<notin> {''async'', ''let'', ''if''})"
proof
  show "parsed sample_syn f \<Longrightarrow> \<exists>n. f = sample_fn n \<and> n \<notin> {''async'', ''let'', ''if''}"
    by (auto simp: parsed_def sample_syn_def elim!: sample_parse.elims split: if_splits)
  show "\<exists>n. f = sample_fn n \<and> n \<notin> {''async'', ''let'', ''if''} \<Longrightarrow> parsed sample_syn f"
    by (auto simp: parsed_def sample_syn_def intro!: exI [of _ "[Ident (fn_ident f)]"] simp: sample_fn_def)
qed

lemma sample_print:
  "sy_fn_tokens sample_syn f = [Ident ''async'', Ident ''fn'', Ident (fn_ident f), Group Parenthesis [], Group Brace []]"
  by (simp add: sample_syn_def)

lemma sample_attr: "attr_part sample_syn a \<Longrightarrow> \<exists>m. a = [Punct ''#'', Group Bracket m]"
  by (auto simp: attr_part_def sample_parsed sample_fn_def)

lemma sample_fe_attrs:
  assumes "\<forall>a \<in> set attrs. \<exists>m. a = [Punct ''#'', Group Bracket m]" and "sample_fe ts = Some (f, rest)"
  shows "sample_fe (concat attrs @ ts) = Some (f\<lparr>fn_attrs := attrs @ fn_attrs f\<rparr>, rest)"
  using assms by (induction attrs) auto

lemma sample_fe_weight: "sample_fe ts = Some (f, rest) \<Longrightarrow> weight rest < weight ts"
  by (induction ts arbitrary: f rule: sample_fe.induct) (auto split: if_splits simp: less_SucI)

lemma sample_fe_if: "sample_fe (Ident ''if'' # ts) = None"
  by (cases "Ident ''if'' # ts" rule: sample_fe.cases) auto

lemma sample_fe_none:
  assumes "no_function ts"
  shows "sample_fe ts = None"
proof (cases ts rule: sample_fe.cases)
  case (1 c a us)
  with assms sample_fe_if show ?thesis by (cases "Punct c # Group Bracket a # us" rule: no_function.cases) auto
qed (use assms in \<open>auto split: if_splits\<close>)

lemma sample_contract: "front_end_contract sample_fe sample_syn"
  unfolding front_end_contract_def
proof (intro conjI allI impI, goal_cases)
  case (2 attrs vis asyncness name inputs outp body rest)
  let ?ts = "(if asyncness then [Ident ''async''] else []) @
      [Ident ''fn'', Ident name, Group Parenthesis []] @ [Group Brace body] @ rest"
  have "\<forall>a \<in> set attrs. \<exists>m. a = [Punct ''#'', Group Bracket m]" using 2 sample_attr by blast
  moreover have "vis = []" "inputs = []" "outp = []" using 2 by (auto simp: sample_parsed sample_fn_def)
  moreover have "sample_fe ?ts = Some ((sample_fn name)\<lparr>fn_asyncness := asyncness, fn_block := body\<rparr>, rest)"
    by (simp add: sample_fn_def)
  ultimately show ?case by (simp only: sample_fe_attrs append_Nil) (simp add: sample_fn_def)
qed (auto simp: sample_parsed sample_print sample_fn_def sample_fe_none dest: sample_fe_weight)

section \<open>Properties\<close>



text \<open>
  C26. What \<open>test_async\<close> and \<open>test\<close> emit is, for the compiler, a function with the attribute \<open>test\<close>, the
  attributes given as arguments and the name of the original with \<open>_sync\<close>. Run as its tokens say, the one of
  \<open>test_async\<close> initialises the logger and fails on the native target exactly when the annotated function panics or
  returns an error; a function without a result is a type error there. The one of \<open>test\<close> fails exactly when the
  function panics: an error value is dropped. On WebAssembly \<open>test_async\<close> passes without running or
  queueing the annotated function at all, while \<open>test\<close> queues it.
\<close>

theorem test_macros_outcome:
  assumes "front_end_contract fe sy" and "sy_parse_metas sy args = Inr metas" and "sy_parse_fn sy item = Inr input"
    and "fn_asyncness input" and "fn_inputs input = []"
  shows "\<exists>f g. read_program fe (test_async sy args item) = Program f \<and> read_program fe (test_attr sy args item) = Program g \<and>
     fn_ident f = fn_ident input @ ''_sync'' \<and> fn_ident g = fn_ident input @ ''_sync'' \<and>
     fn_attrs f = map (\<lambda>m. [Punct ''#'', Group Bracket m]) ([Ident ''test''] # metas) \<and> fn_attrs g = fn_attrs f \<and>
     call_fn fe Native init body f s = asserted (body input (init s)) \<and>
     call_fn fe Native init body g s = (case dropped (body input (init s)) of (v, s') \<Rightarrow> Some (v, s', [])) \<and>
     call_fn fe Wasm32 init body f s = Some (Finished V_Unit, init s, []) \<and>
     call_fn fe Wasm32 init body g s = Some (Finished V_Unit, init s, [\<lambda>t. Some (dropped (body input t))])"
proof -
  obtain f where f: "read_program fe (test_async sy args item) = Program f" "fn_ident f = fn_ident input @ ''_sync''"
    "fn_attrs f = map (\<lambda>m. [Punct ''#'', Group Bracket m]) ([Ident ''test''] # metas)"
    and fs: "read_stmts fe (fn_block f) = Some [init_stmt, S_Item input,
       S_Let ''ft'' (E_Async [S_Tail (E_Await (E_Call (E_Var (fn_ident input)) None))]),
       S_If_Let (Some cfg_not_wasm) ''Err'' run_ft [S_Macro ''assert'' assert_args]]"
    using test_async_read [OF assms(1-3)] by blast
  obtain g where g: "read_program fe (test_attr sy args item) = Program g" "fn_ident g = fn_ident input @ ''_sync''"
    "fn_attrs g = fn_attrs f"
    and gs: "read_stmts fe (fn_block g) = Some [init_stmt, S_Item input,
       S_Let ''ft'' (E_Async [S_Semi (E_Await (E_Call (E_Var (fn_ident input)) None))]), S_Semi run_ft]"
    using test_attr_read [OF assms(1-3)] f(3) by metis
  have scope: "scope_of [init_stmt, S_Item input, S_Let x e, S_If_Let a c e1 bs] (fn_ident input) = Some input"
    "scope_of [init_stmt, S_Item input, S_Let x e, S_Semi e1] (fn_ident input) = Some input" for x e a c e1 bs
    by simp_all
  have "call_fn fe tgt init body f s = (case tgt of Native \<Rightarrow> asserted (body input (init s))
      | Wasm32 \<Rightarrow> Some (Finished V_Unit, init s, []))" for tgt
    unfolding call_fn_def fs option.case by (rule run_asserted [OF _ assms(4,5)]) (rule scope)
  moreover have "call_fn fe tgt init body g s = (case tgt of
        Native \<Rightarrow> (case dropped (body input (init s)) of (v, s') \<Rightarrow> Some (v, s', []))
      | Wasm32 \<Rightarrow> Some (Finished V_Unit, init s, [\<lambda>t. Some (dropped (body input t))]))" for tgt
    unfolding call_fn_def gs option.case by (rule run_dropped [OF _ assms(4,5)]) (rule scope)
  ultimately show ?thesis using f g by (intro exI [of _ f] exI [of _ g]) simp
qed

theorem test_macros_outcome_witness:
  "\<exists>f g. read_program sample_fe (test_async sample_syn [Ident ''ignore''] [Ident ''t'']) = Program f \<and>
     read_program sample_fe (test_attr sample_syn [Ident ''ignore''] [Ident ''t'']) = Program g \<and>
     call_fn sample_fe Native Suc (\<lambda>f n. (Finished (Ret_Result (Inl False :: (unit, bool) result)), n + 10)) f (0 :: nat) =
       Some (Panics, 11, []) \<and>
     call_fn sample_fe Native Suc (\<lambda>f n. (Finished (Ret_Result (Inl False :: (unit, bool) result)), n + 10)) g (0 :: nat) =
       Some (Finished V_Unit, 11, [])"
proof -
  have parse: "sy_parse_metas sample_syn [Ident ''ignore''] = Inr [[Ident ''ignore'']]"
    "sy_parse_fn sample_syn [Ident ''t''] = Inr (sample_fn ''t'')"
    "fn_asyncness (sample_fn ''t'')" "fn_inputs (sample_fn ''t'') = []" by (simp_all add: sample_syn_def sample_fn_def)
  let ?body = "\<lambda>f n :: nat. (Finished (Ret_Result (Inl False :: (unit, bool) result)), n + 10)"
  from test_macros_outcome [OF sample_contract parse, of Suc ?body 0]
  show ?thesis by (simp add: asserted_def dropped_def) blast
qed

end
