(* ===== verification/File_Slice.thy ===== *)
theory File_Slice
  imports Rust_Prelude
begin

text \<open>
  \<open>src/src/file_slice.rs\<close>: a slice of a file is a raw descriptor, a position and a length, with no
  check against the file behind it.
\<close>

record AsyncFileSlice =
  slice_fd :: RawFd
  slice_position :: u64
  slice_len :: u64

definition AsyncFileSlice_new :: "RawFd \<Rightarrow> u64 \<Rightarrow> u64 \<Rightarrow> AsyncFileSlice" where
  "AsyncFileSlice_new fd position len =
     \<lparr>slice_fd = fd, slice_position = position, slice_len = len\<rparr>"

definition AsyncFileSlice_default :: AsyncFileSlice where
  "AsyncFileSlice_default = \<lparr>slice_fd = 0, slice_position = 0, slice_len = 0\<rparr>"

definition AsyncFileSlice_is_empty :: "AsyncFileSlice \<Rightarrow> bool" where
  "AsyncFileSlice_is_empty self \<longleftrightarrow> slice_len self = 0"

definition AsyncFileSlice_as_raw_fd :: "AsyncFileSlice \<Rightarrow> RawFd" where
  "AsyncFileSlice_as_raw_fd self = slice_fd self"

lemma AsyncFileSlice_new_fields [simp]:
  "slice_fd (AsyncFileSlice_new fd position len) = fd"
  "slice_position (AsyncFileSlice_new fd position len) = position"
  "slice_len (AsyncFileSlice_new fd position len) = len"
  by (simp_all add: AsyncFileSlice_new_def)

end
