(* ===== verification/Zero_Copy.thy ===== *)
theory Zero_Copy
  imports File_Slice Rust_Time
begin

text \<open>
  \<open>src/src/zero_copy.rs\<close>: \<open>ZeroCopy::copy_slice\<close>, its Linux loop and its macOS loop. The system call
  (\<open>nix::sys::sendfile::sendfile\<close>) is a parameter acting on a kernel state; what the loops rely on
  is stated as \<open>sendfile_contract\<close> and \<open>sendfile_mac_contract\<close> over two views of that state, the bytes
  of the source file and the bytes handed to the target. The loops may not end when the call
  reports \<open>EAGAIN\<close> for ever, so they are partial functions. The lemmas show that under the contract
  they return without panic or wrap-around and that the target received exactly the bytes of the
  slice that the file has.
\<close>

section \<open>Data\<close>

datatype errno = EAGAIN | Errno nat

datatype SendFileError = SendFile_IoError io_error | SendFile_NixError errno

datatype ZeroCopy = ZeroCopy RawFd

fun ZeroCopy_fd :: "ZeroCopy \<Rightarrow> RawFd" where
  "ZeroCopy_fd (ZeroCopy fd) = fd"

definition ZeroCopy_raw :: "RawFd \<Rightarrow> ZeroCopy" where
  "ZeroCopy_raw fd = ZeroCopy fd"

section \<open>The Linux loop\<close>

text \<open>\<open>sendfile(target, source, Some(&mut offset), count)\<close>: result, offset left behind, kernel.\<close>

type_synonym 'k sendfile_fn =
  "RawFd \<Rightarrow> RawFd \<Rightarrow> i64 \<Rightarrow> usize \<Rightarrow> 'k \<Rightarrow> (usize, errno) result \<times> i64 \<times> 'k"

partial_function (option) copy_loop ::
  "bool \<Rightarrow> 'k sendfile_fn \<Rightarrow> (Duration \<Rightarrow> 'k \<Rightarrow> 'k) \<Rightarrow> RawFd \<Rightarrow> RawFd \<Rightarrow> u64 \<Rightarrow> usize \<Rightarrow> i64 \<Rightarrow> 'k \<Rightarrow>
   ((usize, SendFileError) result exec \<times> 'k) option" where
  "copy_loop checks sendfile sleep target_fd source_fd sz total_transferred current_offset k =
     (case sub_op checks sz total_transferred of
        Panicked \<Rightarrow> Some (Panicked, k)
      | Returned to_be_transfer \<Rightarrow>
          (case sendfile target_fd source_fd current_offset to_be_transfer k of
             (Inr bytes_transferred, offset', k') \<Rightarrow>
               (case add_op checks total_transferred bytes_transferred of
                  Panicked \<Rightarrow> Some (Panicked, k')
                | Returned total' \<Rightarrow>
                    if bytes_transferred = 0 then Some (Returned (Inr total'), k')
                    else if total' < sz then
                      copy_loop checks sendfile sleep target_fd source_fd sz total' offset' k'
                    else Some (Returned (Inr total'), k'))
           | (Inl err, offset', k') \<Rightarrow>
               (case err of
                  EAGAIN \<Rightarrow>
                    copy_loop checks sendfile sleep target_fd source_fd sz total_transferred offset'
                      (sleep (from_millis 10) k')
                | Errno _ \<Rightarrow> Some (Returned (Inl (SendFile_NixError err)), k'))))"

definition copy_slice ::
  "bool \<Rightarrow> 'k sendfile_fn \<Rightarrow> (Duration \<Rightarrow> 'k \<Rightarrow> 'k) \<Rightarrow> ZeroCopy \<Rightarrow> AsyncFileSlice \<Rightarrow> 'k \<Rightarrow>
   ((usize, SendFileError) result exec \<times> 'k) option" where
  "copy_slice checks sendfile sleep self source k =
     copy_loop checks sendfile sleep (ZeroCopy_fd self) (slice_fd source) (slice_len source) 0
       (slice_position source) k"

section \<open>The macOS loop\<close>

text \<open>
  \<open>sendfile(source, target, offset, Some(count), None, None)\<close>: a result and, also on an error, the
  number of bytes sent. The loop advances its own offset.
\<close>

type_synonym 'k sendfile_mac_fn =
  "RawFd \<Rightarrow> RawFd \<Rightarrow> i64 \<Rightarrow> i64 \<Rightarrow> 'k \<Rightarrow> (unit, errno) result \<times> i64 \<times> 'k"

partial_function (option) copy_loop_mac ::
  "bool \<Rightarrow> 'k sendfile_mac_fn \<Rightarrow> (Duration \<Rightarrow> 'k \<Rightarrow> 'k) \<Rightarrow> RawFd \<Rightarrow> RawFd \<Rightarrow> u64 \<Rightarrow> u64 \<Rightarrow> u64 \<Rightarrow> 'k \<Rightarrow>
   ((usize, SendFileError) result exec \<times> 'k) option" where
  "copy_loop_mac checks sendfile sleep source_fd target_fd sz total_transferred current_offset k =
     (case sub_op checks sz total_transferred of
        Panicked \<Rightarrow> Some (Panicked, k)
      | Returned to_be_transfer \<Rightarrow>
          (case sendfile source_fd target_fd current_offset to_be_transfer k of
             (res, bytes_transferred, k') \<Rightarrow>
               (case add_op checks total_transferred bytes_transferred of
                  Panicked \<Rightarrow> Some (Panicked, k')
                | Returned total' \<Rightarrow>
                    (case add_op checks current_offset bytes_transferred of
                       Panicked \<Rightarrow> Some (Panicked, k')
                     | Returned offset' \<Rightarrow>
                         (case res of
                            Inr _ \<Rightarrow>
                              if bytes_transferred = 0 then Some (Returned (Inr total'), k')
                              else if total' < sz then
                                copy_loop_mac checks sendfile sleep source_fd target_fd sz total'
                                  offset' k'
                              else Some (Returned (Inr total'), k')
                          | Inl err \<Rightarrow>
                              if err = EAGAIN then
                                copy_loop_mac checks sendfile sleep source_fd target_fd sz total'
                                  offset' (sleep (from_millis 10) k')
                              else Some (Returned (Inl (SendFile_NixError err)), k'))))))"

definition copy_slice_mac ::
  "bool \<Rightarrow> 'k sendfile_mac_fn \<Rightarrow> (Duration \<Rightarrow> 'k \<Rightarrow> 'k) \<Rightarrow> ZeroCopy \<Rightarrow> AsyncFileSlice \<Rightarrow> 'k \<Rightarrow>
   ((usize, SendFileError) result exec \<times> 'k) option" where
  "copy_slice_mac checks sendfile sleep self source k =
     copy_loop_mac checks sendfile sleep (slice_fd source) (ZeroCopy_fd self) (slice_len source) 0
       (slice_position source) k"

section \<open>What the loops rely on\<close>

text \<open>
  The documented behaviour of the system call, on the views \<open>file\<close> (bytes of the source) and
  \<open>sent\<close> (bytes handed to the target): at most \<open>count\<close> bytes from the given offset are appended to
  the target, the offset is advanced by their number, no byte is sent only at the end of the file
  (or for an empty request), and a failed call sends nothing. The measure \<open>blocked\<close> says that the
  target does not stay unwritable for ever; waiting does not change what was sent.
\<close>

definition sendfile_contract ::
  "('k \<Rightarrow> u8 list) \<Rightarrow> ('k \<Rightarrow> u8 list) \<Rightarrow> ('k \<Rightarrow> nat) \<Rightarrow> RawFd \<Rightarrow> RawFd \<Rightarrow> 'k sendfile_fn \<Rightarrow>
   (Duration \<Rightarrow> 'k \<Rightarrow> 'k) \<Rightarrow> bool" where
  "sendfile_contract file sent blocked target source sendfile sleep \<longleftrightarrow>
     (\<forall>offset count k. 0 \<le> sint offset \<longrightarrow>
        (case sendfile target source offset count k of
           (Inr n, offset', k') \<Rightarrow>
             unat n \<le> unat count \<and> file k' = file k \<and> offset' = offset + n \<and>
             unat n \<le> length (drop (unat offset) (file k)) \<and>
             sent k' = sent k @ take (unat n) (drop (unat offset) (file k)) \<and>
             (n = 0 \<longrightarrow> count = 0 \<or> length (file k) \<le> unat offset)
         | (Inl err, offset', k') \<Rightarrow>
             file k' = file k \<and> sent k' = sent k \<and> offset' = offset \<and>
             (err = EAGAIN \<longrightarrow> blocked k' < blocked k))) \<and>
     (\<forall>d k. file (sleep d k) = file k \<and> sent (sleep d k) = sent k \<and> blocked (sleep d k) \<le> blocked k)"

definition sendfile_mac_contract ::
  "('k \<Rightarrow> u8 list) \<Rightarrow> ('k \<Rightarrow> u8 list) \<Rightarrow> ('k \<Rightarrow> nat) \<Rightarrow> RawFd \<Rightarrow> RawFd \<Rightarrow> 'k sendfile_mac_fn \<Rightarrow>
   (Duration \<Rightarrow> 'k \<Rightarrow> 'k) \<Rightarrow> bool" where
  "sendfile_mac_contract file sent blocked source target sendfile sleep \<longleftrightarrow>
     (\<forall>offset count k. 0 \<le> sint offset \<longrightarrow> 0 < sint count \<longrightarrow>
        (case sendfile source target offset count k of
           (res, n, k') \<Rightarrow>
             unat n \<le> unat count \<and> file k' = file k \<and>
             unat n \<le> length (drop (unat offset) (file k)) \<and>
             sent k' = sent k @ take (unat n) (drop (unat offset) (file k)) \<and>
             (res = Inr () \<longrightarrow> n = 0 \<longrightarrow> length (file k) \<le> unat offset) \<and>
             (res = Inl EAGAIN \<longrightarrow> n < count \<and> blocked k' < blocked k))) \<and>
     (\<forall>d k. file (sleep d k) = file k \<and> sent (sleep d k) = sent k \<and> blocked (sleep d k) \<le> blocked k)"

text \<open>What a transfer of \<open>sz\<close> bytes from \<open>position\<close> must have done when it ends.\<close>

definition transfer_done ::
  "u8 list \<Rightarrow> u8 list \<Rightarrow> nat \<Rightarrow> nat \<Rightarrow> (usize, SendFileError) result exec \<Rightarrow> u8 list \<Rightarrow> u8 list \<Rightarrow> bool"
  where
  "transfer_done bytes before position sz res after bytes' \<longleftrightarrow>
     bytes' = bytes \<and>
     (case res of
        Panicked \<Rightarrow> False
      | Returned (Inr n) \<Rightarrow>
          unat n = min sz (length bytes - position) \<and>
          after = before @ take sz (drop position bytes)
      | Returned (Inl err) \<Rightarrow>
          (\<exists>code m. err = SendFile_NixError (Errno code) \<and> m \<le> sz \<and>
             after = before @ take m (drop position bytes)))"

section \<open>Correctness of the Linux loop\<close>

text \<open>The loop's invariant: the first \<open>tot\<close> bytes of the slice are at the target.\<close>

definition copy_inv ::
  "u8 list \<Rightarrow> u8 list \<Rightarrow> u64 \<Rightarrow> u64 \<Rightarrow> usize \<Rightarrow> u64 \<Rightarrow> u8 list \<Rightarrow> u8 list \<Rightarrow> bool" where
  "copy_inv bytes before position sz tot offset bytes' after \<longleftrightarrow>
     bytes' = bytes \<and> unat position + unat sz < 2 ^ 63 \<and> unat tot \<le> unat sz \<and>
     unat offset = unat position + unat tot \<and>
     unat tot \<le> length (drop (unat position) bytes) \<and>
     after = before @ take (unat tot) (drop (unat position) bytes)"

lemma sint_small: "unat (x::u64) < 2 ^ 63 \<Longrightarrow> sint x = int (unat x)"
proof -
  assume "unat x < 2 ^ 63"
  then have "int (unat x) < int (2 ^ 63)" by (simp only: of_nat_less_iff)
  then have "int (unat x) < 2 ^ 63" by (simp only: of_nat_power of_nat_numeral)
  moreover have "- (2 ^ 63) \<le> int (unat x)" by (rule order_trans [of _ 0]) simp_all
  ultimately have "signed_take_bit 63 (int (unat x)) = int (unat x)"
    by (intro signed_take_bit_int_eq_self)
  then show ?thesis by (simp add: sint_uint)
qed

text \<open>One successful call keeps the invariant and adds up without wrap-around.\<close>

lemma copy_inv_step:
  assumes inv: "copy_inv bytes before position sz tot offset bytes after"
    and n: "unat n \<le> unat (sz - tot)" "unat n \<le> length (drop (unat offset) bytes)"
    and after': "after' = after @ take (unat n) (drop (unat offset) bytes)"
  shows "copy_inv bytes before position sz (tot + n) (offset + n) bytes after'"
    and "unat (tot + n) = unat tot + unat n"
    and "add_op checks tot n = Returned (tot + n)"
    and "add_op checks offset n = Returned (offset + n)"
proof -
  have rem: "unat (sz - tot) = unat sz - unat tot"
    using inv by (intro unat_sub_small) (simp add: copy_inv_def)
  have small: "unat tot + unat n < 2 ^ 64" "unat offset + unat n < 2 ^ 64"
    using inv n(1) u64_less [of sz] by (auto simp: copy_inv_def rem)
  show tot: "unat (tot + n) = unat tot + unat n"
    using small(1) by (intro unat_add_small) simp
  have off: "unat (offset + n) = unat offset + unat n"
    using small(2) by (intro unat_add_small) simp
  show "add_op checks tot n = Returned (tot + n)" "add_op checks offset n = Returned (offset + n)"
    using small by (simp_all add: add_op_exact)
  have "take (unat tot + unat n) (drop (unat position) bytes)
      = take (unat tot) (drop (unat position) bytes) @ take (unat n) (drop (unat offset) bytes)"
    using inv by (simp add: copy_inv_def take_add add.commute [of _ "unat position"])
  with inv n after' show "copy_inv bytes before position sz (tot + n) (offset + n) bytes after'"
    by (auto simp: copy_inv_def tot off rem)
qed

lemma copy_inv_sub:
  "copy_inv bytes before position sz tot offset bytes' after \<Longrightarrow>
     sub_op checks sz tot = Returned (sz - tot) \<and> unat (sz - tot) = unat sz - unat tot"
  by (simp add: copy_inv_def sub_op_exact unat_sub_small)

lemma copy_inv_offset:
  "copy_inv bytes before position sz tot offset bytes' after \<Longrightarrow> 0 \<le> sint offset"
  by (auto simp: copy_inv_def sint_small)

text \<open>The transfer is done when everything was sent or the file has no more bytes.\<close>

lemma copy_inv_done:
  assumes "copy_inv bytes before position sz tot offset bytes' after"
    and "sz \<le> tot \<or> length bytes \<le> unat offset"
  shows "transfer_done bytes before (unat position) (unat sz) (Returned (Inr tot)) after bytes'"
  using assms by (auto simp: copy_inv_def transfer_done_def word_le_nat_alt)

lemma copy_inv_error:
  assumes "copy_inv bytes before position sz tot offset bytes' after"
  shows "transfer_done bytes before (unat position) (unat sz)
           (Returned (Inl (SendFile_NixError (Errno code)))) after bytes'"
  using assms by (auto simp: copy_inv_def transfer_done_def)

lemma sendfile_contract_call:
  assumes "sendfile_contract file sent blocked target source sendfile sleep" and "0 \<le> sint offset"
    and "sendfile target source offset count k = (r, offset', k')"
  shows "case r of
      Inr n \<Rightarrow> unat n \<le> unat count \<and> file k' = file k \<and> offset' = offset + n \<and>
        unat n \<le> length (drop (unat offset) (file k)) \<and>
        sent k' = sent k @ take (unat n) (drop (unat offset) (file k)) \<and>
        (n = 0 \<longrightarrow> count = 0 \<or> length (file k) \<le> unat offset)
    | Inl err \<Rightarrow> file k' = file k \<and> sent k' = sent k \<and> offset' = offset \<and>
        (err = EAGAIN \<longrightarrow> blocked k' < blocked k)"
  using assms(1) [unfolded sendfile_contract_def, THEN conjunct1, THEN spec, of offset,
      THEN spec, of count, THEN spec, of k] assms(2,3)
  by (cases r) simp_all

text \<open>
  Both loops go round by round: a round ends the transfer as it must, or goes on in a state that keeps
  the invariant and is smaller, by the bytes left and then by the blocked calls left.
\<close>

definition copy_order :: "('k \<Rightarrow> nat) \<Rightarrow> u64 \<Rightarrow> ((u64 \<times> i64 \<times> 'k) \<times> (u64 \<times> i64 \<times> 'k)) set" where
  "copy_order blocked sz =
     measures [\<lambda>(tot, offset, k). unat sz - unat tot, \<lambda>(tot, offset, k). blocked k]"

lemma wf_copy_order: "wf (copy_order blocked sz)"
  unfolding copy_order_def by (rule wf_measures)

definition copy_round ::
  "('k \<Rightarrow> nat) \<Rightarrow> u64 \<Rightarrow> (u64 \<Rightarrow> i64 \<Rightarrow> 'k \<Rightarrow> ('r \<times> 'k) option) \<Rightarrow> ('r \<Rightarrow> 'k \<Rightarrow> bool) \<Rightarrow>
   (u64 \<Rightarrow> i64 \<Rightarrow> 'k \<Rightarrow> bool) \<Rightarrow> u64 \<Rightarrow> i64 \<Rightarrow> 'k \<Rightarrow> bool" where
  "copy_round blocked sz run fin holds tot offset k \<longleftrightarrow>
     (\<exists>res k'. run tot offset k = Some (res, k') \<and> fin res k') \<or>
     (\<exists>tot' offset' k'. run tot offset k = run tot' offset' k' \<and> holds tot' offset' k' \<and>
        ((tot', offset', k'), (tot, offset, k)) \<in> copy_order blocked sz)"

lemma copy_round_done:
  "run tot offset k = Some (res, k') \<Longrightarrow> fin res k' \<Longrightarrow> copy_round blocked sz run fin holds tot offset k"
  by (auto simp: copy_round_def)

lemma copy_round_sent:
  assumes "run tot offset k = run (tot + n) offset' k'" and "holds (tot + n) offset' k'"
    and "unat (tot + n) = unat tot + unat n" and "n \<noteq> 0" and "tot + n < sz"
  shows "copy_round blocked sz run fin holds tot offset k"
proof -
  have "0 < unat n" using assms(4) by (simp add: unat_gt_0)
  then have "((tot + n, offset', k'), (tot, offset, k)) \<in> copy_order blocked sz"
    using assms(3,5) by (auto simp: copy_order_def word_less_nat_alt)
  with assms(1,2) show ?thesis unfolding copy_round_def by blast
qed

lemma copy_round_blocked:
  assumes "run tot offset k = run tot' offset' k'" and "holds tot' offset' k'"
    and "unat tot \<le> unat tot'" and "blocked k' < blocked k"
  shows "copy_round blocked sz run fin holds tot offset k"
proof -
  have "((tot', offset', k'), (tot, offset, k)) \<in> copy_order blocked sz"
    using assms(3,4) by (auto simp: copy_order_def)
  with assms(1,2) show ?thesis unfolding copy_round_def by blast
qed

text \<open>After a call that succeeded both loops do the same.\<close>

lemma copy_round_sent_or_done:
  assumes run: "run tot offset k = (if n = 0 \<or> \<not> tot + n < sz then Some (Returned (Inr (tot + n)), k')
      else run (tot + n) (offset + n) k')"
    and inv: "copy_inv bytes before position sz (tot + n) (offset + n) (file k') (sent k')"
    and n: "n = 0 \<Longrightarrow> sz \<le> tot \<or> length bytes \<le> unat offset" "unat (tot + n) = unat tot + unat n"
  shows "copy_round blocked sz run
     (\<lambda>res k'. transfer_done bytes before (unat position) (unat sz) res (sent k') (file k'))
     (\<lambda>tot offset k. copy_inv bytes before position sz tot offset (file k) (sent k) \<and> (strict \<longrightarrow> tot < sz))
     tot offset k"
proof (cases "n = 0 \<or> \<not> tot + n < sz")
  case True
  then have "sz \<le> tot + n \<or> length bytes \<le> unat (offset + n)" using n(1) by auto
  from copy_inv_done [OF inv this] show ?thesis
    using run True by (intro copy_round_done) auto
next
  case False
  show ?thesis
    by (rule copy_round_sent [of run _ _ _ n "offset + n" k']) (use run inv n(2) False in auto)
qed

lemma copy_rounds:
  assumes "\<And>tot offset k. holds tot offset k \<Longrightarrow> copy_round blocked sz run fin holds tot offset k"
    and "holds tot offset k"
  shows "\<exists>res k'. run tot offset k = Some (res, k') \<and> fin res k'"
  using assms(2)
proof (induction "(tot, offset, k)" arbitrary: tot offset k rule: wf_induct_rule [OF wf_copy_order [of blocked sz]])
  case 1
  from assms(1) [OF "1.prems"] "1.hyps" show ?case unfolding copy_round_def by force
qed

lemma copy_loop_round:
  assumes contract: "sendfile_contract file sent blocked target source sendfile sleep"
    and inv: "copy_inv bytes before position sz tot offset (file k) (sent k)"
  shows "copy_round blocked sz (copy_loop checks sendfile sleep target source sz)
     (\<lambda>res k'. transfer_done bytes before (unat position) (unat sz) res (sent k') (file k'))
     (\<lambda>tot offset k. copy_inv bytes before position sz tot offset (file k) (sent k)) tot offset k"
    (is "copy_round _ _ ?run ?fin ?holds _ _ _")
proof -
  have fk: "file k = bytes" using inv by (simp add: copy_inv_def)
  note sub = copy_inv_sub [OF inv, of checks]
  obtain r offset' k' where call: "sendfile target source offset (sz - tot) k = (r, offset', k')"
    by (metis prod_cases3)
  note spec = sendfile_contract_call [OF contract copy_inv_offset [OF inv] call, unfolded fk]
  note unfold = copy_loop.simps [of checks sendfile sleep target source sz tot offset k]
  consider (sent) n where "r = Inr n" | (blocked) "r = Inl EAGAIN" | (failed) code where "r = Inl (Errno code)"
    by (cases r) (auto elim: errno.exhaust)
  then show ?thesis
  proof cases
    case sent
    with spec have n: "unat n \<le> unat (sz - tot)" "unat n \<le> length (drop (unat offset) bytes)"
      "sent k' = sent k @ take (unat n) (drop (unat offset) bytes)" by simp_all
    note step = copy_inv_step [OF inv [unfolded fk] n]
    from sub call sent step(3) spec have
      "?run tot offset k = (if n = 0 \<or> \<not> tot + n < sz then Some (Returned (Inr (tot + n)), k')
         else ?run (tot + n) (offset + n) k')" by (subst unfold) auto
    moreover have "?holds (tot + n) (offset + n) k'" using step(1) sent spec by simp
    moreover have "n = 0 \<Longrightarrow> sz \<le> tot \<or> length bytes \<le> unat offset" using spec sent by auto
    ultimately show ?thesis using step(2) by (rule copy_round_sent_or_done [where strict = False, simplified])
  next
    case blocked
    let ?k = "sleep (from_millis 10) k'"
    have "?run tot offset k = ?run tot offset ?k" using sub call blocked spec by (subst unfold) simp
    moreover have "file ?k = file k" "sent ?k = sent k" "blocked ?k < blocked k"
      using contract spec blocked fk le_less_trans [of "blocked ?k" "blocked k'"]
      by (auto simp: sendfile_contract_def)
    ultimately show ?thesis using inv by (intro copy_round_blocked [of ?run _ _ _ tot offset ?k]) simp_all
  next
    case failed
    then have "?run tot offset k = Some (Returned (Inl (SendFile_NixError (Errno code))), k')"
      using sub call by (subst unfold) simp
    moreover have "file k' = file k" "sent k' = sent k" using spec failed fk by simp_all
    ultimately show ?thesis using copy_inv_error [OF inv, of code] by (auto intro: copy_round_done)
  qed
qed

lemma copy_loop_ok:
  assumes "sendfile_contract file sent blocked target source sendfile sleep"
    and "copy_inv bytes before position sz tot offset (file k) (sent k)"
  shows "\<exists>res k'. copy_loop checks sendfile sleep target source sz tot offset k = Some (res, k') \<and>
     transfer_done bytes before (unat position) (unat sz) res (sent k') (file k')"
  using copy_rounds [where holds = "\<lambda>tot offset k. copy_inv bytes before position sz tot offset (file k) (sent k)",
      OF copy_loop_round [OF assms(1)] assms(2)] .

section \<open>Correctness of the macOS loop\<close>

lemma sendfile_mac_contract_call:
  assumes "sendfile_mac_contract file sent blocked source target sendfile sleep"
    and "0 \<le> sint offset" and "0 < sint count"
    and "sendfile source target offset count k = (res, n, k')"
  shows "unat n \<le> unat count" and "file k' = file k"
    and "unat n \<le> length (drop (unat offset) (file k))"
    and "sent k' = sent k @ take (unat n) (drop (unat offset) (file k))"
    and "res = Inr () \<Longrightarrow> n = 0 \<Longrightarrow> length (file k) \<le> unat offset"
    and "res = Inl EAGAIN \<Longrightarrow> n < count" and "res = Inl EAGAIN \<Longrightarrow> blocked k' < blocked k"
  using assms(1) [unfolded sendfile_mac_contract_def, THEN conjunct1, THEN spec, of offset,
      THEN spec, of count, THEN spec, of k] assms(2-4)
  by simp_all

lemma copy_inv_count_pos:
  assumes "copy_inv bytes before position sz tot offset bytes' after" and "tot < sz"
  shows "0 < sint (sz - tot)"
proof -
  have "unat (sz - tot) = unat sz - unat tot" "unat sz < 2 ^ 63"
    using assms copy_inv_sub [OF assms(1)] by (auto simp: copy_inv_def)
  moreover from this have "sint (sz - tot) = int (unat (sz - tot))"
    by (intro sint_small) simp
  ultimately show ?thesis
    using assms(2) by (simp only: word_less_nat_alt of_nat_0_less_iff zero_less_diff)
qed

lemma copy_loop_mac_round:
  assumes contract: "sendfile_mac_contract file sent blocked source target sendfile sleep"
    and inv: "copy_inv bytes before position sz tot offset (file k) (sent k)" and more: "tot < sz"
  shows "copy_round blocked sz (copy_loop_mac checks sendfile sleep source target sz)
     (\<lambda>res k'. transfer_done bytes before (unat position) (unat sz) res (sent k') (file k'))
     (\<lambda>tot offset k. copy_inv bytes before position sz tot offset (file k) (sent k) \<and> tot < sz) tot offset k"
    (is "copy_round _ _ ?run ?fin ?holds _ _ _")
proof -
  have fk: "file k = bytes" using inv by (simp add: copy_inv_def)
  note sub = copy_inv_sub [OF inv, of checks]
  obtain res n k' where call: "sendfile source target offset (sz - tot) k = (res, n, k')"
    by (metis prod_cases3)
  note spec = sendfile_mac_contract_call [OF contract copy_inv_offset [OF inv]
      copy_inv_count_pos [OF inv more] call, unfolded fk]
  note step = copy_inv_step [OF inv [unfolded fk] spec(1,3,4)]
  note unfold = copy_loop_mac.simps [of checks sendfile sleep source target sz tot offset k]
  have inv': "copy_inv bytes before position sz (tot + n) (offset + n) (file k') (sent k')"
    using step(1) spec(2) by simp
  consider (sent) "res = Inr ()" | (blocked) "res = Inl EAGAIN" | (failed) code where "res = Inl (Errno code)"
    by (cases res) (auto elim: errno.exhaust)
  then show ?thesis
  proof cases
    case sent
    from sub call sent step(3,4) have
      "?run tot offset k = (if n = 0 \<or> \<not> tot + n < sz then Some (Returned (Inr (tot + n)), k')
         else ?run (tot + n) (offset + n) k')" by (subst unfold) auto
    moreover have "n = 0 \<Longrightarrow> sz \<le> tot \<or> length bytes \<le> unat offset" using spec(5) [OF sent] by simp
    ultimately show ?thesis using step(2) inv' by (intro copy_round_sent_or_done [where strict = True, simplified])
  next
    case blocked
    let ?k = "sleep (from_millis 10) k'"
    have "?run tot offset k = ?run (tot + n) (offset + n) ?k"
      using sub call blocked step(3,4) by (subst unfold) simp
    moreover have "file ?k = file k'" "sent ?k = sent k'" "blocked ?k < blocked k"
      using contract spec(7) [OF blocked] le_less_trans [of "blocked ?k" "blocked k'"]
      by (auto simp: sendfile_mac_contract_def)
    moreover have "tot + n < sz" using spec(6) [OF blocked] sub step(2) by (simp add: word_less_nat_alt)
    ultimately show ?thesis
      using inv' step(2) by (intro copy_round_blocked [of ?run _ _ _ "tot + n" "offset + n" ?k]) simp_all
  next
    case failed
    then have "?run tot offset k = Some (Returned (Inl (SendFile_NixError (Errno code))), k')"
      using sub call step(3,4) by (subst unfold) simp
    then show ?thesis using copy_inv_error [OF inv'] by (rule copy_round_done)
  qed
qed

lemma copy_loop_mac_ok:
  assumes "sendfile_mac_contract file sent blocked source target sendfile sleep"
    and "copy_inv bytes before position sz tot offset (file k) (sent k)" and "tot < sz"
  shows "\<exists>res k'. copy_loop_mac checks sendfile sleep source target sz tot offset k = Some (res, k') \<and>
     transfer_done bytes before (unat position) (unat sz) res (sent k') (file k')"
  by (rule copy_rounds [where blocked = blocked and sz = sz and holds = "\<lambda>tot offset k.
      copy_inv bytes before position sz tot offset (file k) (sent k) \<and> tot < sz"])
    (use copy_loop_mac_round [OF assms(1)] assms(2,3) in auto)

lemma copy_inv_start:
  assumes "unat position + unat sz < 2 ^ 63"
  shows "copy_inv bytes before position sz 0 position bytes before"
  using assms by (simp add: copy_inv_def)

section \<open>A kernel for the witnesses\<close>

text \<open>
  A source file, the bytes sent so far, and a script of what the next calls do: \<open>0\<close> answers
  \<open>EAGAIN\<close>, \<open>Suc c\<close> sends at most \<open>c + 1\<close> bytes, an empty script sends all it is asked for.
\<close>

record sim_kernel =
  sim_file :: "u8 list"
  sim_sent :: "u8 list"
  sim_script :: "nat list"

definition sim_chunk :: "nat list \<Rightarrow> nat \<Rightarrow> nat" where
  "sim_chunk script m = (case script of [] \<Rightarrow> m | c # _ \<Rightarrow> min c m)"

definition sim_blocked :: "sim_kernel \<Rightarrow> bool" where
  "sim_blocked k \<longleftrightarrow> sim_script k \<noteq> [] \<and> hd (sim_script k) = 0"

definition sim_sendfile :: "sim_kernel sendfile_fn" where
  "sim_sendfile target source offset count k =
     (let avail = drop (unat offset) (sim_file k);
          m = sim_chunk (sim_script k) (min (unat count) (length avail));
          k' = k\<lparr>sim_script := tl (sim_script k)\<rparr>
      in if sim_blocked k then (Inl EAGAIN, offset, k')
         else (Inr (of_nat m), offset + of_nat m, k'\<lparr>sim_sent := sim_sent k @ take m avail\<rparr>))"

definition sim_sendfile_mac :: "sim_kernel sendfile_mac_fn" where
  "sim_sendfile_mac source target offset count k =
     (let avail = drop (unat offset) (sim_file k);
          m = (if count = 0 then length avail
               else sim_chunk (sim_script k) (min (unat count) (length avail)));
          k' = k\<lparr>sim_script := tl (sim_script k)\<rparr>
      in if sim_blocked k then (Inl EAGAIN, 0, k')
         else (Inr (), of_nat m, k'\<lparr>sim_sent := sim_sent k @ take m avail\<rparr>))"

lemma sim_chunk_le: "sim_chunk script m \<le> m"
  by (simp add: sim_chunk_def split: list.split)

lemma sim_chunk_0: "sim_chunk (sim_script k) m = 0 \<Longrightarrow> \<not> sim_blocked k \<Longrightarrow> m = 0"
  by (auto simp: sim_chunk_def sim_blocked_def split: list.splits)

lemma sim_blocked_script: "sim_blocked k \<Longrightarrow> length (tl (sim_script k)) < length (sim_script k)"
  by (auto simp: sim_blocked_def)

lemma unat_of_nat_le_count: "m \<le> unat (count::u64) \<Longrightarrow> unat (of_nat m :: u64) = m"
  using u64_less [of count] by (simp add: unat_of_nat)

lemma sim_sendfile_contract:
  "sendfile_contract sim_file sim_sent (length \<circ> sim_script) target source sim_sendfile (\<lambda>_ k. k)"
proof -
  have "case sim_sendfile target source offset count k of
      (Inr n, offset', k') \<Rightarrow> unat n \<le> unat count \<and> sim_file k' = sim_file k \<and> offset' = offset + n \<and>
        unat n \<le> length (drop (unat offset) (sim_file k)) \<and>
        sim_sent k' = sim_sent k @ take (unat n) (drop (unat offset) (sim_file k)) \<and>
        (n = 0 \<longrightarrow> count = 0 \<or> length (sim_file k) \<le> unat offset)
    | (Inl err, offset', k') \<Rightarrow> sim_file k' = sim_file k \<and> sim_sent k' = sim_sent k \<and>
        offset' = offset \<and>
        (err = EAGAIN \<longrightarrow> (length \<circ> sim_script) k' < (length \<circ> sim_script) k)"
    for offset count :: u64 and k
  proof -
    let ?avail = "drop (unat offset) (sim_file k)"
    let ?m = "sim_chunk (sim_script k) (min (unat count) (length ?avail))"
    have m: "?m \<le> unat count" "?m \<le> length ?avail"
      using sim_chunk_le [of "sim_script k" "min (unat count) (length ?avail)"] by simp_all
    note u = unat_of_nat_le_count [OF m(1)]
    have z: "\<not> sim_blocked k \<Longrightarrow> (of_nat ?m :: u64) = 0 \<Longrightarrow>
        count = 0 \<or> length (sim_file k) \<le> unat offset"
      using u sim_chunk_0 [of k "min (unat count) (length ?avail)"]
      by (auto simp: unat_eq_zero min_def split: if_splits)
    show ?thesis
      using m u z sim_blocked_script [of k]
      by (cases "sim_blocked k") (simp_all add: sim_sendfile_def Let_def)
  qed
  then show ?thesis
    unfolding sendfile_contract_def by simp
qed

lemma sim_sendfile_mac_contract:
  "sendfile_mac_contract sim_file sim_sent (length \<circ> sim_script) source target sim_sendfile_mac
     (\<lambda>_ k. k)"
proof -
  have "case sim_sendfile_mac source target offset count k of
      (res, n, k') \<Rightarrow> unat n \<le> unat count \<and> sim_file k' = sim_file k \<and>
        unat n \<le> length (drop (unat offset) (sim_file k)) \<and>
        sim_sent k' = sim_sent k @ take (unat n) (drop (unat offset) (sim_file k)) \<and>
        (res = Inr () \<longrightarrow> n = 0 \<longrightarrow> length (sim_file k) \<le> unat offset) \<and>
        (res = Inl EAGAIN \<longrightarrow> n < count \<and>
           (length \<circ> sim_script) k' < (length \<circ> sim_script) k)"
    if "0 < sint count" for offset count :: u64 and k
  proof -
    let ?avail = "drop (unat offset) (sim_file k)"
    let ?m = "sim_chunk (sim_script k) (min (unat count) (length ?avail))"
    have c: "count \<noteq> 0" using that by auto
    have m: "?m \<le> unat count" "?m \<le> length ?avail"
      using sim_chunk_le [of "sim_script k" "min (unat count) (length ?avail)"] by simp_all
    note u = unat_of_nat_le_count [OF m(1)]
    have z: "(of_nat ?m :: u64) = 0 \<longrightarrow> length (sim_file k) \<le> unat offset" if "\<not> sim_blocked k"
      using that c u sim_chunk_0 [of k "min (unat count) (length ?avail)"]
      by (auto simp: unat_eq_zero min_def split: if_splits)
    have pos: "0 < count" using c word_neq_0_conv by blast
    show ?thesis
    proof (cases "sim_blocked k")
      case True
      with pos sim_blocked_script [of k] show ?thesis
        by (simp add: sim_sendfile_mac_def Let_def)
    next
      case False
      with c have "sim_sendfile_mac source target offset count k =
          (Inr (), of_nat ?m, k\<lparr>sim_script := tl (sim_script k),
             sim_sent := sim_sent k @ take ?m ?avail\<rparr>)"
        by (simp add: sim_sendfile_mac_def Let_def)
      moreover have "sim_file (k\<lparr>sim_script := x, sim_sent := y\<rparr>) = sim_file k"
        "sim_sent (k\<lparr>sim_script := x, sim_sent := y\<rparr>) = y" for x y
        by simp_all
      ultimately show ?thesis
        using m u z [OF False] by (simp only: prod.case simp_thms sum.distinct)
    qed
  qed
  then show ?thesis
    unfolding sendfile_mac_contract_def by simp
qed

lemma copy_slice_ok:
  assumes "sendfile_contract file sent blocked target (slice_fd source) sendfile sleep"
    and "unat (slice_position source) + unat (slice_len source) < 2 ^ 63"
  shows "\<exists>res k'. copy_slice checks sendfile sleep (ZeroCopy target) source k = Some (res, k') \<and>
     transfer_done (file k) (sent k) (unat (slice_position source)) (unat (slice_len source)) res
       (sent k') (file k')"
  unfolding copy_slice_def ZeroCopy_fd.simps
  using copy_loop_ok [OF assms(1) copy_inv_start [OF assms(2), of "file k" "sent k"]] .

section \<open>Properties\<close>

text \<open>
  C1. On Linux, for every slice inside the signed offset range, \<open>copy_slice\<close> returns, in both build
  profiles, without a panic; on success the count it reports is the length of the slice cut at the
  end of the file, and the target has received exactly those bytes of the file, in order; on a
  failure other than \<open>EAGAIN\<close> the error is passed on and the target has a prefix of the slice.
\<close>

theorem copy_slice_transfers:
  assumes "sendfile_contract file sent blocked target (slice_fd source) sendfile sleep"
    and "unat (slice_position source) + unat (slice_len source) < 2 ^ 63"
  shows "\<exists>res k'. copy_slice checks sendfile sleep (ZeroCopy target) source k = Some (res, k') \<and>
     transfer_done (file k) (sent k) (unat (slice_position source)) (unat (slice_len source)) res
       (sent k') (file k')"
  using assms by (rule copy_slice_ok)

theorem copy_slice_transfers_witness:
  "\<exists>res k'. copy_slice True sim_sendfile (\<lambda>_ k. k) (ZeroCopy 7)
       \<lparr>slice_fd = 3, slice_position = 1, slice_len = 10\<rparr>
       \<lparr>sim_file = [1, 2, 3, 4], sim_sent = [], sim_script = [0, 2, 0]\<rparr> = Some (res, k') \<and>
     transfer_done [1, 2, 3, 4] [] 1 10 res (sim_sent k') (sim_file k')"
  using copy_slice_transfers [OF sim_sendfile_contract [of 7
        "slice_fd \<lparr>slice_fd = 3, slice_position = 1, slice_len = 10\<rparr>"],
      of True "\<lparr>sim_file = [1, 2, 3, 4], sim_sent = [], sim_script = [0, 2, 0]\<rparr>"]
  by simp

text \<open>
  C20. The macOS loop, which keeps its own offset and counts the bytes a failed call reports, gives
  the same guarantee for every non-empty slice.
\<close>

theorem copy_slice_mac_transfers:
  assumes "sendfile_mac_contract file sent blocked (slice_fd source) target sendfile sleep"
    and "unat (slice_position source) + unat (slice_len source) < 2 ^ 63"
    and "\<not> AsyncFileSlice_is_empty source"
  shows "\<exists>res k'. copy_slice_mac checks sendfile sleep (ZeroCopy target) source k = Some (res, k') \<and>
     transfer_done (file k) (sent k) (unat (slice_position source)) (unat (slice_len source)) res
       (sent k') (file k')"
proof -
  have "0 < slice_len source"
    using assms(3) word_neq_0_conv by (auto simp: AsyncFileSlice_is_empty_def)
  from copy_loop_mac_ok [OF assms(1) copy_inv_start [OF assms(2), of "file k" "sent k"] this]
  show ?thesis by (simp add: copy_slice_mac_def)
qed

theorem copy_slice_mac_transfers_witness:
  "\<exists>res k'. copy_slice_mac True sim_sendfile_mac (\<lambda>_ k. k) (ZeroCopy 7)
       \<lparr>slice_fd = 3, slice_position = 1, slice_len = 10\<rparr>
       \<lparr>sim_file = [1, 2, 3, 4], sim_sent = [], sim_script = [0, 2, 0]\<rparr> = Some (res, k') \<and>
     transfer_done [1, 2, 3, 4] [] 1 10 res (sim_sent k') (sim_file k')"
  using copy_slice_mac_transfers [OF sim_sendfile_mac_contract [of
        "slice_fd \<lparr>slice_fd = 3, slice_position = 1, slice_len = 10\<rparr>" 7],
      of True "\<lparr>sim_file = [1, 2, 3, 4], sim_sent = [], sim_script = [0, 2, 0]\<rparr>"]
  by (simp add: AsyncFileSlice_is_empty_def)

text \<open>
  The macOS loop does not guard against an empty slice: since the system call reads a zero count
  as \<open>until the end of the file\<close>, copying a slice of length zero sends every byte from its position
  on and reports that many bytes.
\<close>

lemma copy_slice_mac_empty_sends_rest:
  assumes "sendfile (slice_fd source) target (slice_position source) 0 k = (Inr (), n, k')"
    and "slice_len source = 0" and "unat (slice_position source) + unat n < 2 ^ 64"
  shows "copy_slice_mac checks sendfile sleep (ZeroCopy target) source k = Some (Returned (Inr n), k')"
  using assms
  by (simp add: copy_slice_mac_def copy_loop_mac.simps sub_op_def add_op_def u64_less)

end
