(* ===== verification/Async_Fs.thy ===== *)
theory Async_Fs
  imports File_Slice
begin

text \<open>
  \<open>src/src/fs/mod.rs\<close> (the \<open>util\<close> openers), \<open>src/src/fs/extension.rs\<close> (\<open>AsyncFileExtension\<close>) and the data of
  \<open>src/src/fs/stream.rs\<close>. The
  asynchronous file and the file system come from the \<open>async_fs\<close> package: they are parameters, the
  record \<open>file_api\<close> of the methods called on an open file and the record \<open>fs_api\<close> of the ways to
  open one. The lemmas say when \<open>as_slice\<close> succeeds, that what it returns lies inside the file
  unless the position addition wraps, and where it refuses a slice the file has.
\<close>

section \<open>The package's interface\<close>

datatype SeekFrom = Seek_Start u64 | Seek_End i64 | Seek_Current i64

record 'f file_api =
  fa_metadata_len :: "'f \<Rightarrow> (u64, io_error) result"
  fa_raw_fd :: "'f \<Rightarrow> RawFd"
  fa_seek :: "SeekFrom \<Rightarrow> 'f \<Rightarrow> (u64, io_error) result \<times> 'f"
  fa_poll_write :: "u8 list \<Rightarrow> 'f \<Rightarrow> (usize, io_error) result poll \<times> 'f"
  fa_poll_flush :: "'f \<Rightarrow> (unit, io_error) result poll \<times> 'f"
  fa_poll_close :: "'f \<Rightarrow> (unit, io_error) result poll \<times> 'f"

record OpenOptions =
  opt_read :: bool
  opt_write :: bool
  opt_append :: bool
  opt_truncate :: bool
  opt_create :: bool

definition OpenOptions_new :: OpenOptions where
  "OpenOptions_new = \<lparr>opt_read = False, opt_write = False, opt_append = False,
     opt_truncate = False, opt_create = False\<rparr>"

record ('s, 'f) fs_api =
  fs_create :: "string \<Rightarrow> 's \<Rightarrow> ('f, io_error) result \<times> 's"
  fs_open :: "string \<Rightarrow> 's \<Rightarrow> ('f, io_error) result \<times> 's"
  fs_open_with :: "OpenOptions \<Rightarrow> string \<Rightarrow> 's \<Rightarrow> ('f, io_error) result \<times> 's"

section \<open>The openers of module util\<close>

definition util_create :: "('s, 'f) fs_api \<Rightarrow> string \<Rightarrow> 's \<Rightarrow> ('f, io_error) result \<times> 's" where
  "util_create fs path s = fs_create fs path s"

definition util_open :: "('s, 'f) fs_api \<Rightarrow> string \<Rightarrow> 's \<Rightarrow> ('f, io_error) result \<times> 's" where
  "util_open fs path s = fs_open fs path s"

definition util_open_read_write ::
  "('s, 'f) fs_api \<Rightarrow> string \<Rightarrow> 's \<Rightarrow> ('f, io_error) result \<times> 's" where
  "util_open_read_write fs path s =
     fs_open_with fs (OpenOptions_new\<lparr>opt_read := True, opt_write := True, opt_create := True,
       opt_append := False\<rparr>) path s"

definition util_open_read_append ::
  "('s, 'f) fs_api \<Rightarrow> string \<Rightarrow> 's \<Rightarrow> ('f, io_error) result \<times> 's" where
  "util_open_read_append fs path s =
     fs_open_with fs (OpenOptions_new\<lparr>opt_read := True, opt_create := True, opt_append := True\<rparr>)
       path s"

section \<open>AsyncFileExtension\<close>

definition reset_to_beginning :: "'f file_api \<Rightarrow> 'f \<Rightarrow> (unit, io_error) result \<times> 'f" where
  "reset_to_beginning api self =
     (case fa_seek api (Seek_Start 0) self of
        (Inl e, self') \<Rightarrow> (Inl e, self')
      | (Inr _, self') \<Rightarrow> (Inr (), self'))"

definition raw_slice :: "'f file_api \<Rightarrow> 'f \<Rightarrow> u64 \<Rightarrow> u64 \<Rightarrow> AsyncFileSlice" where
  "raw_slice api self position len = AsyncFileSlice_new (fa_raw_fd api self) position len"

definition as_slice ::
  "bool \<Rightarrow> 'f file_api \<Rightarrow> 'f \<Rightarrow> u64 \<Rightarrow> u64 option \<Rightarrow> (AsyncFileSlice, io_error) result exec" where
  "as_slice checks api self position desired_len_opt =
     (case fa_metadata_len api self of
        Inl e \<Rightarrow> Returned (Inl e)
      | Inr len \<Rightarrow>
          if len \<le> position then
            Returned (Inl (IoError UnexpectedEof ''position is greater than available len''))
          else
            (case desired_len_opt of
               Some desired_len \<Rightarrow>
                 exec_bind (add_op checks position desired_len) (\<lambda>slice_end.
                   if len \<le> slice_end then
                     Returned (Inl (IoError UnexpectedEof ''not available bytes''))
                   else Returned (Inr (raw_slice api self position desired_len)))
             | None \<Rightarrow>
                 exec_bind (sub_op checks len position) (\<lambda>slice_len.
                   Returned (Inr (raw_slice api self position slice_len)))))"

section \<open>AsyncFileStream\<close>

text \<open>
  \<open>src/src/fs/stream.rs\<close>, which no module declares: a file wrapped to be read as a stream. Its
  \<open>poll_next\<close> has an empty body and does not compile, so there is nothing to model behind it.
\<close>

record 'f AsyncFileStream =
  stream_file :: 'f

definition AsyncFileStream_new :: "'f \<Rightarrow> 'f AsyncFileStream" where
  "AsyncFileStream_new f = \<lparr>stream_file = f\<rparr>"

section \<open>The contract of a file\<close>

text \<open>
  An asynchronous file buffers what is written to it. Two views of its state keep this apart: \<open>bytes\<close> are
  the bytes of the file with all that its writes have reported as taken, \<open>disk\<close> the bytes that have
  reached it. What the callers rely on: a write takes the prefix of the buffer whose length it reports, a
  pending or failed write and the other calls take nothing, and metadata reports the number of bytes
  that are on disk, not those in the buffer.
\<close>

definition file_contract :: "('f \<Rightarrow> u8 list) \<Rightarrow> ('f \<Rightarrow> u8 list) \<Rightarrow> 'f file_api \<Rightarrow> bool" where
  "file_contract bytes disk api \<longleftrightarrow>
     (\<forall>buf f. case fa_poll_write api buf f of
        (Ready (Inr n), f') \<Rightarrow> unat n \<le> length buf \<and> bytes f' = bytes f @ take (unat n) buf
      | (_, f') \<Rightarrow> bytes f' = bytes f) \<and>
     (\<forall>f. bytes (snd (fa_poll_flush api f)) = bytes f) \<and>
     (\<forall>f. bytes (snd (fa_poll_close api f)) = bytes f) \<and>
     (\<forall>f len. fa_metadata_len api f = Inr len \<longrightarrow> unat len = length (disk f))"

text \<open>A file that has just been opened has nothing in its buffer.\<close>

definition opens_settled :: "('f \<Rightarrow> u8 list) \<Rightarrow> ('f \<Rightarrow> u8 list) \<Rightarrow> ('s, 'f) fs_api \<Rightarrow> bool" where
  "opens_settled bytes disk fs \<longleftrightarrow>
     (\<forall>path s f s'. fs_create fs path s = (Inr f, s') \<longrightarrow> disk f = bytes f) \<and>
     (\<forall>path s f s'. fs_open fs path s = (Inr f, s') \<longrightarrow> disk f = bytes f) \<and>
     (\<forall>opts path s f s'. fs_open_with fs opts path s = (Inr f, s') \<longrightarrow> disk f = bytes f)"

text \<open>
  What a flush promises. Writing the buffer out happens behind the calls, and a failure is reported by a later
  one; \<open>intact\<close> says that nothing taken has been lost so far. As long as no call reports an error the file
  stays intact, and a flush of an intact file that succeeds has brought all of it to the disk.
\<close>

definition flush_contract ::
  "('f \<Rightarrow> bool) \<Rightarrow> ('f \<Rightarrow> u8 list) \<Rightarrow> ('f \<Rightarrow> u8 list) \<Rightarrow> 'f file_api \<Rightarrow> bool" where
  "flush_contract intact bytes disk api \<longleftrightarrow>
     (\<forall>f. disk f = bytes f \<longrightarrow> intact f) \<and>
     (\<forall>buf f r f'. fa_poll_write api buf f = (r, f') \<and> intact f \<and> (\<forall>e. r \<noteq> Ready (Inl e)) \<longrightarrow> intact f') \<and>
     (\<forall>f r f'. fa_poll_flush api f = (r, f') \<and> intact f \<and> (\<forall>e. r \<noteq> Ready (Inl e)) \<longrightarrow> intact f') \<and>
     (\<forall>f r f'. fa_poll_close api f = (r, f') \<and> intact f \<and> (\<forall>e. r \<noteq> Ready (Inl e)) \<longrightarrow> intact f') \<and>
     (\<forall>f f'. fa_poll_flush api f = (Ready (Inr ()), f') \<and> intact f \<longrightarrow> disk f' = bytes f')"

section \<open>A file and a file system for the witnesses\<close>

text \<open>An in-memory file that takes at most four bytes per write.\<close>

definition mem_file :: "u8 list file_api" where
  "mem_file = \<lparr>fa_metadata_len = (\<lambda>f. if length f < 2 ^ 64 then Inr (of_nat (length f))
       else Inl (IoError OtherError ''too large'')),
     fa_raw_fd = (\<lambda>_. 3),
     fa_seek = (\<lambda>_ f. (Inr 0, f)),
     fa_poll_write = (\<lambda>buf f. (Ready (Inr (of_nat (min 4 (length buf)))), f @ take 4 buf)),
     fa_poll_flush = (\<lambda>f. (Ready (Inr ()), f)), fa_poll_close = (\<lambda>f. (Ready (Inr ()), f))\<rparr>"

text \<open>A file system holding one such file.\<close>

definition mem_fs :: "(u8 list, u8 list) fs_api" where
  "mem_fs = \<lparr>fs_create = (\<lambda>_ s. (Inr [], [])), fs_open = (\<lambda>_ s. (Inr s, s)),
     fs_open_with = (\<lambda>_ _ s. (Inr s, s))\<rparr>"

text \<open>A file that buffers, the bytes on disk first, and a file system that opens it.\<close>

definition buf_file :: "(u8 list \<times> u8 list) file_api" where
  "buf_file = \<lparr>fa_metadata_len = (\<lambda>f. if length (fst f) < 2 ^ 64 then Inr (of_nat (length (fst f)))
       else Inl (IoError OtherError ''too large'')),
     fa_raw_fd = (\<lambda>_. 3),
     fa_seek = (\<lambda>_ f. (Inr 0, (fst f @ snd f, []))),
     fa_poll_write = (\<lambda>buf f. (Ready (Inr (of_nat (min 4 (length buf)))), (fst f, snd f @ take 4 buf))),
     fa_poll_flush = (\<lambda>f. (Ready (Inr ()), (fst f @ snd f, []))),
     fa_poll_close = (\<lambda>f. (Ready (Inr ()), (fst f @ snd f, [])))\<rparr>"

definition buf_bytes :: "u8 list \<times> u8 list \<Rightarrow> u8 list" where
  "buf_bytes f = fst f @ snd f"

definition buf_fs :: "(u8 list, u8 list \<times> u8 list) fs_api" where
  "buf_fs = \<lparr>fs_create = (\<lambda>_ s. (Inr ([], []), [])), fs_open = (\<lambda>_ s. (Inr (s, []), s)),
     fs_open_with = (\<lambda>_ _ s. (Inr (s, []), s))\<rparr>"

section \<open>Lemmas\<close>

lemma file_contract_write:
  assumes "file_contract bytes disk api" and "fa_poll_write api buf f = (r, f')"
  shows "case r of
      Ready (Inr n) \<Rightarrow> unat n \<le> length buf \<and> bytes f' = bytes f @ take (unat n) buf
    | _ \<Rightarrow> bytes f' = bytes f"
  using assms(1) [unfolded file_contract_def, THEN conjunct1, THEN spec, of buf, THEN spec, of f]
    assms(2) by simp

lemma buf_file_contract: "file_contract buf_bytes fst buf_file"
  by (auto simp: file_contract_def buf_file_def buf_bytes_def unat_of_nat min_def split: if_splits)

lemma buf_fs_settled: "opens_settled buf_bytes fst buf_fs"
  by (auto simp: opens_settled_def buf_fs_def buf_bytes_def)

lemma buf_file_flush: "flush_contract (\<lambda>_. True) buf_bytes fst buf_file"
  by (auto simp: flush_contract_def buf_file_def buf_bytes_def)

lemma mem_fs_settled: "opens_settled (\<lambda>f. f) (\<lambda>f. f) mem_fs"
  by (simp add: opens_settled_def)

lemma mem_file_contract: "file_contract (\<lambda>f. f) (\<lambda>f. f) mem_file"
  by (auto simp: file_contract_def mem_file_def unat_of_nat min_def split: if_splits)

lemma raw_slice_fields [simp]:
  "slice_fd (raw_slice api self position len) = fa_raw_fd api self"
  "slice_position (raw_slice api self position len) = position"
  "slice_len (raw_slice api self position len) = len"
  by (simp_all add: raw_slice_def)

lemma as_slice_rest:
  assumes "fa_metadata_len api self = Inr len" and "unat position < unat len"
  shows "as_slice checks api self position None
       = Returned (Inr (raw_slice api self position (len - position)))"
  using assms by (simp add: as_slice_def word_le_nat_alt sub_op_exact)

lemma as_slice_desired:
  assumes "fa_metadata_len api self = Inr len" and "unat position < unat len"
    and "unat position + unat d < 2 ^ 64"
  shows "as_slice checks api self position (Some d) =
     (if unat len \<le> unat position + unat d
      then Returned (Inl (IoError UnexpectedEof ''not available bytes''))
      else Returned (Inr (raw_slice api self position d)))"
  using assms by (simp add: as_slice_def word_le_nat_alt add_op_exact unat_add_small)

lemma as_slice_Ok_cases:
  assumes "as_slice checks api self position dlen = Returned (Inr sl)"
  obtains len where "fa_metadata_len api self = Inr len" and "unat position < unat len"
    and "(dlen = None \<and> sl = raw_slice api self position (len - position)) \<or>
         (\<exists>d. dlen = Some d \<and> sl = raw_slice api self position d \<and> unat (position + d) < unat len \<and>
            (checks \<longrightarrow> unat position + unat d < 2 ^ 64))"
  using assms
  by (auto simp: as_slice_def exec_simps add_op_def sub_op_def word_le_nat_alt not_le
      split: sum.splits if_splits option.splits)

lemma as_slice_inside:
  assumes "as_slice checks api self position dlen = Returned (Inr sl)"
    and "fa_metadata_len api self = Inr len"
    and "checks \<or> unat position + unat (case dlen of None \<Rightarrow> 0 | Some d \<Rightarrow> d) < 2 ^ 64"
  shows "slice_position sl = position \<and> slice_fd sl = fa_raw_fd api self
       \<and> unat (slice_position sl) + unat (slice_len sl) \<le> unat len
       \<and> (dlen = None \<longrightarrow> \<not> AsyncFileSlice_is_empty sl
            \<and> unat (slice_position sl) + unat (slice_len sl) = unat len)"
proof (rule as_slice_Ok_cases [OF assms(1)])
  fix len'
  assume *: "fa_metadata_len api self = Inr len'" "unat position < unat len'"
    "(dlen = None \<and> sl = raw_slice api self position (len' - position)) \<or>
     (\<exists>d. dlen = Some d \<and> sl = raw_slice api self position d \<and> unat (position + d) < unat len' \<and>
        (checks \<longrightarrow> unat position + unat d < 2 ^ 64))"
  have len: "len' = len" using * assms(2) by simp
  from *(3) show ?thesis
  proof
    assume none: "dlen = None \<and> sl = raw_slice api self position (len' - position)"
    have "unat (len - position) = unat len - unat position"
      using *(2) len by (intro unat_sub_small) simp
    with none *(2) len show ?thesis
      by (auto simp: AsyncFileSlice_is_empty_def)
  next
    assume "\<exists>d. dlen = Some d \<and> sl = raw_slice api self position d \<and> unat (position + d) < unat len' \<and>
        (checks \<longrightarrow> unat position + unat d < 2 ^ 64)"
    then obtain d where d: "dlen = Some d" "sl = raw_slice api self position d"
      "unat (position + d) < unat len'" "checks \<longrightarrow> unat position + unat d < 2 ^ 64"
      by blast
    with assms(3) have "unat (position + d) = unat position + unat d"
      by (intro unat_add_small) auto
    with d len show ?thesis by simp
  qed
qed

section \<open>The end of the file\<close>

text \<open>
  The end test of \<open>as_slice\<close> is strict: a request for the last bytes of the file, ending exactly
  at its length, is refused with \<open>UnexpectedEof\<close> although the bytes are there; the same range is
  returned when no length is given.
\<close>

lemma as_slice_refuses_exact_end:
  assumes "fa_metadata_len api self = Inr len" and "unat position < unat len"
  shows "as_slice checks api self position (Some (len - position))
       = Returned (Inl (IoError UnexpectedEof ''not available bytes''))
       \<and> as_slice checks api self position None
       = Returned (Inr (raw_slice api self position (len - position)))"
proof -
  have d: "unat position + unat (len - position) = unat len"
    using assms(2) by (subst unat_sub_small) simp_all
  show ?thesis
    using as_slice_desired [OF assms, of "len - position"] as_slice_rest [OF assms] d u64_less [of len]
    by simp
qed

end
