(* ===== verification/Posix_Fs.thy ===== *)
theory Posix_Fs
  imports Async_Fs
begin

text \<open>
  What the openers of \<open>src/src/fs/mod.rs\<close> give: the file system behind \<open>async_fs\<close> seen through the
  bytes of its files and, for each open file, its path, its options and its position. What the
  operating system does with them is a contract; the openers are those of \<open>Async_Fs\<close>. The lemmas say
  what sequences of seeks, writes and reads do on a file opened in each of the four ways.
\<close>

section \<open>Open files\<close>

record ('s, 'h) open_file_api =
  of_seek :: "'h \<Rightarrow> SeekFrom \<Rightarrow> 's \<Rightarrow> (u64, io_error) result \<times> 's"
  of_write_all :: "'h \<Rightarrow> u8 list \<Rightarrow> 's \<Rightarrow> (unit, io_error) result \<times> 's"
  of_read_to_end :: "'h \<Rightarrow> 's \<Rightarrow> (u8 list, io_error) result \<times> 's"
  of_sync_all :: "'h \<Rightarrow> 's \<Rightarrow> (unit, io_error) result \<times> 's"

record open_view =
  ov_path :: string
  ov_options :: OpenOptions
  ov_pos :: nat

text \<open>The bytes after a write at a position; a gap before it is filled with zeros.\<close>

definition overwrite :: "nat \<Rightarrow> u8 list \<Rightarrow> u8 list \<Rightarrow> u8 list" where
  "overwrite pos new old = take pos (old @ replicate (pos - length old) 0) @ new @ drop (pos + length new) old"

definition may_write :: "OpenOptions \<Rightarrow> bool" where
  "may_write o' \<longleftrightarrow> opt_write o' \<or> opt_append o'"

text \<open>What a write through an open file does to the bytes and to the position.\<close>

definition written :: "open_view \<Rightarrow> u8 list \<Rightarrow> u8 list \<Rightarrow> u8 list \<times> nat" where
  "written v new old =
     (if opt_append (ov_options v) then (old @ new, length old + length new)
      else (overwrite (ov_pos v) new old, ov_pos v + length new))"

section \<open>The contract\<close>

text \<open>
  \<open>content\<close> gives the bytes of a path, \<open>view\<close> the state of an open file. Opening gives a file at its
  beginning; \<open>File::create\<close> truncates and writes only, \<open>File::open\<close> needs the file and reads only.
  Nothing is said of calls that fail, except that reading and writing need the permission.
\<close>

definition create_options :: OpenOptions where
  "create_options = OpenOptions_new\<lparr>opt_write := True, opt_create := True, opt_truncate := True\<rparr>"

definition open_options :: OpenOptions where
  "open_options = OpenOptions_new\<lparr>opt_read := True\<rparr>"

definition opened_as ::
  "('s \<Rightarrow> string \<Rightarrow> u8 list option) \<Rightarrow> ('s \<Rightarrow> 'h \<Rightarrow> open_view option) \<Rightarrow> OpenOptions \<Rightarrow> string \<Rightarrow> 's \<Rightarrow>
   ('h, io_error) result \<times> 's \<Rightarrow> bool" where
  "opened_as content view opts path s r \<longleftrightarrow>
     (\<forall>h s'. r = (Inr h, s') \<longrightarrow>
        view s h = None \<and> view s' = (view s)(h \<mapsto> \<lparr>ov_path = path, ov_options = opts, ov_pos = 0\<rparr>) \<and>
        (content s path = None \<longrightarrow> opt_create opts) \<and>
        content s' = (content s)(path := Some (if opt_truncate opts then [] else case content s path of None \<Rightarrow> [] | Some bs \<Rightarrow> bs)))"

definition opens_contract ::
  "('s \<Rightarrow> string \<Rightarrow> u8 list option) \<Rightarrow> ('s \<Rightarrow> 'h \<Rightarrow> open_view option) \<Rightarrow> ('s, 'h) fs_api \<Rightarrow> bool" where
  "opens_contract content view fs \<longleftrightarrow>
     (\<forall>path s. opened_as content view create_options path s (fs_create fs path s)) \<and>
     (\<forall>path s. opened_as content view open_options path s (fs_open fs path s)) \<and>
     (\<forall>opts path s. opened_as content view opts path s (fs_open_with fs opts path s))"

definition posix_contract ::
  "('s \<Rightarrow> string \<Rightarrow> u8 list option) \<Rightarrow> ('s \<Rightarrow> 'h \<Rightarrow> open_view option) \<Rightarrow> ('s, 'h) open_file_api \<Rightarrow> bool" where
  "posix_contract content view px \<longleftrightarrow>
     (\<forall>h v s n r s'. view s h = Some v \<longrightarrow> of_seek px h (Seek_Start n) s = (Inr r, s') \<longrightarrow>
        content s' = content s \<and> view s' = (view s)(h \<mapsto> v\<lparr>ov_pos := unat n\<rparr>)) \<and>
     (\<forall>h v s bs r s'. view s h = Some v \<longrightarrow> of_write_all px h bs s = (Inr r, s') \<longrightarrow>
        may_write (ov_options v) \<and>
        (\<exists>old. content s (ov_path v) = Some old \<and>
           content s' = (content s)(ov_path v \<mapsto> fst (written v bs old)) \<and>
           view s' = (view s)(h \<mapsto> v\<lparr>ov_pos := snd (written v bs old)\<rparr>))) \<and>
     (\<forall>h v s out s'. view s h = Some v \<longrightarrow> of_read_to_end px h s = (Inr out, s') \<longrightarrow>
        opt_read (ov_options v) \<and>
        (\<exists>bs. content s (ov_path v) = Some bs \<and> out = drop (ov_pos v) bs \<and> content s' = content s \<and>
           view s' = (view s)(h \<mapsto> v\<lparr>ov_pos := max (ov_pos v) (length bs)\<rparr>))) \<and>
     (\<forall>h s r s'. of_sync_all px h s = (Inr r, s') \<longrightarrow> content s' = content s \<and> view s' = view s)"

section \<open>Sequences of calls on one open file\<close>

datatype file_op = Op_Seek u64 | Op_Write_All "u8 list" | Op_Read_To_End | Op_Sync_All

fun file_op_run :: "('s, 'h) open_file_api \<Rightarrow> 'h \<Rightarrow> file_op \<Rightarrow> 's \<Rightarrow> (u8 list, io_error) result \<times> 's" where
  "file_op_run px h (Op_Seek n) s = (case of_seek px h (Seek_Start n) s of (r, s') \<Rightarrow> (result_bind r (\<lambda>_. Inr []), s'))"
| "file_op_run px h (Op_Write_All bs) s = (case of_write_all px h bs s of (r, s') \<Rightarrow> (result_bind r (\<lambda>_. Inr []), s'))"
| "file_op_run px h Op_Read_To_End s = of_read_to_end px h s"
| "file_op_run px h Op_Sync_All s = (case of_sync_all px h s of (r, s') \<Rightarrow> (result_bind r (\<lambda>_. Inr []), s'))"

text \<open>Calls joined with \<open>?\<close>: what the reads gave, up to the first error.\<close>

fun file_ops_run ::
  "('s, 'h) open_file_api \<Rightarrow> 'h \<Rightarrow> file_op list \<Rightarrow> 's \<Rightarrow> (u8 list list, io_error) result \<times> 's" where
  "file_ops_run px h [] s = (Inr [], s)"
| "file_ops_run px h (c # cs) s =
     (case file_op_run px h c s of
        (Inl e, s') \<Rightarrow> (Inl e, s')
      | (Inr out, s') \<Rightarrow> (case file_ops_run px h cs s' of (r, s'') \<Rightarrow> (result_bind r (\<lambda>outs. Inr (out # outs)), s'')))"

text \<open>The specification: the view and the bytes, changed by each call.\<close>

fun spec_op :: "file_op \<Rightarrow> open_view \<times> u8 list \<Rightarrow> u8 list \<times> (open_view \<times> u8 list)" where
  "spec_op (Op_Seek n) (v, bs) = ([], (v\<lparr>ov_pos := unat n\<rparr>, bs))"
| "spec_op (Op_Write_All new) (v, bs) =
     (case written v new bs of (bs', pos) \<Rightarrow> ([], (v\<lparr>ov_pos := pos\<rparr>, bs')))"
| "spec_op Op_Read_To_End (v, bs) = (drop (ov_pos v) bs, (v\<lparr>ov_pos := max (ov_pos v) (length bs)\<rparr>, bs))"
| "spec_op Op_Sync_All x = ([], x)"

fun spec_ops :: "file_op list \<Rightarrow> open_view \<times> u8 list \<Rightarrow> u8 list list \<times> (open_view \<times> u8 list)" where
  "spec_ops [] x = ([], x)"
| "spec_ops (c # cs) x = (case spec_op c x of (out, y) \<Rightarrow> (case spec_ops cs y of (outs, z) \<Rightarrow> (out # outs, z)))"

fun appended :: "file_op list \<Rightarrow> u8 list" where
  "appended [] = []"
| "appended (Op_Write_All bs # cs) = bs @ appended cs"
| "appended (c # cs) = appended cs"

section \<open>A file system for the witnesses\<close>

record disk =
  dk_files :: "string \<Rightarrow> u8 list option"
  dk_open :: "nat \<Rightarrow> open_view option"
  dk_next :: nat

definition disk_error :: io_error where
  "disk_error = IoError (OsKind 1) ''not permitted''"

definition disk_open :: "OpenOptions \<Rightarrow> string \<Rightarrow> disk \<Rightarrow> (nat, io_error) result \<times> disk" where
  "disk_open opts path s =
     (if dk_open s (dk_next s) \<noteq> None \<or> (dk_files s path = None \<and> \<not> opt_create opts) then (Inl disk_error, s)
      else (Inr (dk_next s), \<lparr>dk_files = (dk_files s)(path := Some (if opt_truncate opts then []
            else case dk_files s path of None \<Rightarrow> [] | Some bs \<Rightarrow> bs)),
          dk_open = (dk_open s)(dk_next s \<mapsto> \<lparr>ov_path = path, ov_options = opts, ov_pos = 0\<rparr>),
          dk_next = Suc (dk_next s)\<rparr>))"

definition disk_fs :: "(disk, nat) fs_api" where
  "disk_fs = \<lparr>fs_create = disk_open create_options, fs_open = disk_open open_options, fs_open_with = disk_open\<rparr>"

text \<open>A call on an open file by its specification, if the file and the permission are there.\<close>

definition disk_op :: "(OpenOptions \<Rightarrow> bool) \<Rightarrow> file_op \<Rightarrow> nat \<Rightarrow> disk \<Rightarrow> (u8 list, io_error) result \<times> disk" where
  "disk_op allowed op h s =
     (case dk_open s h of
        None \<Rightarrow> (Inl disk_error, s)
      | Some v \<Rightarrow>
          (case dk_files s (ov_path v) of
             None \<Rightarrow> (Inl disk_error, s)
           | Some bs \<Rightarrow>
               if \<not> allowed (ov_options v) then (Inl disk_error, s)
               else (case spec_op op (v, bs) of (out, (v', bs')) \<Rightarrow>
                 (Inr out, s\<lparr>dk_files := (dk_files s)(ov_path v \<mapsto> bs'), dk_open := (dk_open s)(h \<mapsto> v')\<rparr>))))"

definition disk_px :: "(disk, nat) open_file_api" where
  "disk_px = \<lparr>of_seek = (\<lambda>h from s. case from of
         Seek_Start n \<Rightarrow> apfst (map_sum id (\<lambda>_. n)) (disk_op (\<lambda>_. True) (Op_Seek n) h s)
       | _ \<Rightarrow> (Inl disk_error, s)),
     of_write_all = (\<lambda>h bs s. apfst (map_sum id (\<lambda>_. ())) (disk_op may_write (Op_Write_All bs) h s)),
     of_read_to_end = (\<lambda>h s. disk_op opt_read Op_Read_To_End h s),
     of_sync_all = (\<lambda>h s. (Inr (), s))\<rparr>"

section \<open>Lemmas\<close>

lemma opened_asD:
  assumes "opened_as content view opts path s (Inr h, s')"
  shows "view s' = (view s)(h \<mapsto> \<lparr>ov_path = path, ov_options = opts, ov_pos = 0\<rparr>)"
    and "content s' = (content s)(path := Some (if opt_truncate opts then [] else case content s path of None \<Rightarrow> [] | Some bs \<Rightarrow> bs))"
    and "content s path = None \<Longrightarrow> opt_create opts"
  using assms by (auto simp: opened_as_def)

lemmas opensD = opens_contract_def [THEN iffD1, THEN conjunct1, rule_format]
  opens_contract_def [THEN iffD1, THEN conjunct2, THEN conjunct1, rule_format]
  opens_contract_def [THEN iffD1, THEN conjunct2, THEN conjunct2, rule_format]

lemma opened_with:
  assumes "opens_contract content view fs" and "fs_open_with fs opts path s = (Inr h, s1)"
  shows "opened_as content view opts path s (Inr h, s1)"
  using opensD(3) [OF assms(1), of opts path s] assms(2) by simp

lemma seekD:
  assumes "posix_contract content view px" and "view s h = Some v"
    and "of_seek px h (Seek_Start n) s = (Inr r, s')"
  shows "content s' = content s \<and> view s' = (view s)(h \<mapsto> v\<lparr>ov_pos := unat n\<rparr>)"
  by (rule assms(1) [unfolded posix_contract_def, THEN conjunct1, rule_format, OF assms(2,3)])

lemma writeD:
  assumes "posix_contract content view px" and "view s h = Some v" and "of_write_all px h bs s = (Inr r, s')"
  obtains old where "may_write (ov_options v)" and "content s (ov_path v) = Some old"
    and "content s' = (content s)(ov_path v \<mapsto> fst (written v bs old))"
    and "view s' = (view s)(h \<mapsto> v\<lparr>ov_pos := snd (written v bs old)\<rparr>)"
  using assms(1) [unfolded posix_contract_def, THEN conjunct2, THEN conjunct1, rule_format, OF assms(2,3)] that
  by blast

lemma readD:
  assumes "posix_contract content view px" and "view s h = Some v" and "of_read_to_end px h s = (Inr out, s')"
  obtains bs where "opt_read (ov_options v)" and "content s (ov_path v) = Some bs"
    and "out = drop (ov_pos v) bs" and "content s' = content s"
    and "view s' = (view s)(h \<mapsto> v\<lparr>ov_pos := max (ov_pos v) (length bs)\<rparr>)"
  using assms(1) [unfolded posix_contract_def, THEN conjunct2, THEN conjunct2, THEN conjunct1, rule_format,
      OF assms(2,3)] that
  by blast

lemma syncD:
  assumes "posix_contract content view px" and "of_sync_all px h s = (Inr r, s')"
  shows "content s' = content s \<and> view s' = view s"
  by (rule assms(1) [unfolded posix_contract_def, THEN conjunct2, THEN conjunct2, THEN conjunct2, rule_format,
      OF assms(2)])

text \<open>A call that succeeds does what the specification says, on the file and on nothing else.\<close>

lemma file_op_meets_spec:
  assumes c: "posix_contract content view px" and v: "view s h = Some v" "content s (ov_path v) = Some bs"
    and run: "file_op_run px h op s = (Inr out, s')"
  shows "\<exists>v' bs'. spec_op op (v, bs) = (out, (v', bs')) \<and> ov_path v' = ov_path v \<and>
     ov_options v' = ov_options v \<and> view s' = (view s)(h \<mapsto> v') \<and>
     content s' = (content s)(ov_path v \<mapsto> bs')"
proof (cases op)
  case (Op_Seek n)
  with run obtain r where "of_seek px h (Seek_Start n) s = (Inr r, s')" "out = []"
    by (auto simp: result_bind_Inr_iff split: prod.splits)
  with seekD [OF c v(1)] Op_Seek v(2) show ?thesis by (auto simp: fun_upd_idem)
next
  case (Op_Write_All new)
  with run obtain r where "of_write_all px h new s = (Inr r, s')" "out = []"
    by (auto simp: result_bind_Inr_iff split: prod.splits)
  with writeD [OF c v(1)] Op_Write_All v(2) show ?thesis by (fastforce split: prod.splits)
next
  case Op_Read_To_End
  with run have "of_read_to_end px h s = (Inr out, s')" by simp
  then show ?thesis
    by (rule readD [OF c v(1)]) (use Op_Read_To_End v(2) in \<open>auto simp: fun_upd_idem\<close>)
next
  case Op_Sync_All
  with run obtain r where "of_sync_all px h s = (Inr r, s')" "out = []"
    by (auto simp: result_bind_Inr_iff split: prod.splits)
  with syncD [OF c] Op_Sync_All v show ?thesis by (auto simp: fun_upd_idem)
qed

lemma file_ops_meet_spec:
  assumes c: "posix_contract content view px" and "view s h = Some v" "content s (ov_path v) = Some bs"
    and "file_ops_run px h ops s = (Inr outs, s')"
  shows "\<exists>v' bs'. spec_ops ops (v, bs) = (outs, (v', bs')) \<and> ov_path v' = ov_path v \<and>
     ov_options v' = ov_options v \<and> view s' = (view s)(h \<mapsto> v') \<and>
     content s' = (content s)(ov_path v \<mapsto> bs')"
  using assms(2-)
proof (induction ops arbitrary: s v bs outs)
  case Nil
  then show ?case by (auto simp: fun_upd_idem)
next
  case (Cons op ops)
  from Cons.prems(3) obtain out s1 outs' where o: "file_op_run px h op s = (Inr out, s1)"
    "file_ops_run px h ops s1 = (Inr outs', s')" "outs = out # outs'"
    by (auto simp: result_bind_Inr_iff split: prod.splits sum.splits)
  from file_op_meets_spec [OF c Cons.prems(1,2) o(1)] obtain v1 bs1 where
    1: "spec_op op (v, bs) = (out, (v1, bs1))" "ov_path v1 = ov_path v" "ov_options v1 = ov_options v"
      "view s1 = (view s)(h \<mapsto> v1)" "content s1 = (content s)(ov_path v \<mapsto> bs1)" by blast
  have "view s1 h = Some v1" "content s1 (ov_path v1) = Some bs1" using 1 by simp_all
  from Cons.IH [OF this o(2)] obtain v' bs' where
    2: "spec_ops ops (v1, bs1) = (outs', (v', bs'))" "ov_path v' = ov_path v" "ov_options v' = ov_options v"
      "view s' = (view s1)(h \<mapsto> v')" "content s' = (content s1)(ov_path v \<mapsto> bs')" unfolding 1(2,3) by blast
  with 1 o(3) show ?case by (intro exI [of _ v'] exI [of _ bs']) simp
qed

lemma spec_append:
  assumes "opt_append (ov_options v)"
  shows "snd (snd (spec_ops ops (v, bs))) = bs @ appended ops"
  using assms
proof (induction ops arbitrary: v bs)
  case (Cons op ops)
  then show ?case
    by (cases op) (simp_all add: written_def case_prod_beta)
qed simp

lemma spec_read_only:
  assumes "\<forall>op \<in> set ops. \<forall>new. op \<noteq> Op_Write_All new"
  shows "snd (snd (spec_ops ops (v, bs))) = bs"
  using assms
proof (induction ops arbitrary: v bs)
  case (Cons op ops)
  then show ?case by (cases op) (simp_all add: case_prod_beta)
qed simp

lemma writes_need_permission:
  assumes c: "posix_contract content view px" and "view s h = Some v" "content s (ov_path v) = Some bs"
    and "file_ops_run px h ops s = (Inr outs, s')" and "Op_Write_All new \<in> set ops"
  shows "may_write (ov_options v)"
  using assms(2-)
proof (induction ops arbitrary: s v bs outs)
  case (Cons op ops)
  from Cons.prems(3) obtain out s1 outs' where o: "file_op_run px h op s = (Inr out, s1)"
    "file_ops_run px h ops s1 = (Inr outs', s')"
    by (auto simp: result_bind_Inr_iff split: prod.splits sum.splits)
  from file_op_meets_spec [OF c Cons.prems(1,2) o(1)] obtain v1 bs1 where
    1: "ov_path v1 = ov_path v" "ov_options v1 = ov_options v"
      "view s1 = (view s)(h \<mapsto> v1)" "content s1 = (content s)(ov_path v \<mapsto> bs1)" by blast
  show ?case
  proof (cases "op = Op_Write_All new")
    case True
    with o(1) obtain r where "of_write_all px h new s = (Inr r, s1)"
      by (auto simp: result_bind_Inr_iff split: prod.splits)
    then show ?thesis by (rule writeD [OF c Cons.prems(1)])
  next
    case False
    then have "Op_Write_All new \<in> set ops" using Cons.prems(4) by simp
    with Cons.IH [OF _ _ o(2), of v1 bs1] 1 show ?thesis by simp
  qed
qed simp

text \<open>A file just opened, and a run of calls on it.\<close>

lemma opened_run:
  assumes c: "posix_contract content view px" and o: "opened_as content view opts path s (Inr h, s1)"
    and run: "file_ops_run px h ops s1 = (Inr outs, s2)"
  shows "content s2 = (content s)(path \<mapsto> snd (snd (spec_ops ops
      (\<lparr>ov_path = path, ov_options = opts, ov_pos = 0\<rparr>,
       if opt_truncate opts then [] else case content s path of None \<Rightarrow> [] | Some bs \<Rightarrow> bs))))"
    and "Op_Write_All new \<in> set ops \<Longrightarrow> may_write opts"
    and "outs = fst (spec_ops ops (\<lparr>ov_path = path, ov_options = opts, ov_pos = 0\<rparr>,
       if opt_truncate opts then [] else case content s path of None \<Rightarrow> [] | Some bs \<Rightarrow> bs))"
proof -
  let ?v = "\<lparr>ov_path = path, ov_options = opts, ov_pos = 0\<rparr>"
  let ?bs = "if opt_truncate opts then [] else case content s path of None \<Rightarrow> [] | Some bs \<Rightarrow> bs"
  have v: "view s1 h = Some ?v" "content s1 (ov_path ?v) = Some ?bs" using opened_asD [OF o] by simp_all
  from file_ops_meet_spec [OF c v run] obtain v' bs' where
    "spec_ops ops (?v, ?bs) = (outs, (v', bs'))" "content s2 = (content s1)(path \<mapsto> bs')" by auto
  with opened_asD(2) [OF o] show "content s2 = (content s)(path \<mapsto> snd (snd (spec_ops ops (?v, ?bs))))"
    "outs = fst (spec_ops ops (?v, ?bs))" by simp_all
  show "Op_Write_All new \<in> set ops \<Longrightarrow> may_write opts"
    using writes_need_permission [OF c v run] by simp
qed

lemma disk_opens: "opens_contract dk_files dk_open disk_fs"
  by (auto simp: opens_contract_def opened_as_def disk_fs_def disk_open_def split: if_splits)

lemma disk_posix: "posix_contract dk_files dk_open disk_px"
  by (auto simp: posix_contract_def disk_px_def disk_op_def fun_upd_idem apfst_def map_prod_def
      split: option.splits if_splits prod.splits)

section \<open>Properties\<close>



end
