(* ===== verification/Bounded_File.thy ===== *)
theory Bounded_File
  imports Async_Fs
begin

text \<open>
  \<open>src/src/fs/bounded.rs\<close>: \<open>BoundedFileSink\<close>, a file that counts the bytes written through it. The
  sink is a record around the package's file; its three openers, its queries and its
  \<open>AsyncWrite\<close> methods are definitions, with the overflow of the counter as a panic. The refinement
  lemmas relate the counter to the bytes that the file behind it has taken over any sequence of calls,
  and to those on disk after a clean flush.
\<close>

section \<open>Data\<close>

datatype BoundedFileSinkError = Sink_IoError io_error | Sink_MaxLenReached

definition BoundedFileSinkError_fmt :: "BoundedFileSinkError \<Rightarrow> string" where
  "BoundedFileSinkError_fmt self =
     (case self of Sink_IoError err \<Rightarrow> message err | Sink_MaxLenReached \<Rightarrow> ''max len reached'')"

definition BoundedFileSinkError_from :: "io_error \<Rightarrow> BoundedFileSinkError" where
  "BoundedFileSinkError_from err = Sink_IoError err"

record BoundedFileOption =
  max_len :: "u64 option"

definition BoundedFileOption_default :: BoundedFileOption where
  "BoundedFileOption_default = \<lparr>max_len = None\<rparr>"

record 'f BoundedFileSink =
  sink_option :: BoundedFileOption
  current_len :: u64
  writer :: 'f
  sink_path :: string

section \<open>Opening\<close>

definition sink_create ::
  "('s, 'f) fs_api \<Rightarrow> string \<Rightarrow> BoundedFileOption \<Rightarrow> 's \<Rightarrow> ('f BoundedFileSink, io_error) result \<times> 's"
  where
  "sink_create fs path opt s =
     (case fs_create fs path s of
        (Inl e, s') \<Rightarrow> (Inl e, s')
      | (Inr w, s') \<Rightarrow>
          (Inr \<lparr>sink_option = opt, current_len = 0, writer = w, sink_path = path\<rparr>, s'))"

definition sink_of_opened ::
  "'f file_api \<Rightarrow> string \<Rightarrow> BoundedFileOption \<Rightarrow> ('f, io_error) result \<times> 's \<Rightarrow>
   ('f BoundedFileSink, io_error) result \<times> 's" where
  "sink_of_opened api path opt opened =
     (case opened of
        (Inl e, s') \<Rightarrow> (Inl e, s')
      | (Inr w, s') \<Rightarrow>
          (case fa_metadata_len api w of
             Inl e \<Rightarrow> (Inl e, s')
           | Inr len \<Rightarrow>
               (Inr \<lparr>sink_option = opt, current_len = len, writer = w, sink_path = path\<rparr>, s')))"

definition sink_open_write ::
  "('s, 'f) fs_api \<Rightarrow> 'f file_api \<Rightarrow> string \<Rightarrow> BoundedFileOption \<Rightarrow> 's \<Rightarrow>
   ('f BoundedFileSink, io_error) result \<times> 's" where
  "sink_open_write fs api path opt s = sink_of_opened api path opt (fs_open fs path s)"

definition sink_open_append ::
  "('s, 'f) fs_api \<Rightarrow> 'f file_api \<Rightarrow> string \<Rightarrow> BoundedFileOption \<Rightarrow> 's \<Rightarrow>
   ('f BoundedFileSink, io_error) result \<times> 's" where
  "sink_open_append fs api path opt s =
     sink_of_opened api path opt (util_open_read_append fs path s)"

section \<open>Queries\<close>

definition get_current_len :: "'f BoundedFileSink \<Rightarrow> u64" where
  "get_current_len self = current_len self"

definition can_be_appended :: "bool \<Rightarrow> 'f BoundedFileSink \<Rightarrow> u64 \<Rightarrow> bool exec" where
  "can_be_appended checks self buf_len =
     (case max_len (sink_option self) of
        Some m \<Rightarrow> exec_bind (add_op checks (current_len self) buf_len) (\<lambda>x. Returned (x \<le> m))
      | None \<Rightarrow> Returned True)"

definition get_path :: "'f BoundedFileSink \<Rightarrow> string" where
  "get_path self = sink_path self"

definition sink_inner :: "'f BoundedFileSink \<Rightarrow> 'f" where
  "sink_inner self = writer self"

text \<open>\<open>mut_inner\<close> lends the file out: what its caller does to it does not pass through the counter.\<close>

definition sink_mut_inner :: "('f \<Rightarrow> 'f) \<Rightarrow> 'f BoundedFileSink \<Rightarrow> 'f BoundedFileSink" where
  "sink_mut_inner use self = self\<lparr>writer := use (writer self)\<rparr>"

definition slice_from ::
  "'f file_api \<Rightarrow> 'f BoundedFileSink \<Rightarrow> u64 \<Rightarrow> u64 \<Rightarrow> (AsyncFileSlice, io_error) result" where
  "slice_from api self position len = Inr (raw_slice api (writer self) position len)"

section \<open>AsyncWrite\<close>

definition sink_poll_write ::
  "bool \<Rightarrow> 'f file_api \<Rightarrow> u8 list \<Rightarrow> 'f BoundedFileSink \<Rightarrow>
   (usize, io_error) result poll exec \<times> 'f BoundedFileSink" where
  "sink_poll_write checks api buf self =
     (case fa_poll_write api buf (writer self) of
        (Pending, w) \<Rightarrow> (Returned Pending, self\<lparr>writer := w\<rparr>)
      | (Ready (Inr n), w) \<Rightarrow>
          (case add_op checks (current_len self) n of
             Panicked \<Rightarrow> (Panicked, self\<lparr>writer := w\<rparr>)
           | Returned len \<Rightarrow>
               (Returned (Ready (Inr n)), self\<lparr>writer := w, current_len := len\<rparr>))
      | (Ready (Inl err), w) \<Rightarrow> (Returned (Ready (Inl err)), self\<lparr>writer := w\<rparr>))"

definition sink_poll_flush ::
  "'f file_api \<Rightarrow> 'f BoundedFileSink \<Rightarrow> (unit, io_error) result poll \<times> 'f BoundedFileSink" where
  "sink_poll_flush api self =
     (let (r, w) = fa_poll_flush api (writer self) in (r, self\<lparr>writer := w\<rparr>))"

definition sink_poll_close ::
  "'f file_api \<Rightarrow> 'f BoundedFileSink \<Rightarrow> (unit, io_error) result poll \<times> 'f BoundedFileSink" where
  "sink_poll_close api self =
     (let (r, w) = fa_poll_close api (writer self) in (r, self\<lparr>writer := w\<rparr>))"

section \<open>Sequences of calls\<close>

text \<open>\<open>None\<close> is a panic; the results of the single calls do not influence the next ones.\<close>

datatype sink_op = Op_Write "u8 list" | Op_Flush | Op_Close

definition sink_step ::
  "bool \<Rightarrow> 'f file_api \<Rightarrow> sink_op \<Rightarrow> 'f BoundedFileSink \<Rightarrow> 'f BoundedFileSink option" where
  "sink_step checks api op self =
     (case op of
        Op_Write buf \<Rightarrow>
          (case sink_poll_write checks api buf self of
             (Panicked, _) \<Rightarrow> None
           | (Returned _, self') \<Rightarrow> Some self')
      | Op_Flush \<Rightarrow> Some (snd (sink_poll_flush api self))
      | Op_Close \<Rightarrow> Some (snd (sink_poll_close api self)))"

fun sink_run ::
  "bool \<Rightarrow> 'f file_api \<Rightarrow> sink_op list \<Rightarrow> 'f BoundedFileSink \<Rightarrow> 'f BoundedFileSink option" where
  "sink_run checks api [] self = Some self"
| "sink_run checks api (op # ops) self =
     (case sink_step checks api op self of None \<Rightarrow> None | Some self' \<Rightarrow> sink_run checks api ops self')"

fun op_size :: "sink_op \<Rightarrow> nat" where
  "op_size (Op_Write buf) = length buf"
| "op_size Op_Flush = 0"
| "op_size Op_Close = 0"

text \<open>The refinement relation: the counter is the number of bytes in the file with those taken for it.\<close>

definition sink_counts :: "('f \<Rightarrow> u8 list) \<Rightarrow> 'f BoundedFileSink \<Rightarrow> bool" where
  "sink_counts bytes self \<longleftrightarrow> unat (current_len self) = length (bytes (writer self))"

text \<open>Sequences in which no call reports an error.\<close>

definition step_clean :: "bool \<Rightarrow> 'f file_api \<Rightarrow> sink_op \<Rightarrow> 'f BoundedFileSink \<Rightarrow> bool" where
  "step_clean checks api op self =
     (case op of
        Op_Write buf \<Rightarrow> (case fst (sink_poll_write checks api buf self) of Returned (Ready (Inl _)) \<Rightarrow> False | _ \<Rightarrow> True)
      | Op_Flush \<Rightarrow> (case fst (sink_poll_flush api self) of Ready (Inl _) \<Rightarrow> False | _ \<Rightarrow> True)
      | Op_Close \<Rightarrow> (case fst (sink_poll_close api self) of Ready (Inl _) \<Rightarrow> False | _ \<Rightarrow> True))"

fun run_clean :: "bool \<Rightarrow> 'f file_api \<Rightarrow> sink_op list \<Rightarrow> 'f BoundedFileSink \<Rightarrow> bool" where
  "run_clean checks api [] self = True"
| "run_clean checks api (op # ops) self = (step_clean checks api op self \<and>
     (case sink_step checks api op self of None \<Rightarrow> True | Some self' \<Rightarrow> run_clean checks api ops self'))"

text \<open>A caller that asks \<open>can_be_appended\<close> first, and writes only when the answer is yes.\<close>

definition guarded_write ::
  "bool \<Rightarrow> 'f file_api \<Rightarrow> u8 list \<Rightarrow> 'f BoundedFileSink \<Rightarrow> 'f BoundedFileSink option" where
  "guarded_write checks api buf self =
     (case can_be_appended checks self (of_nat (length buf)) of
        Panicked \<Rightarrow> None
      | Returned ok \<Rightarrow> if ok then sink_step checks api (Op_Write buf) self else Some self)"

fun guarded_run ::
  "bool \<Rightarrow> 'f file_api \<Rightarrow> u8 list list \<Rightarrow> 'f BoundedFileSink \<Rightarrow> 'f BoundedFileSink option" where
  "guarded_run checks api [] self = Some self"
| "guarded_run checks api (b # bs) self =
     (case guarded_write checks api b self of
        None \<Rightarrow> None | Some self' \<Rightarrow> guarded_run checks api bs self')"

section \<open>A sink for the witnesses\<close>

definition mem_sink :: "u64 option \<Rightarrow> u8 list \<Rightarrow> u8 list BoundedFileSink" where
  "mem_sink m bs = \<lparr>sink_option = \<lparr>max_len = m\<rparr>, current_len = of_nat (length bs), writer = bs,
     sink_path = ''file''\<rparr>"

definition buf_sink :: "u8 list \<times> u8 list \<Rightarrow> (u8 list \<times> u8 list) BoundedFileSink" where
  "buf_sink f = \<lparr>sink_option = \<lparr>max_len = None\<rparr>, current_len = of_nat (length (fst f)), writer = f,
     sink_path = ''file''\<rparr>"

section \<open>Lemmas\<close>

lemma sink_step_write:
  assumes fc: "file_contract bytes disk api" and sc: "sink_counts bytes self"
    and fits: "unat (current_len self) + length buf < 2 ^ 64"
  shows "\<exists>self'. sink_step checks api (Op_Write buf) self = Some self' \<and> sink_counts bytes self' \<and>
     sink_option self' = sink_option self \<and> sink_path self' = sink_path self \<and>
     (\<exists>n \<le> length buf. bytes (writer self') = bytes (writer self) @ take n buf)"
proof -
  obtain r w where w: "fa_poll_write api buf (writer self) = (r, w)" by fastforce
  note spec = file_contract_write [OF fc w]
  show ?thesis
  proof (cases "\<exists>n. r = Ready (Inr n)")
    case True
    then obtain n where r: "r = Ready (Inr n)" by blast
    with spec have n: "unat n \<le> length buf" "bytes w = bytes (writer self) @ take (unat n) buf"
      by auto
    have small: "unat (current_len self) + unat n < 2 ^ 64" using n(1) fits by simp
    then have "add_op checks (current_len self) n = Returned (current_len self + n)"
      by (simp add: add_op_exact)
    then show ?thesis
      using w r n sc unat_add_small [of "current_len self" n] small
      by (auto simp: sink_step_def sink_poll_write_def sink_counts_def)
  next
    case False
    with spec have b: "bytes w = bytes (writer self)"
      by (auto split: poll.splits sum.splits)
    have step: "sink_step checks api (Op_Write buf) self = Some (self\<lparr>writer := w\<rparr>)"
      using False w
      by (auto simp: sink_step_def sink_poll_write_def split: poll.splits sum.splits)
    show ?thesis
      using step b sc by (intro exI [of _ "self\<lparr>writer := w\<rparr>"]) (auto simp: sink_counts_def)
  qed
qed

lemma sink_step_ok:
  assumes fc: "file_contract bytes disk api" and sc: "sink_counts bytes self"
    and fits: "unat (current_len self) + op_size op < 2 ^ 64"
  shows "\<exists>self'. sink_step checks api op self = Some self' \<and> sink_counts bytes self' \<and>
     sink_option self' = sink_option self \<and> sink_path self' = sink_path self \<and>
     unat (current_len self') \<le> unat (current_len self) + op_size op \<and>
     (\<exists>ext. bytes (writer self') = bytes (writer self) @ ext)"
proof (cases op)
  case (Op_Write buf)
  then obtain self' n where s: "sink_step checks api (Op_Write buf) self = Some self'"
    "sink_counts bytes self'" "sink_option self' = sink_option self"
    "sink_path self' = sink_path self" "bytes (writer self') = bytes (writer self) @ take n buf"
    "n \<le> length buf"
    using sink_step_write [OF fc sc, of buf checks] fits by auto
  with sc Op_Write show ?thesis by (auto simp: sink_counts_def)
next
  case Op_Flush
  then show ?thesis
    using fc sc by (simp add: sink_step_def sink_poll_flush_def sink_counts_def file_contract_def
        case_prod_beta)
next
  case Op_Close
  then show ?thesis
    using fc sc by (simp add: sink_step_def sink_poll_close_def sink_counts_def file_contract_def
        case_prod_beta)
qed

lemma sink_run_ok:
  assumes fc: "file_contract bytes disk api" and "sink_counts bytes self"
    and "unat (current_len self) + sum_list (map op_size ops) < 2 ^ 64"
  shows "\<exists>self'. sink_run checks api ops self = Some self' \<and> sink_counts bytes self' \<and>
     sink_option self' = sink_option self \<and> sink_path self' = sink_path self \<and>
     unat (current_len self') \<le> unat (current_len self) + sum_list (map op_size ops) \<and>
     (\<exists>ext. bytes (writer self') = bytes (writer self) @ ext)"
  using assms(2,3)
proof (induction ops arbitrary: self)
  case Nil
  then show ?case by simp
next
  case (Cons op ops)
  obtain s1 where s1: "sink_step checks api op self = Some s1" "sink_counts bytes s1"
    "sink_option s1 = sink_option self" "sink_path s1 = sink_path self"
    "unat (current_len s1) \<le> unat (current_len self) + op_size op"
    "\<exists>ext. bytes (writer s1) = bytes (writer self) @ ext"
    using sink_step_ok [OF fc Cons.prems(1), of op checks] Cons.prems(2) by auto
  with Cons.prems(2) have "unat (current_len s1) + sum_list (map op_size ops) < 2 ^ 64"
    by simp
  from Cons.IH [OF s1(2) this] s1 show ?case by auto
qed

lemma sink_open_append_settled:
  assumes "file_contract bytes disk api" and "opens_settled bytes disk fs"
    and "sink_open_append fs api path opt s = (Inr self, s')"
  shows "sink_counts bytes self \<and> sink_option self = opt \<and> sink_path self = path \<and>
     disk (writer self) = bytes (writer self)"
  using assms
  by (fastforce simp: sink_open_append_def sink_of_opened_def util_open_read_append_def sink_counts_def
      file_contract_def opens_settled_def split: prod.splits sum.splits)

lemma step_clean_intact:
  assumes "flush_contract intact bytes disk api" and "intact (writer self)" and "step_clean checks api op self"
    and "sink_step checks api op self = Some self'"
  shows "intact (writer self')"
proof (cases op)
  case (Op_Write buf)
  obtain r w where w: "fa_poll_write api buf (writer self) = (r, w)" by fastforce
  with Op_Write assms(3,4) have "\<forall>e. r \<noteq> Ready (Inl e)" "writer self' = w"
    by (auto simp: step_clean_def sink_step_def sink_poll_write_def split: poll.splits sum.splits exec.splits)
  with w assms(1,2) show ?thesis unfolding flush_contract_def by blast
next
  case Op_Flush
  obtain r w where w: "fa_poll_flush api (writer self) = (r, w)" by fastforce
  with Op_Flush assms(3,4) have "\<forall>e. r \<noteq> Ready (Inl e)" "writer self' = w"
    by (auto simp: step_clean_def sink_step_def sink_poll_flush_def)
  with w assms(1,2) show ?thesis unfolding flush_contract_def by blast
next
  case Op_Close
  obtain r w where w: "fa_poll_close api (writer self) = (r, w)" by fastforce
  with Op_Close assms(3,4) have "\<forall>e. r \<noteq> Ready (Inl e)" "writer self' = w"
    by (auto simp: step_clean_def sink_step_def sink_poll_close_def)
  with w assms(1,2) show ?thesis unfolding flush_contract_def by blast
qed

lemma run_clean_intact:
  assumes "flush_contract intact bytes disk api" and "intact (writer self)" and "run_clean checks api ops self"
    and "sink_run checks api ops self = Some self'"
  shows "intact (writer self')"
  using assms(2-4)
proof (induction ops arbitrary: self)
  case (Cons op ops)
  then obtain s1 where "sink_step checks api op self = Some s1" "sink_run checks api ops s1 = Some self'"
    by (auto split: option.splits)
  with Cons step_clean_intact [OF assms(1), of self checks op s1] show ?case by simp
qed simp

lemma run_clean_flushed:
  assumes "file_contract bytes disk api" and "flush_contract intact bytes disk api" and "intact (writer self)"
    and "run_clean checks api ops self" and "sink_run checks api ops self = Some self'"
    and "sink_poll_flush api self' = (Ready (Inr ()), self'')"
  shows "disk (writer self'') = bytes (writer self') \<and> current_len self'' = current_len self'"
proof -
  obtain w where w: "fa_poll_flush api (writer self') = (Ready (Inr ()), w)" "self'' = self'\<lparr>writer := w\<rparr>"
    using assms(6) by (auto simp: sink_poll_flush_def split: prod.splits)
  have "bytes (snd (fa_poll_flush api (writer self'))) = bytes (writer self')"
    using assms(1) by (simp only: file_contract_def)
  moreover have "disk w = bytes w"
    using assms(2) w(1) run_clean_intact [OF assms(2-5)] unfolding flush_contract_def by blast
  ultimately show ?thesis using w by simp
qed

lemma mem_sink_counts: "length bs < 2 ^ 64 \<Longrightarrow> sink_counts (\<lambda>f. f) (mem_sink m bs)"
  by (simp add: sink_counts_def mem_sink_def unat_of_nat)

lemma can_be_appended_exact:
  assumes "unat (current_len self) + unat n < 2 ^ 64"
  shows "can_be_appended checks self n =
     Returned (case max_len (sink_option self) of
                 None \<Rightarrow> True | Some m \<Rightarrow> unat (current_len self) + unat n \<le> unat m)"
  using assms
  by (auto simp: can_be_appended_def add_op_exact word_le_nat_alt unat_add_small split: option.split)

lemma guarded_write_ok:
  assumes fc: "file_contract bytes disk api" and sc: "sink_counts bytes self"
    and m: "max_len (sink_option self) = Some m" "unat (current_len self) \<le> unat m"
    and fits: "unat m + length buf < 2 ^ 64"
  shows "\<exists>self'. guarded_write checks api buf self = Some self' \<and> sink_counts bytes self' \<and>
     sink_option self' = sink_option self \<and> unat (current_len self') \<le> unat m"
proof -
  have len: "unat (of_nat (length buf) :: u64) = length buf"
    using fits by (simp add: unat_of_nat)
  have ok: "can_be_appended checks self (of_nat (length buf))
      = Returned (unat (current_len self) + length buf \<le> unat m)"
    using can_be_appended_exact [of self "of_nat (length buf)" checks] fits m by (simp add: len)
  show ?thesis
  proof (cases "unat (current_len self) + length buf \<le> unat m")
    case False
    with ok sc m show ?thesis by (simp add: guarded_write_def)
  next
    case True
    obtain self' where "sink_step checks api (Op_Write buf) self = Some self'"
      "sink_counts bytes self'" "sink_option self' = sink_option self"
      "unat (current_len self') \<le> unat (current_len self) + length buf"
      using sink_step_ok [OF fc sc, of "Op_Write buf" checks] fits m(2) by auto
    with True ok show ?thesis by (auto simp: guarded_write_def)
  qed
qed

lemma guarded_run_ok:
  assumes fc: "file_contract bytes disk api" and "sink_counts bytes self"
    and "max_len (sink_option self) = Some m" and "unat (current_len self) \<le> unat m"
    and "\<And>b. b \<in> set bs \<Longrightarrow> unat m + length b < 2 ^ 64"
  shows "\<exists>self'. guarded_run checks api bs self = Some self' \<and> sink_counts bytes self' \<and>
     unat (current_len self') \<le> unat m"
  using assms(2-5)
proof (induction bs arbitrary: self)
  case (Cons b bs)
  then obtain s1 where "guarded_write checks api b self = Some s1" "sink_counts bytes s1"
    "sink_option s1 = sink_option self" "unat (current_len s1) \<le> unat m"
    using guarded_write_ok [OF fc Cons.prems(1-3), of b checks] by auto
  with Cons show ?case by simp
qed simp

section \<open>Properties\<close>

text \<open>
  C23. A sink made by \<open>open_append\<close> counts faithfully: after any sequence of writes, flushes and
  closes, whatever each of them returned, no call has panicked, and \<open>get_current_len\<close> is the number of bytes
  of the file at its opening with all that the writes have reported as taken, as long as the total stays
  below \<open>2 ^ 64\<close>. The file buffers, so that these need not be on disk; but when none of the calls
  reported an error and a flush then succeeds, the counter is the number of bytes on disk.
\<close>

theorem sink_open_append_counts:
  assumes "file_contract bytes disk api" and "opens_settled bytes disk fs" and "flush_contract intact bytes disk api"
    and "sink_open_append fs api path opt s = (Inr self, s')"
    and "unat (get_current_len self) + sum_list (map op_size ops) < 2 ^ 64"
  shows "\<exists>self'. sink_run checks api ops self = Some self' \<and> sink_option self' = opt \<and> get_path self' = path \<and>
     (\<exists>taken. bytes (sink_inner self') = disk (sink_inner self) @ taken) \<and>
     unat (get_current_len self') = length (bytes (sink_inner self')) \<and>
     (\<forall>self''. run_clean checks api ops self \<and> sink_poll_flush api self' = (Ready (Inr ()), self'') \<longrightarrow>
        get_current_len self'' = get_current_len self' \<and>
        unat (get_current_len self'') = length (disk (sink_inner self'')))"
proof -
  note opened = sink_open_append_settled [OF assms(1,2,4)]
  obtain self' where run: "sink_run checks api ops self = Some self'" and c: "sink_counts bytes self'"
    and same: "sink_option self' = opt" "sink_path self' = path"
    and ext: "\<exists>ext. bytes (writer self') = bytes (writer self) @ ext"
    using sink_run_ok [OF assms(1) _ assms(5) [unfolded get_current_len_def], of checks] opened by blast
  have intact: "intact (writer self)" using opened assms(3) unfolding flush_contract_def by blast
  have flushed: "disk (writer self'') = bytes (writer self') \<and> current_len self'' = current_len self'"
    if "run_clean checks api ops self" "sink_poll_flush api self' = (Ready (Inr ()), self'')" for self''
    by (rule run_clean_flushed [OF assms(1,3) intact that(1) run that(2)])
  show ?thesis
    unfolding get_current_len_def get_path_def sink_inner_def
  proof (intro exI [of _ self'] conjI allI impI run same)
    show "\<exists>taken. bytes (writer self') = disk (writer self) @ taken" using ext opened by simp
    show "unat (current_len self') = length (bytes (writer self'))" using c by (simp add: sink_counts_def)
  qed (use flushed c in \<open>auto simp: sink_counts_def\<close>)
qed

theorem sink_open_append_counts_witness:
  "\<exists>self' self''. sink_run True buf_file [Op_Write [1, 2], Op_Flush, Op_Write [1, 2, 3, 4, 5, 6]]
       (buf_sink ([9, 9, 9], [])) = Some self' \<and>
     unat (get_current_len self') = length (buf_bytes (sink_inner self')) \<and> length (fst (sink_inner self')) = 5 \<and>
     sink_poll_flush buf_file self' = (Ready (Inr ()), self'') \<and> length (fst (sink_inner self'')) = 9"
proof -
  let ?ops = "[Op_Write [1, 2], Op_Flush, Op_Write [1, 2, 3, 4, 5, 6]]"
  let ?self' = "(buf_sink ([9, 9, 9, 1, 2], [1, 2, 3, 4]))\<lparr>current_len := 9\<rparr>"
  let ?self'' = "?self'\<lparr>writer := ([9, 9, 9, 1, 2, 1, 2, 3, 4], [])\<rparr>"
  have opened: "sink_open_append buf_fs buf_file ''file'' \<lparr>max_len = None\<rparr> [9, 9, 9]
      = (Inr (buf_sink ([9, 9, 9], [])), [9, 9, 9])"
    by (simp add: sink_open_append_def sink_of_opened_def util_open_read_append_def buf_fs_def buf_file_def buf_sink_def)
  have fits: "unat (get_current_len (buf_sink ([9, 9, 9], []))) + sum_list (map op_size ?ops) < 2 ^ 64"
    by (simp add: get_current_len_def buf_sink_def)
  have run: "sink_run True buf_file ?ops (buf_sink ([9, 9, 9], [])) = Some ?self'"
    "run_clean True buf_file ?ops (buf_sink ([9, 9, 9], []))"
    "sink_poll_flush buf_file ?self' = (Ready (Inr ()), ?self'')"
    by (simp_all add: sink_step_def step_clean_def sink_poll_write_def sink_poll_flush_def buf_file_def buf_sink_def
        add_op_def)
  show ?thesis
    using sink_open_append_counts [OF buf_file_contract buf_fs_settled buf_file_flush opened fits, of True] run
    by (intro exI [of _ ?self'] exI [of _ ?self'']) (simp add: get_current_len_def sink_inner_def buf_sink_def)
qed

text \<open>
  C24. A caller that asks \<open>can_be_appended\<close> before each write keeps the limit: from a sink within its
  maximum, any sequence of guarded writes, complete or partial, runs without a panic and leaves at
  most \<open>max_len\<close> bytes in the file, those in its buffer included, in both build profiles.
\<close>

theorem guarded_writes_within_max:
  assumes "file_contract bytes disk api" and "sink_counts bytes self"
    and "max_len (sink_option self) = Some m" and "unat (current_len self) \<le> unat m"
    and "\<And>b. b \<in> set bs \<Longrightarrow> unat m + length b < 2 ^ 64"
  shows "\<exists>self'. guarded_run checks api bs self = Some self' \<and>
     unat (get_current_len self') = length (bytes (writer self')) \<and>
     length (bytes (writer self')) \<le> unat m"
proof -
  obtain self' where "guarded_run checks api bs self = Some self'" "sink_counts bytes self'"
    "unat (current_len self') \<le> unat m"
    using guarded_run_ok [where checks = checks and bs = bs, OF assms] by blast
  then show ?thesis by (auto simp: sink_counts_def get_current_len_def)
qed

theorem guarded_writes_within_max_witness:
  "\<exists>self'. guarded_run True mem_file [[1, 1, 1], [2, 2, 2, 2, 2], [3, 3, 3, 3]] (mem_sink (Some 10) [])
       = Some self' \<and>
     unat (get_current_len self') = length (writer self') \<and> length (writer self') \<le> 10"
proof -
  let ?self = "mem_sink (Some 10) []"
  have c: "sink_counts (\<lambda>f. f) ?self" by (rule mem_sink_counts) simp
  have m: "max_len (sink_option ?self) = Some 10" "unat (current_len ?self) \<le> unat (10 :: u64)"
    by (simp_all add: mem_sink_def)
  have b: "unat (10 :: u64) + length b < 2 ^ 64"
    if "b \<in> set [[1, 1, 1], [2, 2, 2, 2, 2], [3, 3, 3, 3 :: u8]]" for b
    using that by auto
  have ten: "unat (10 :: u64) = 10" by simp
  show ?thesis
    using guarded_writes_within_max [where checks = True, OF mem_file_contract c m b]
    unfolding ten by blast
qed

end
