(* ===== verification/Write_Buf.thy ===== *)
theory Write_Buf
  imports Async_Fs
begin

text \<open>
  \<open>src/src/write.rs\<close>: \<open>WriteBufAll\<close>, a future that writes a whole buffer, and the extension trait
  that makes it. One poll runs a loop over the writer's \<open>poll_write\<close>; the loop is a total function,
  since every round that continues shortens the rest of the buffer. The lemmas say what one poll
  puts in the file, that the rest of the buffer is forgotten between two polls, and hence what a
  sequence of polls writes.
\<close>

section \<open>Data and operations\<close>

record 'w WriteBufAll =
  wb_writer :: 'w
  wb_buf :: "u8 list"

definition WriteBufAll_new :: "'w \<Rightarrow> u8 list \<Rightarrow> 'w WriteBufAll" where
  "WriteBufAll_new writer buf = \<lparr>wb_writer = writer, wb_buf = buf\<rparr>"

definition write_buf_all :: "'w \<Rightarrow> u8 list \<Rightarrow> 'w WriteBufAll" where
  "write_buf_all self buf = WriteBufAll_new self buf"

text \<open>
  The \<open>while\<close> loop of \<open>poll\<close>, on the local variable \<open>buf\<close> and the writer: \<open>ready!\<close> returns at
  \<open>Pending\<close>, \<open>?\<close> at an error, \<open>split_at\<close> panics past the end, and then comes the test for zero.
\<close>

function write_loop ::
  "(u8 list \<Rightarrow> 'w \<Rightarrow> (usize, io_error) result poll \<times> 'w) \<Rightarrow> u8 list \<Rightarrow> 'w \<Rightarrow>
   (unit, io_error) result poll exec \<times> 'w" where
  "write_loop pw buf w =
     (if buf = [] then (Returned (Ready (Inr ())), w)
      else case pw buf w of
        (Pending, w') \<Rightarrow> (Returned Pending, w')
      | (Ready (Inl e), w') \<Rightarrow> (Returned (Ready (Inl e)), w')
      | (Ready (Inr n), w') \<Rightarrow>
          if length buf < unat n then (Panicked, w')
          else if n = 0 then (Returned (Ready (Inl (IoError WriteZero ''write zero''))), w')
          else write_loop pw (drop (unat n) buf) w')"
  by pat_completeness auto
termination
  by (relation "measure (\<lambda>(pw, buf, w). length buf)") (auto simp: unat_gt_0)

declare write_loop.simps [simp del]

definition WriteBufAll_poll ::
  "(u8 list \<Rightarrow> 'w \<Rightarrow> (usize, io_error) result poll \<times> 'w) \<Rightarrow> 'w WriteBufAll \<Rightarrow>
   (unit, io_error) result poll exec \<times> 'w WriteBufAll" where
  "WriteBufAll_poll pw self =
     (let (r, w) = write_loop pw (wb_buf self) (wb_writer self) in (r, self\<lparr>wb_writer := w\<rparr>))"

section \<open>Writers\<close>

text \<open>A writer that always takes a part of a buffer that is not empty.\<close>

definition always_takes :: "(u8 list \<Rightarrow> 'w \<Rightarrow> (usize, io_error) result poll \<times> 'w) \<Rightarrow> bool" where
  "always_takes pw \<longleftrightarrow> (\<forall>buf w. buf \<noteq> [] \<longrightarrow> (\<exists>n w'. pw buf w = (Ready (Inr n), w') \<and> n \<noteq> 0))"

text \<open>For the witnesses: a file that is not ready on every second call, with its clock.\<close>

definition slow_file :: "(nat \<times> u8 list) file_api" where
  "slow_file = \<lparr>fa_metadata_len = (\<lambda>(c, f). if length f < 2 ^ 64 then Inr (of_nat (length f))
       else Inl (IoError OtherError ''too large'')),
     fa_raw_fd = (\<lambda>_. 3),
     fa_seek = (\<lambda>_ f. (Inr 0, f)),
     fa_poll_write = (\<lambda>buf (c, f).
        if odd c then (Pending, (Suc c, f))
        else (Ready (Inr (of_nat (min 3 (length buf)))), (if c < 2 then Suc c else c, f @ take 3 buf))),
     fa_poll_flush = (\<lambda>f. (Ready (Inr ()), f)), fa_poll_close = (\<lambda>f. (Ready (Inr ()), f))\<rparr>"

section \<open>Lemmas\<close>

lemma write_loop_ok:
  assumes fc: "file_contract bytes disk api"
  shows "\<exists>r w' n. write_loop (fa_poll_write api) buf w = (Returned r, w') \<and> n \<le> length buf \<and>
     bytes w' = bytes w @ take n buf \<and> (r = Ready (Inr ()) \<longleftrightarrow> n = length buf)"
proof (induction "length buf" arbitrary: buf w rule: less_induct)
  case less
  obtain q v where q: "fa_poll_write api buf w = (q, v)" by fastforce
  note spec = file_contract_write [OF fc q]
  show ?case
  proof (cases "buf = []")
    case True
    then show ?thesis by (simp add: write_loop.simps)
  next
    case False
    consider "q = Pending" | e where "q = Ready (Inl e)" | m where "q = Ready (Inr m)"
      by (metis poll.exhaust sum.exhaust)
    then show ?thesis
    proof cases
      case 3
      with spec have m: "unat m \<le> length buf" "bytes v = bytes w @ take (unat m) buf" by auto
      show ?thesis
      proof (cases "m = 0")
        case True
        then show ?thesis using q 3 False m
          by (auto simp: write_loop.simps [of _ buf w] intro: exI [of _ "0::nat"])
      next
        case nz: False
        then have "length (drop (unat m) buf) < length buf" using False by (simp add: unat_gt_0)
        from less [OF this, of v] obtain r w' n where
          l: "write_loop (fa_poll_write api) (drop (unat m) buf) v = (Returned r, w')"
            "n \<le> length buf - unat m" "bytes w' = bytes v @ take n (drop (unat m) buf)"
            "r = Ready (Inr ()) \<longleftrightarrow> n = length buf - unat m"
          by auto
        have "write_loop (fa_poll_write api) buf w = (Returned r, w')"
          using q 3 False m nz l(1) by (simp add: write_loop.simps [of _ buf w])
        then show ?thesis using l m
          by (intro exI [of _ r] exI [of _ w'] exI [of _ "unat m + n"])
            (auto simp: take_add)
      qed
    qed (use q False spec in \<open>auto simp: write_loop.simps [of _ buf w] intro: exI [of _ "0::nat"]\<close>)
  qed
qed

lemma WriteBufAll_poll_ok:
  assumes "file_contract bytes disk api"
  obtains r self' n where "WriteBufAll_poll (fa_poll_write api) self = (Returned r, self')"
    "n \<le> length (wb_buf self)" "wb_buf self' = wb_buf self"
    "bytes (wb_writer self') = bytes (wb_writer self) @ take n (wb_buf self)"
    "r = Ready (Inr ()) \<longleftrightarrow> n = length (wb_buf self)"
  using write_loop_ok [OF assms, of "wb_buf self" "wb_writer self"]
  by (auto simp: WriteBufAll_poll_def)

lemma write_loop_ready:
  assumes "file_contract bytes disk api" and "always_takes (fa_poll_write api)"
  shows "fst (write_loop (fa_poll_write api) buf w) = Returned (Ready (Inr ()))"
proof (induction "length buf" arbitrary: buf w rule: less_induct)
  case less
  show ?case
  proof (cases "buf = []")
    case False
    then obtain n w' where n: "fa_poll_write api buf w = (Ready (Inr n), w')" "n \<noteq> 0"
      using assms(2) unfolding always_takes_def by blast
    with file_contract_write [OF assms(1) n(1)] have "unat n \<le> length buf" by simp
    moreover have "length (drop (unat n) buf) < length buf" using False n by (simp add: unat_gt_0)
    ultimately show ?thesis using less n False by (simp add: write_loop.simps [of _ buf w])
  qed (simp add: write_loop.simps)
qed

lemma slow_file_contract: "file_contract snd snd slow_file"
  by (auto simp: file_contract_def slow_file_def unat_of_nat min_def split: if_splits)

lemma mem_file_takes: "always_takes (fa_poll_write mem_file)"
proof -
  have "of_nat (min 4 (length buf)) \<noteq> (0 :: usize)" if "buf \<noteq> []" for buf :: "u8 list"
    using that by (auto simp: min_def word_unat_eq_iff unat_of_nat)
  then show ?thesis by (auto simp: always_takes_def mem_file_def)
qed

section \<open>Properties\<close>

text \<open>
  One poll of \<open>write_buf_all\<close> never panics and appends a prefix of the buffer to the file, all of
  it exactly when it returns \<open>Ready(Ok(()))\<close>; and on a writer that always takes something it does
  return that.
\<close>

lemma write_buf_all_poll:
  assumes "file_contract bytes disk api"
  shows "(\<exists>r self' n. WriteBufAll_poll (fa_poll_write api) (write_buf_all w buf) = (Returned r, self') \<and>
       n \<le> length buf \<and> bytes (wb_writer self') = bytes w @ take n buf \<and>
       (r = Ready (Inr ()) \<longleftrightarrow> n = length buf)) \<and>
     (always_takes (fa_poll_write api) \<longrightarrow>
       fst (WriteBufAll_poll (fa_poll_write api) (write_buf_all w buf)) = Returned (Ready (Inr ())))"
proof
  show "\<exists>r self' n. WriteBufAll_poll (fa_poll_write api) (write_buf_all w buf) = (Returned r, self') \<and>
       n \<le> length buf \<and> bytes (wb_writer self') = bytes w @ take n buf \<and>
       (r = Ready (Inr ()) \<longleftrightarrow> n = length buf)"
    using WriteBufAll_poll_ok [OF assms, of "write_buf_all w buf"]
    by (metis (no_types) WriteBufAll.simps(1,2) WriteBufAll_new_def write_buf_all_def)
  show "always_takes (fa_poll_write api) \<longrightarrow>
       fst (WriteBufAll_poll (fa_poll_write api) (write_buf_all w buf)) = Returned (Ready (Inr ()))"
    using write_loop_ready [OF assms, of buf w]
    by (simp add: WriteBufAll_poll_def write_buf_all_def WriteBufAll_new_def case_prod_beta)
qed

text \<open>
  The progress of a poll is lost when it returns \<open>Pending\<close>: when a first poll took \<open>n\<close> bytes and
  was pending and a later one completes, the file holds the first \<open>n\<close> bytes of the buffer twice.
\<close>

lemma write_buf_all_repeats_prefix:
  assumes "file_contract bytes disk api"
    and "WriteBufAll_poll (fa_poll_write api) (write_buf_all w buf) = (Returned Pending, self1)"
    and "bytes (wb_writer self1) = bytes w @ take n buf"
    and "WriteBufAll_poll (fa_poll_write api) self1 = (Returned (Ready (Inr ())), self2)"
  shows "bytes (wb_writer self2) = bytes w @ take n buf @ buf"
proof -
  have "wb_buf self1 = buf"
    using assms(2)
    by (auto simp: WriteBufAll_poll_def write_buf_all_def WriteBufAll_new_def split: prod.splits)
  with assms show ?thesis using WriteBufAll_poll_ok [OF assms(1), of self1] by auto
qed

text \<open>It happens: a file that is busy after its first write holds that write twice.\<close>

lemma write_buf_all_repeats_example:
  "\<exists>self1 self2. WriteBufAll_poll (fa_poll_write slow_file) (write_buf_all (0, []) [1, 2, 3, 4]) = (Returned Pending, self1) \<and>
     WriteBufAll_poll (fa_poll_write slow_file) self1 = (Returned (Ready (Inr ())), self2) \<and>
     snd (wb_writer self2) = [1, 2, 3, 1, 2, 3, 4]"
  by (simp add: WriteBufAll_poll_def write_buf_all_def WriteBufAll_new_def slow_file_def write_loop.simps)

end
