(* ===== verification/Rust_Sync.thy ===== *)
theory Rust_Sync
  imports Rust_Prelude
begin

text \<open>
  What the sources use of \<open>std::sync\<close>: locks that can be poisoned, and shared ownership by reference
  counting. An \<open>Arc\<close> is an address of a store of counted cells, so that two clones are the same
  address and see each other's updates; an access to a freed cell is the value \<open>None\<close>. The locale
  \<open>counted_store\<close> is what an owner of references relies on: as long as the counts agree with the
  references that exist, no access finds a freed cell.
\<close>

section \<open>Locks\<close>

record 'a RwLock =
  lock_value :: 'a
  lock_poisoned :: bool

definition RwLock_new :: "'a \<Rightarrow> 'a RwLock" where
  "RwLock_new x = \<lparr>lock_value = x, lock_poisoned = False\<rparr>"

text \<open>\<open>read().unwrap()\<close> and \<open>write().unwrap()\<close>: a poisoned lock panics.\<close>

definition lock_unwrap :: "'a RwLock \<Rightarrow> 'a exec" where
  "lock_unwrap l = (if lock_poisoned l then Panicked else Returned (lock_value l))"

section \<open>Reference counting\<close>

type_synonym addr = nat

record 'a arc_inner =
  arc_strong :: nat
  arc_data :: 'a

record 'a arc_heap =
  arc_cells :: "addr \<Rightarrow> 'a arc_inner option"
  arc_next :: addr

definition arc_heap_empty :: "'a arc_heap" where
  "arc_heap_empty = \<lparr>arc_cells = (\<lambda>_. None), arc_next = 0\<rparr>"

definition Arc_new :: "'a \<Rightarrow> 'a arc_heap \<Rightarrow> addr \<times> 'a arc_heap" where
  "Arc_new x h = (arc_next h, h\<lparr>
     arc_cells := (arc_cells h)(arc_next h \<mapsto> \<lparr>arc_strong = 1, arc_data = x\<rparr>),
     arc_next := Suc (arc_next h)\<rparr>)"

definition Arc_clone :: "addr \<Rightarrow> 'a arc_heap \<Rightarrow> (addr \<times> 'a arc_heap) option" where
  "Arc_clone a h = (case arc_cells h a of
      None \<Rightarrow> None
    | Some c \<Rightarrow> Some (a, h\<lparr>arc_cells := (arc_cells h)(a \<mapsto> c\<lparr>arc_strong := Suc (arc_strong c)\<rparr>)\<rparr>))"

text \<open>Dropping the last reference frees the cell.\<close>

definition Arc_drop :: "addr \<Rightarrow> 'a arc_heap \<Rightarrow> 'a arc_heap option" where
  "Arc_drop a h = (case arc_cells h a of
      None \<Rightarrow> None
    | Some c \<Rightarrow> Some (h\<lparr>arc_cells := (arc_cells h)
        (a := if arc_strong c \<le> 1 then None else Some (c\<lparr>arc_strong := arc_strong c - 1\<rparr>))\<rparr>))"

definition Arc_get :: "'a arc_heap \<Rightarrow> addr \<Rightarrow> 'a option" where
  "Arc_get h a = map_option arc_data (arc_cells h a)"

definition Arc_set :: "addr \<Rightarrow> 'a \<Rightarrow> 'a arc_heap \<Rightarrow> 'a arc_heap" where
  "Arc_set a x h = h\<lparr>arc_cells := (arc_cells h)(a := map_option (arc_data_update (\<lambda>_. x)) (arc_cells h a))\<rparr>"

definition Arc_strong_count :: "'a arc_heap \<Rightarrow> addr \<Rightarrow> nat" where
  "Arc_strong_count h a = (case arc_cells h a of None \<Rightarrow> 0 | Some c \<Rightarrow> arc_strong c)"

text \<open>The allocator never hands out a used address, and an allocated cell has an owner.\<close>

definition arc_heap_ok :: "'a arc_heap \<Rightarrow> bool" where
  "arc_heap_ok h \<longleftrightarrow> (\<forall>a c. arc_cells h a = Some c \<longrightarrow> a < arc_next h \<and> 0 < arc_strong c)"

section \<open>The contract of a counted store\<close>

locale counted_store =
  fixes new :: "'a \<Rightarrow> 'h \<Rightarrow> addr \<times> 'h"
    and clone :: "addr \<Rightarrow> 'h \<Rightarrow> (addr \<times> 'h) option"
    and release :: "addr \<Rightarrow> 'h \<Rightarrow> 'h option"
    and get :: "'h \<Rightarrow> addr \<Rightarrow> 'a option"
    and set_cell :: "addr \<Rightarrow> 'a \<Rightarrow> 'h \<Rightarrow> 'h"
    and strong :: "'h \<Rightarrow> addr \<Rightarrow> nat"
    and ok :: "'h \<Rightarrow> bool"
  assumes get_iff: "ok h \<Longrightarrow> get h a = None \<longleftrightarrow> strong h a = 0"
    and new_ok: "ok h \<Longrightarrow> new x h = (a, h') \<Longrightarrow> ok h'"
    and new_strong: "ok h \<Longrightarrow> new x h = (a, h') \<Longrightarrow>
      strong h a = 0 \<and> strong h' b = (if b = a then 1 else strong h b)"
    and new_get: "ok h \<Longrightarrow> new x h = (a, h') \<Longrightarrow> get h' b = (if b = a then Some x else get h b)"
    and clone_None: "clone a h = None \<longleftrightarrow> get h a = None"
    and clone_ok: "ok h \<Longrightarrow> clone a h = Some (b, h') \<Longrightarrow> ok h' \<and> b = a"
    and clone_strong: "clone a h = Some (b, h') \<Longrightarrow> strong h' c = strong h c + (if c = a then 1 else 0)"
    and clone_get: "clone a h = Some (b, h') \<Longrightarrow> get h' c = get h c"
    and release_None: "release a h = None \<longleftrightarrow> get h a = None"
    and release_ok: "ok h \<Longrightarrow> release a h = Some h' \<Longrightarrow> ok h'"
    and release_strong: "ok h \<Longrightarrow> release a h = Some h' \<Longrightarrow>
      strong h' c = strong h c - (if c = a then 1 else 0)"
    and release_get: "release a h = Some h' \<Longrightarrow> strong h' c \<noteq> 0 \<Longrightarrow> get h' c = get h c"
    and set_ok: "ok h \<Longrightarrow> ok (set_cell a x h)"
    and set_strong: "strong (set_cell a x h) b = strong h b"
    and set_get: "get h a \<noteq> None \<Longrightarrow> get (set_cell a x h) b = (if b = a then Some x else get h b)"
begin

text \<open>The counts agree with a list of the references that exist.\<close>

definition counts :: "'h \<Rightarrow> addr list \<Rightarrow> bool" where
  "counts h refs \<longleftrightarrow> ok h \<and> (\<forall>a. strong h a = count_list refs a)"

lemma counts_live: "counts h refs \<Longrightarrow> get h a \<noteq> None \<longleftrightarrow> a \<in> set refs"
  using get_iff [of h a] by (auto simp: counts_def count_list_0_iff)

lemma counts_strong: "counts h refs \<Longrightarrow> strong h a \<noteq> 0 \<longleftrightarrow> a \<in> set refs"
  by (auto simp: counts_def count_list_0_iff)

lemma counts_new:
  assumes "counts h refs" and "new x h = (a, h')"
  shows "a \<notin> set refs" and "counts h' (a # refs)"
proof -
  have 0: "strong h a = 0" using assms new_strong [of h x a h'] by (simp add: counts_def)
  then show "a \<notin> set refs" using assms(1) by (metis counts_def count_list_0_iff)
  show "counts h' (a # refs)"
    using assms new_ok [of h x a h'] new_strong [of h x a h'] 0 by (auto simp: counts_def)
qed

lemma counts_clone:
  assumes "counts h refs" and "clone a h = Some (b, h')"
  shows "b = a" and "counts h' (a # refs)"
  using assms clone_ok [of h a b h'] clone_strong [of a h b h'] by (auto simp: counts_def)

lemma counts_set: "counts h refs \<Longrightarrow> counts (set_cell a x h) refs"
  by (simp add: counts_def set_ok set_strong)

lemma counts_release:
  assumes "counts h (xs @ a # ys)" and "release a h = Some h'"
  shows "counts h' (xs @ ys)"
  using assms release_ok [of h a h'] release_strong [of h a h']
  by (auto simp: counts_def)

lemma counts_total:
  assumes "counts h refs" and "a \<in> set refs"
  shows "\<exists>h'. clone a h = Some (a, h')" and "\<exists>h'. release a h = Some h'"
proof -
  have live: "get h a \<noteq> None" using assms counts_live by blast
  then obtain b h' where "clone a h = Some (b, h')" using clone_None [of a h] by (cases "clone a h") auto
  then show "\<exists>h'. clone a h = Some (a, h')" using counts_clone(1) [OF assms(1)] by blast
  show "\<exists>h'. release a h = Some h'" using live release_None [of a h] by (cases "release a h") auto
qed

end

section \<open>Arc keeps the contract\<close>

lemma Arc_heap_ok_empty [simp]: "arc_heap_ok arc_heap_empty"
  by (simp add: arc_heap_ok_def arc_heap_empty_def)

interpretation arc: counted_store Arc_new Arc_clone Arc_drop Arc_get Arc_set Arc_strong_count arc_heap_ok
proof (unfold_locales, goal_cases)
  case (1 h a)
  then show ?case by (force simp: Arc_get_def Arc_strong_count_def arc_heap_ok_def split: option.split)
next
  case (2 h x a h')
  then show ?case by (auto simp: Arc_new_def arc_heap_ok_def less_Suc_eq split: if_splits)
next
  case (3 h x a h' b)
  then show ?case
    by (auto simp: Arc_new_def arc_heap_ok_def Arc_strong_count_def split: option.splits)
next
  case (4 h x a h' b)
  then show ?case by (auto simp: Arc_new_def Arc_get_def)
next
  case (5 a h)
  then show ?case by (auto simp: Arc_clone_def Arc_get_def split: option.splits)
next
  case (6 h a b h')
  then show ?case by (auto simp: Arc_clone_def arc_heap_ok_def split: option.splits if_splits)
next
  case (7 a h b h' c)
  then show ?case by (auto simp: Arc_clone_def Arc_strong_count_def split: option.splits)
next
  case (8 a h b h' c)
  then show ?case by (auto simp: Arc_clone_def Arc_get_def split: option.splits)
next
  case (9 a h)
  then show ?case by (auto simp: Arc_drop_def Arc_get_def split: option.splits)
next
  case (10 h a h')
  then show ?case by (auto simp: Arc_drop_def arc_heap_ok_def split: option.splits if_splits)
next
  case (11 h a h' c)
  then show ?case
    by (auto simp: Arc_drop_def Arc_strong_count_def arc_heap_ok_def split: option.splits if_splits)
next
  case (12 a h h' c)
  then show ?case
    by (auto simp: Arc_drop_def Arc_strong_count_def Arc_get_def split: option.splits if_splits)
next
  case (13 h a x)
  then show ?case by (auto simp: Arc_set_def arc_heap_ok_def)
next
  case (14 a x h b)
  then show ?case by (auto simp: Arc_set_def Arc_strong_count_def split: option.splits)
next
  case (15 h a x b)
  then show ?case by (auto simp: Arc_set_def Arc_get_def)
qed

lemma arc_counts_empty [simp]: "arc.counts arc_heap_empty []"
  by (simp add: arc.counts_def Arc_strong_count_def) (simp add: arc_heap_empty_def)

end
