(* ===== verification/Mmap.thy ===== *)
theory Mmap
  imports Async_Fs Rust_Sync
begin

text \<open>
  \<open>src/src/fs/mmap.rs\<close>: files mapped in memory behind a lock of \<open>Rust_Sync\<close>, which a panic
  under its write guard poisons. The operating system's files and
  the mapping package are the record \<open>mmap_api\<close>; \<open>mmap_contract\<close> is what is relied on. The lemmas
  refine the writes to updates of a memory, follow a poisoned lock, and take a file through create,
  writes and a flush.
\<close>

section \<open>The interface of the operating system and the mapping package\<close>

record ('s, 'h) mmap_api =
  mo_open :: "OpenOptions \<Rightarrow> string \<Rightarrow> 's \<Rightarrow> ('h, io_error) result \<times> 's"
  mo_set_len :: "'h \<Rightarrow> u64 \<Rightarrow> 's \<Rightarrow> (unit, io_error) result \<times> 's"
  mo_metadata_len :: "'h \<Rightarrow> 's \<Rightarrow> (u64, io_error) result"
  mo_map :: "'h \<Rightarrow> 's \<Rightarrow> (u8 list, io_error) result"
  mo_map_mut :: "'h \<Rightarrow> 's \<Rightarrow> (u8 list, io_error) result"
  mo_flush :: "'h \<Rightarrow> u8 list \<Rightarrow> 's \<Rightarrow> (unit, io_error) result \<times> 's"
  mo_flush_async :: "'h \<Rightarrow> u8 list \<Rightarrow> 's \<Rightarrow> (unit, io_error) result \<times> 's"
  mo_flush_range :: "'h \<Rightarrow> u8 list \<Rightarrow> usize \<Rightarrow> usize \<Rightarrow> 's \<Rightarrow> (unit, io_error) result \<times> 's"

section \<open>Data\<close>

record 'h MmapMut =
  mm_handle :: 'h
  mm_bytes :: "u8 list"

record 'h MemoryMappedMutFile =
  mut_lock :: "'h MmapMut RwLock"

record MemoryMappedFile =
  map_lock :: "u8 list RwLock"

section \<open>MemoryMappedMutFile\<close>

definition mut_from_mmap :: "'h MmapMut \<Rightarrow> 'h MemoryMappedMutFile" where
  "mut_from_mmap mmap = \<lparr>mut_lock = RwLock_new mmap\<rparr>"

definition mut_create ::
  "('s, 'h) mmap_api \<Rightarrow> string \<Rightarrow> u64 \<Rightarrow> 's \<Rightarrow>
   ('h MemoryMappedMutFile \<times> 'h, io_error) result exec \<times> 's" where
  "mut_create api m_path len s =
     (case mo_open api (OpenOptions_new\<lparr>opt_read := True, opt_write := True, opt_create := True,
         opt_truncate := False\<rparr>) m_path s of
        (Inl _, s1) \<Rightarrow> (Panicked, s1)
      | (Inr mfile, s1) \<Rightarrow>
          (case mo_set_len api mfile len s1 of
             (Inl e, s2) \<Rightarrow> (Returned (Inl e), s2)
           | (Inr _, s2) \<Rightarrow>
               (case mo_map_mut api mfile s2 of
                  Inl e \<Rightarrow> (Returned (Inl e), s2)
                | Inr m \<Rightarrow>
                    (Returned (Inr (mut_from_mmap \<lparr>mm_handle = mfile, mm_bytes = m\<rparr>, mfile)), s2))))"

definition mut_inner_read :: "'h MemoryMappedMutFile \<Rightarrow> 'h MmapMut exec" where
  "mut_inner_read self = lock_unwrap (mut_lock self)"

definition mut_inner :: "'h MemoryMappedMutFile \<Rightarrow> 'h MmapMut exec" where
  "mut_inner self = lock_unwrap (mut_lock self)"

text \<open>The same allocation, shared: a clone of the \<open>Arc\<close>.\<close>

definition inner_map :: "'h MemoryMappedMutFile \<Rightarrow> 'h MmapMut RwLock" where
  "inner_map self = mut_lock self"

text \<open>
  A panic inside \<open>write_bytes\<close> unwinds through the write guard and poisons the lock. The end of the
  range is computed first (\<open>pos + bytes.len()\<close>), then the slice is taken (panics when it starts after
  its end or ends after the mapping), then \<open>clone_from_slice\<close> compares the lengths.
\<close>

definition mut_poison :: "'h MemoryMappedMutFile \<Rightarrow> 'h MemoryMappedMutFile" where
  "mut_poison self = self\<lparr>mut_lock := (mut_lock self)\<lparr>lock_poisoned := True\<rparr>\<rparr>"

definition write_bytes ::
  "bool \<Rightarrow> 'h MemoryMappedMutFile \<Rightarrow> usize \<Rightarrow> u8 list \<Rightarrow> unit exec \<times> 'h MemoryMappedMutFile" where
  "write_bytes checks self pos bytes =
     (case mut_inner self of
        Panicked \<Rightarrow> (Panicked, self)
      | Returned m_file \<Rightarrow>
          (case add_op checks pos (of_nat (length bytes)) of
             Panicked \<Rightarrow> (Panicked, mut_poison self)
           | Returned e \<Rightarrow>
               if e < pos \<or> length (mm_bytes m_file) < unat e then (Panicked, mut_poison self)
               else if unat e - unat pos \<noteq> length bytes then (Panicked, mut_poison self)
               else (Returned (), self\<lparr>mut_lock := (mut_lock self)\<lparr>lock_value :=
                 m_file\<lparr>mm_bytes := take (unat pos) (mm_bytes m_file) @ bytes
                   @ drop (unat e) (mm_bytes m_file)\<rparr>\<rparr>\<rparr>)))"

definition flush_ft ::
  "('s, 'h) mmap_api \<Rightarrow> 'h MemoryMappedMutFile \<Rightarrow> 's \<Rightarrow> (unit, io_error) result exec \<times> 's" where
  "flush_ft api self s =
     (case lock_unwrap (inner_map self) of
        Panicked \<Rightarrow> (Panicked, s)
      | Returned m \<Rightarrow>
          (let (res, s') = mo_flush api (mm_handle m) (mm_bytes m) s in (Returned res, s')))"

definition flush_async_ft ::
  "('s, 'h) mmap_api \<Rightarrow> 'h MemoryMappedMutFile \<Rightarrow> 's \<Rightarrow> (unit, io_error) result exec \<times> 's" where
  "flush_async_ft api self s =
     (case lock_unwrap (inner_map self) of
        Panicked \<Rightarrow> (Panicked, s)
      | Returned m \<Rightarrow>
          (let (res, s') = mo_flush_async api (mm_handle m) (mm_bytes m) s in (Returned res, s')))"

definition flush_range_ft ::
  "('s, 'h) mmap_api \<Rightarrow> 'h MemoryMappedMutFile \<Rightarrow> usize \<Rightarrow> usize \<Rightarrow> 's \<Rightarrow>
   (unit, io_error) result exec \<times> 's" where
  "flush_range_ft api self offset len s =
     (case lock_unwrap (inner_map self) of
        Panicked \<Rightarrow> (Panicked, s)
      | Returned m \<Rightarrow>
          (let (res, s') = mo_flush_range api (mm_handle m) (mm_bytes m) offset len s
           in (Returned res, s')))"

section \<open>MemoryMappedFile\<close>

definition map_from_mmap :: "u8 list \<Rightarrow> MemoryMappedFile" where
  "map_from_mmap mmap = \<lparr>map_lock = RwLock_new mmap\<rparr>"

text \<open>The mapping made once the length has been settled.\<close>

definition map_finish ::
  "('s, 'h) mmap_api \<Rightarrow> 'h \<Rightarrow> 's \<Rightarrow> (MemoryMappedFile \<times> 'h, io_error) result exec \<times> 's" where
  "map_finish api mfile s =
     (case mo_map api mfile s of
        Inl e \<Rightarrow> (Returned (Inl e), s)
      | Inr m \<Rightarrow> (Returned (Inr (map_from_mmap m, mfile)), s))"

definition map_open ::
  "('s, 'h) mmap_api \<Rightarrow> string \<Rightarrow> u64 \<Rightarrow> 's \<Rightarrow>
   (MemoryMappedFile \<times> 'h, io_error) result exec \<times> 's" where
  "map_open api m_path min_len s =
     (case mo_open api (OpenOptions_new\<lparr>opt_read := True\<rparr>) m_path s of
        (Inl _, s1) \<Rightarrow> (Panicked, s1)
      | (Inr mfile, s1) \<Rightarrow>
          (case mo_metadata_len api mfile s1 of
             Inl _ \<Rightarrow> (Panicked, s1)
           | Inr len \<Rightarrow>
               if len = 0 then
                 (case mo_open api (OpenOptions_new\<lparr>opt_read := True, opt_write := True\<rparr>) m_path s1 of
                    (Inl _, s2) \<Rightarrow> (Panicked, s2)
                  | (Inr fd, s2) \<Rightarrow>
                      (case mo_set_len api fd min_len s2 of
                         (Inl e, s3) \<Rightarrow> (Returned (Inl e), s3)
                       | (Inr _, s3) \<Rightarrow> map_finish api mfile s3))
               else map_finish api mfile s1))"

definition map_inner :: "MemoryMappedFile \<Rightarrow> u8 list exec" where
  "map_inner self = lock_unwrap (map_lock self)"

section \<open>Contract and specification\<close>

text \<open>
  What is relied on, for files that nobody else renames, removes or resizes meanwhile: an open file
  keeps naming its path; opening leaves the bytes of existing files alone and gives a file that
  exists, made empty when it did not exist; \<open>set_len\<close> truncates or pads with zeros; a mapping shows
  the file's bytes; a flush that succeeds puts the mapping's bytes in the file.
\<close>

definition resize :: "nat \<Rightarrow> u8 list \<Rightarrow> u8 list" where
  "resize n xs = take n xs @ replicate (n - length xs) 0"

definition mmap_contract ::
  "('s \<Rightarrow> string \<Rightarrow> u8 list option) \<Rightarrow> ('h \<Rightarrow> string) \<Rightarrow> ('s, 'h) mmap_api \<Rightarrow> bool" where
  "mmap_contract files path_of api \<longleftrightarrow>
     (\<forall>opts p s h s'. mo_open api opts p s = (Inr h, s') \<longrightarrow> path_of h = p \<and>
        (\<not> opt_truncate opts \<longrightarrow>
           files s' = (files s)(p := Some (case files s p of None \<Rightarrow> [] | Some bs \<Rightarrow> bs)))) \<and>
     (\<forall>h n s u s' bs. mo_set_len api h n s = (Inr u, s') \<longrightarrow> files s (path_of h) = Some bs \<longrightarrow>
        files s' = (files s)(path_of h := Some (resize (unat n) bs))) \<and>
     (\<forall>h s n bs. mo_metadata_len api h s = Inr n \<longrightarrow> files s (path_of h) = Some bs \<longrightarrow>
        unat n = length bs) \<and>
     (\<forall>h s m. mo_map api h s = Inr m \<longrightarrow> files s (path_of h) = Some m) \<and>
     (\<forall>h s m. mo_map_mut api h s = Inr m \<longrightarrow> files s (path_of h) = Some m) \<and>
     (\<forall>h m s u s'. mo_flush api h m s = (Inr u, s') \<longrightarrow>
        files s' = (files s)(path_of h := Some m))"

text \<open>The specification of a mapping: a memory of fixed extent, updated at an address.\<close>

definition mem_of :: "u8 list \<Rightarrow> nat \<Rightarrow> u8 option" where
  "mem_of xs i = (if i < length xs then Some (xs ! i) else None)"

definition mem_write :: "nat \<Rightarrow> u8 list \<Rightarrow> (nat \<Rightarrow> u8 option) \<Rightarrow> nat \<Rightarrow> u8 option" where
  "mem_write pos bytes mem i =
     (if pos \<le> i \<and> i < pos + length bytes then Some (bytes ! (i - pos)) else mem i)"

text \<open>
  A sequence of calls by threads that survive each other's panics, with the result of every call.
\<close>

type_synonym write_call = "usize \<times> u8 list"

fun write_run ::
  "bool \<Rightarrow> write_call list \<Rightarrow> 'h MemoryMappedMutFile \<Rightarrow> unit exec list \<times> 'h MemoryMappedMutFile" where
  "write_run checks [] self = ([], self)"
| "write_run checks ((pos, bs) # ws) self =
     (let (r, self1) = write_bytes checks self pos bs; (rs, self2) = write_run checks ws self1
      in (r # rs, self2))"

definition in_range :: "nat \<Rightarrow> write_call \<Rightarrow> bool" where
  "in_range n w \<longleftrightarrow> unat (fst w) + length (snd w) \<le> n"

definition mut_bytes :: "'h MemoryMappedMutFile \<Rightarrow> u8 list" where
  "mut_bytes self = mm_bytes (lock_value (mut_lock self))"

definition spec_writes :: "write_call list \<Rightarrow> (nat \<Rightarrow> u8 option) \<Rightarrow> nat \<Rightarrow> u8 option" where
  "spec_writes ws mem = fold (\<lambda>(pos, bs). mem_write (unat pos) bs) ws mem"

section \<open>A file system for the witnesses\<close>

definition toy_mmap :: "(string \<Rightarrow> u8 list option, string) mmap_api" where
  "toy_mmap = \<lparr>
     mo_open = (\<lambda>opts p s. case s p of
        None \<Rightarrow> if opt_create opts then (Inr p, s(p := Some [])) else (Inl (IoError NotFound ''none''), s)
      | Some bs \<Rightarrow> (Inr p, s(p := Some (if opt_truncate opts then [] else bs)))),
     mo_set_len = (\<lambda>h n s. case s h of
        None \<Rightarrow> (Inl (IoError NotFound ''none''), s)
      | Some bs \<Rightarrow> (Inr (), s(h := Some (resize (unat n) bs)))),
     mo_metadata_len = (\<lambda>h s. case s h of
        None \<Rightarrow> Inl (IoError NotFound ''none'')
      | Some bs \<Rightarrow> if length bs < 2 ^ 64 then Inr (of_nat (length bs))
          else Inl (IoError OtherError ''too large'')),
     mo_map = (\<lambda>h s. case s h of None \<Rightarrow> Inl (IoError NotFound ''none'') | Some bs \<Rightarrow> Inr bs),
     mo_map_mut = (\<lambda>h s. case s h of None \<Rightarrow> Inl (IoError NotFound ''none'') | Some bs \<Rightarrow> Inr bs),
     mo_flush = (\<lambda>h m s. (Inr (), s(h := Some m))),
     mo_flush_async = (\<lambda>h m s. (Inr (), s)),
     mo_flush_range = (\<lambda>h m off l s. (Inr (), s))\<rparr>"

section \<open>Lemmas\<close>

lemma toy_mmap_contract: "mmap_contract (\<lambda>s. s) (\<lambda>h. h) toy_mmap"
  by (auto simp: mmap_contract_def toy_mmap_def unat_of_nat fun_upd_idem split: option.splits if_splits)

lemma mut_poison_poisoned: "lock_poisoned (mut_lock self) \<Longrightarrow> mut_poison self = self"
  by (simp add: mut_poison_def)

lemma wrapped_end:
  fixes pos n :: usize
  assumes "2 ^ 64 \<le> unat pos + unat n"
  shows "pos + n < pos"
proof -
  have "unat (pos + n) = unat pos + unat n - 2 ^ 64"
    using assms u64_less [of pos] u64_less [of n]
    by (simp add: unat_word_ariths le_mod_geq)
  then show ?thesis using assms u64_less [of n] by (simp add: word_less_nat_alt)
qed

lemma write_bytes_spec:
  assumes m: "length (mut_bytes self) < 2 ^ 63" and b: "length bs < 2 ^ 63"
  shows "write_bytes checks self pos bs =
     (if \<not> lock_poisoned (mut_lock self) \<and> in_range (length (mut_bytes self)) (pos, bs)
      then (Returned (), self\<lparr>mut_lock := (mut_lock self)\<lparr>lock_value :=
        (lock_value (mut_lock self))\<lparr>mm_bytes := take (unat pos) (mut_bytes self) @ bs
           @ drop (unat pos + length bs) (mut_bytes self)\<rparr>\<rparr>\<rparr>)
      else (Panicked, mut_poison self))"
proof -
  let ?n = "of_nat (length bs) :: usize"
  have n: "unat ?n = length bs" using b by (simp add: unat_of_nat)
  show ?thesis
  proof (cases "unat pos + unat ?n < 2 ^ 64")
    case True
    then have "add_op checks pos ?n = Returned (pos + ?n)" "unat (pos + ?n) = unat pos + length bs"
      using n by (simp_all add: add_op_exact unat_add_small)
    then show ?thesis
      by (auto simp: write_bytes_def mut_inner_def lock_unwrap_def mut_poison_poisoned in_range_def
          mut_bytes_def word_less_nat_alt)
  next
    case False
    then have "add_op checks pos ?n = Panicked \<or>
        add_op checks pos ?n = Returned (pos + ?n) \<and> pos + ?n < pos"
      using wrapped_end [of pos ?n] by (auto simp: add_op_def)
    moreover have "\<not> in_range (length (mut_bytes self)) (pos, bs)"
      using False n m by (simp add: in_range_def)
    ultimately show ?thesis
      by (auto simp: write_bytes_def mut_inner_def lock_unwrap_def mut_poison_poisoned)
  qed
qed

lemma write_bytes_in_range:
  assumes "length (mut_bytes self) < 2 ^ 63" and "\<not> lock_poisoned (mut_lock self)"
    and "in_range (length (mut_bytes self)) (pos, bs)"
  obtains self' where "write_bytes checks self pos bs = (Returned (), self')"
    "mem_of (mut_bytes self') = mem_write (unat pos) bs (mem_of (mut_bytes self))"
    "length (mut_bytes self') = length (mut_bytes self)" "\<not> lock_poisoned (mut_lock self')"
    "mm_handle (lock_value (mut_lock self')) = mm_handle (lock_value (mut_lock self))"
proof -
  let ?m = "mut_bytes self"
  let ?new = "take (unat pos) ?m @ bs @ drop (unat pos + length bs) ?m"
  have r: "unat pos + length bs \<le> length ?m" using assms(3) by (simp add: in_range_def)
  have len: "length ?new = length ?m" using r by simp
  have mem: "mem_of ?new = mem_write (unat pos) bs (mem_of ?m)"
  proof
    fix i
    show "mem_of ?new i = mem_write (unat pos) bs (mem_of ?m) i"
      unfolding mem_of_def len using r by (auto simp: mem_write_def nth_append min_def)
  qed
  have "length bs < 2 ^ 63" using r assms(1) by simp
  from write_bytes_spec [OF assms(1) this, of checks pos] assms(2,3) len mem that show thesis
    by (simp add: mut_bytes_def)
qed

lemma write_bytes_out_of_range:
  assumes "length (mut_bytes self) < 2 ^ 63" and "length bs < 2 ^ 63"
    and "lock_poisoned (mut_lock self) \<or> \<not> in_range (length (mut_bytes self)) (pos, bs)"
  shows "write_bytes checks self pos bs = (Panicked, mut_poison self)"
  using write_bytes_spec [OF assms(1,2), of checks pos] assms(3) by auto

lemma mut_poison_simps [simp]:
  "mut_bytes (mut_poison self) = mut_bytes self" "lock_poisoned (mut_lock (mut_poison self))"
  by (simp_all add: mut_poison_def mut_bytes_def)

lemma write_run_poisoned:
  assumes "length (mut_bytes self) < 2 ^ 63" and "lock_poisoned (mut_lock self)"
    and "\<And>w. w \<in> set ws \<Longrightarrow> length (snd w) < 2 ^ 63"
  shows "write_run checks ws self = (replicate (length ws) Panicked, self)"
  using assms(3)
proof (induction ws)
  case (Cons w ws)
  obtain pos bs where w: "w = (pos, bs)" by fastforce
  with Cons.prems [of w] have "length bs < 2 ^ 63" by simp
  with assms(1,2) have "write_bytes checks self pos bs = (Panicked, self)"
    using write_bytes_out_of_range [of self bs pos checks] by (simp add: mut_poison_poisoned)
  with Cons w show ?case by simp
qed simp

lemma write_run_in_range:
  assumes "length (mut_bytes self) < 2 ^ 63" and "\<not> lock_poisoned (mut_lock self)"
    and "\<forall>w \<in> set ws. in_range (length (mut_bytes self)) w"
  shows "\<exists>self'. write_run checks ws self = (replicate (length ws) (Returned ()), self') \<and>
     mem_of (mut_bytes self') = spec_writes ws (mem_of (mut_bytes self)) \<and>
     \<not> lock_poisoned (mut_lock self') \<and>
     mm_handle (lock_value (mut_lock self')) = mm_handle (lock_value (mut_lock self))"
  using assms
proof (induction ws arbitrary: self)
  case Nil
  then show ?case by (simp add: spec_writes_def)
next
  case (Cons w ws)
  obtain pos bs where w: "w = (pos, bs)" by fastforce
  with Cons.prems(3) have r: "in_range (length (mut_bytes self)) (pos, bs)" by simp
  obtain s1 where s1: "write_bytes checks self pos bs = (Returned (), s1)"
    "mem_of (mut_bytes s1) = mem_write (unat pos) bs (mem_of (mut_bytes self))"
    "length (mut_bytes s1) = length (mut_bytes self)" "\<not> lock_poisoned (mut_lock s1)"
    "mm_handle (lock_value (mut_lock s1)) = mm_handle (lock_value (mut_lock self))"
    using write_bytes_in_range [OF Cons.prems(1,2) r] by metis
  with Cons.prems have "length (mut_bytes s1) < 2 ^ 63" "\<forall>v \<in> set ws. in_range (length (mut_bytes s1)) v"
    by auto
  with Cons.IH [OF _ s1(4)] s1 w show ?case
    by (fastforce simp: spec_writes_def)
qed

lemma mut_create_cases:
  assumes c: "mmap_contract files path_of api"
    and r: "mut_create api p len s = (Returned (Inr (m, f)), s1)"
  shows "mm_handle (lock_value (mut_lock m)) = f \<and> path_of f = p \<and> \<not> lock_poisoned (mut_lock m) \<and>
     mut_bytes m = resize (unat len) (case files s p of None \<Rightarrow> [] | Some bs \<Rightarrow> bs) \<and>
     files s1 = (files s)(p := Some (mut_bytes m))"
proof -
  let ?old = "case files s p of None \<Rightarrow> [] | Some bs \<Rightarrow> bs"
  from r obtain s0 u where o: "mo_open api (OpenOptions_new\<lparr>opt_read := True, opt_write := True,
        opt_create := True, opt_truncate := False\<rparr>) p s = (Inr f, s0)"
    and l: "mo_set_len api f len s0 = (Inr u, s1)" and mm: "mo_map_mut api f s1 = Inr (mut_bytes m)"
    and h: "mm_handle (lock_value (mut_lock m)) = f" "\<not> lock_poisoned (mut_lock m)"
    by (auto simp: mut_create_def mut_from_mmap_def RwLock_new_def mut_bytes_def
        split: prod.splits sum.splits)
  have s0: "path_of f = p \<and> files s0 = (files s)(p := Some ?old)"
    using c o unfolding mmap_contract_def by fastforce
  then have s1: "files s1 = (files s0)(p := Some (resize (unat len) ?old))"
    using c l unfolding mmap_contract_def by fastforce
  have "files s1 p = Some (mut_bytes m)"
    using c mm s0 unfolding mmap_contract_def by metis
  with s1 s0 h show ?thesis by simp
qed

lemma map_finish_length:
  assumes c: "mmap_contract files path_of api"
    and "map_finish api mfile s = (Returned (Inr (m, f)), s')"
  shows "files s (path_of mfile) = Some (lock_value (map_lock m)) \<and> s' = s \<and> f = mfile \<and>
     \<not> lock_poisoned (map_lock m)"
proof -
  from assms(2) have "mo_map api mfile s = Inr (lock_value (map_lock m))" "s' = s" "f = mfile"
    "\<not> lock_poisoned (map_lock m)"
    by (auto simp: map_finish_def map_from_mmap_def RwLock_new_def split: sum.splits)
  then show ?thesis using c unfolding mmap_contract_def by blast
qed

lemma flush_ft_unpoisoned:
  assumes "\<not> lock_poisoned (mut_lock m)"
  shows "flush_ft api m s =
     (Returned (fst (mo_flush api (mm_handle (lock_value (mut_lock m))) (mut_bytes m) s)),
      snd (mo_flush api (mm_handle (lock_value (mut_lock m))) (mut_bytes m) s))"
  using assms by (simp add: flush_ft_def inner_map_def lock_unwrap_def mut_bytes_def case_prod_beta)

lemma flush_ft_returns: "\<not> lock_poisoned (mut_lock m) \<Longrightarrow> fst (flush_ft api m s) \<noteq> Panicked"
  by (simp add: flush_ft_unpoisoned)

text \<open>A flush that succeeds makes the file equal to the mapping.\<close>

lemma flush_ft_files:
  assumes "mmap_contract files path_of api" and "\<not> lock_poisoned (mut_lock m)"
    and "path_of (mm_handle (lock_value (mut_lock m))) = p"
    and "flush_ft api m s = (Returned (Inr ()), s2)"
  shows "files s2 = (files s)(p := Some (mut_bytes m))"
proof -
  have "mo_flush api (mm_handle (lock_value (mut_lock m))) (mut_bytes m) s = (Inr (), s2)"
    using assms(4) by (simp add: flush_ft_unpoisoned [OF assms(2)] prod_eq_iff)
  then show ?thesis using assms(1,3) unfolding mmap_contract_def by metis
qed

section \<open>Properties\<close>

text \<open>
  C14. A sequence of \<open>write_bytes\<close> calls on a mapping refines updates of a memory: the calls before the
  first one that leaves the mapping succeed and are applied in order; that call panics, changes no
  byte and poisons the lock, and every later call panics and changes nothing. This holds in both
  build profiles, also when \<open>pos + bytes.len()\<close> overflows.
\<close>

theorem write_run_refines:
  assumes "length (mut_bytes self) < 2 ^ 63" and "\<not> lock_poisoned (mut_lock self)"
    and "\<And>w. w \<in> set ws \<Longrightarrow> length (snd w) < 2 ^ 63"
  shows "let n = length (mut_bytes self); good = takeWhile (in_range n) ws;
       (rs, self') = write_run checks ws self
     in rs = replicate (length good) (Returned ()) @ replicate (length ws - length good) Panicked \<and>
        mem_of (mut_bytes self') = spec_writes good (mem_of (mut_bytes self)) \<and>
        length (mut_bytes self') = n \<and>
        (lock_poisoned (mut_lock self') \<longleftrightarrow> length good < length ws)"
  using assms
proof (induction ws arbitrary: self)
  case Nil
  then show ?case by (simp add: spec_writes_def)
next
  case (Cons w ws)
  obtain pos bs where w: "w = (pos, bs)" by fastforce
  have bs: "length bs < 2 ^ 63" and ws: "\<And>v. v \<in> set ws \<Longrightarrow> length (snd v) < 2 ^ 63"
    using Cons.prems(3) [of w] Cons.prems(3) w by simp_all
  show ?case
  proof (cases "in_range (length (mut_bytes self)) w")
    case True
    then obtain s1 where s1: "write_bytes checks self pos bs = (Returned (), s1)"
      "mem_of (mut_bytes s1) = mem_write (unat pos) bs (mem_of (mut_bytes self))"
      "length (mut_bytes s1) = length (mut_bytes self)" "\<not> lock_poisoned (mut_lock s1)"
      using write_bytes_in_range [OF Cons.prems(1,2)] w by metis
    from s1(3) Cons.prems(1) have "length (mut_bytes s1) < 2 ^ 63" by simp
    from Cons.IH [OF this s1(4) ws] True w s1 show ?thesis
      by (auto simp: Let_def spec_writes_def split: prod.splits)
  next
    case False
    with write_bytes_out_of_range [OF Cons.prems(1) bs] w
    have "write_bytes checks self pos bs = (Panicked, mut_poison self)" by blast
    with write_run_poisoned [of "mut_poison self" ws checks] Cons.prems(1) ws False w show ?thesis
      by (simp add: spec_writes_def)
  qed
qed

theorem write_run_refines_witness:
  "let (rs, self') = write_run False [(1, [7, 8]), (3, [9, 9]), (0, [5])]
       (mut_from_mmap \<lparr>mm_handle = (), mm_bytes = [0, 0, 0, 0]\<rparr>)
   in rs = [Returned (), Panicked, Panicked] \<and> lock_poisoned (mut_lock self') \<and>
      length (mut_bytes self') = 4"
proof -
  let ?self = "mut_from_mmap \<lparr>mm_handle = (), mm_bytes = [0, 0, 0, 0]\<rparr>"
  let ?ws = "[(1, [7, 8]), (3, [9, 9]), (0, [5])]"
  have h: "length (mut_bytes ?self) < 2 ^ 63" "\<not> lock_poisoned (mut_lock ?self)"
    and w: "\<And>w. w \<in> set ?ws \<Longrightarrow> length (snd w) < 2 ^ 63"
    by (auto simp: mut_bytes_def mut_from_mmap_def RwLock_new_def)
  have n: "length (mut_bytes ?self) = 4" by (simp add: mut_bytes_def mut_from_mmap_def RwLock_new_def)
  have g: "takeWhile (in_range 4) ?ws = [(1, [7, 8])]" by (simp add: in_range_def)
  show ?thesis
    using write_run_refines [where checks = False and ws = ?ws, OF h w]
    unfolding n Let_def g by (simp add: numeral_2_eq_2 case_prod_beta del: write_run.simps)
qed

text \<open>
  C22. The life of a mapped file: what \<open>create\<close> returns starts as the old bytes cut or zero-padded to
  \<open>len\<close>; writes inside it succeed; and when \<open>flush_ft\<close> then succeeds, the file holds exactly those
  bytes with the writes applied in order, and no other file has changed.
\<close>

theorem mapped_file_lifecycle:
  assumes "mmap_contract files path_of api" and "unat len < 2 ^ 63"
    and "mut_create api p len s = (Returned (Inr (m, f)), s1)"
    and "\<forall>w \<in> set ws. in_range (unat len) w"
  shows "\<exists>m'. write_run checks ws m = (replicate (length ws) (Returned ()), m') \<and>
     fst (flush_ft api m' s1) \<noteq> Panicked \<and>
     (\<forall>s2. flush_ft api m' s1 = (Returned (Inr ()), s2) \<longrightarrow>
        files s2 = (files s)(p := Some (mut_bytes m')) \<and>
        mem_of (mut_bytes m') =
          spec_writes ws (mem_of (resize (unat len) (case files s p of None \<Rightarrow> [] | Some bs \<Rightarrow> bs))))"
proof -
  note cr = mut_create_cases [OF assms(1,3)]
  have len: "length (mut_bytes m) = unat len" using cr by (simp add: resize_def)
  obtain m' where m': "write_run checks ws m = (replicate (length ws) (Returned ()), m')"
    "mem_of (mut_bytes m') = spec_writes ws (mem_of (mut_bytes m))"
    "\<not> lock_poisoned (mut_lock m')" "mm_handle (lock_value (mut_lock m')) = f"
    using write_run_in_range [of m ws checks] len assms(2,4) cr by auto
  have handle: "path_of (mm_handle (lock_value (mut_lock m'))) = p" using m'(4) cr by simp
  have fl: "fst (flush_ft api m' s1) \<noteq> Panicked" by (rule flush_ft_returns [OF m'(3)])
  have "files s2 = (files s1)(p := Some (mut_bytes m'))"
    if "flush_ft api m' s1 = (Returned (Inr ()), s2)" for s2
    by (rule flush_ft_files [OF assms(1) m'(3) handle that])
  with m' cr fl show ?thesis by (intro exI [of _ m']) simp
qed

theorem mapped_file_lifecycle_witness:
  "\<exists>m'. write_run True [(1, [7, 8])] (mut_from_mmap \<lparr>mm_handle = ''f'', mm_bytes = [1, 2, 3, 0]\<rparr>)
       = ([Returned ()], m') \<and>
     mem_of (mut_bytes m') = spec_writes [(1, [7, 8])] (mem_of [1, 2, 3, 0])"
proof -
  let ?s = "[''f'' \<mapsto> [1, 2, 3]] :: string \<Rightarrow> u8 list option"
  let ?s1 = "[''f'' \<mapsto> [1, 2, 3, 0]] :: string \<Rightarrow> u8 list option"
  let ?m = "mut_from_mmap \<lparr>mm_handle = ''f'', mm_bytes = [1, 2, 3, 0]\<rparr>"
  have c: "mut_create toy_mmap ''f'' 4 ?s = (Returned (Inr (?m, ''f'')), ?s1)"
    by (simp add: mut_create_def toy_mmap_def resize_def OpenOptions_new_def)
  have len: "unat (4 :: u64) < 2 ^ 63" by simp
  have ws: "\<forall>w \<in> set [(1, [7, 8])]. in_range (unat (4 :: u64)) w" by (simp add: in_range_def)
  from mapped_file_lifecycle [OF toy_mmap_contract len c ws, of True] obtain m' where
    m': "write_run True [(1, [7, 8])] ?m = ([Returned ()], m')"
    "\<And>s2. flush_ft toy_mmap m' ?s1 = (Returned (Inr ()), s2) \<Longrightarrow>
       mem_of (mut_bytes m') = spec_writes [(1, [7, 8])] (mem_of (resize (unat (4 :: u64)) [1, 2, 3]))"
    by auto
  have "flush_ft toy_mmap m' ?s1 = (Returned (Inr ()), ?s1(mm_handle (lock_value (mut_lock m')) \<mapsto>
      mm_bytes (lock_value (mut_lock m'))))"
    using m'(1) by (auto simp: flush_ft_def inner_map_def lock_unwrap_def toy_mmap_def
        write_bytes_def mut_inner_def mut_from_mmap_def RwLock_new_def add_op_def)
  from m'(2) [OF this] m'(1) show ?thesis by (auto simp: resize_def)
qed

text \<open>
  \<open>MemoryMappedFile::open\<close> extends only an empty file: the mapping it returns has \<open>min_len\<close> bytes
  when the file was empty, and otherwise the bytes of the file, also when they are fewer than
  \<open>min_len\<close>.
\<close>

lemma map_open_extent:
  assumes "mmap_contract files path_of api" and "files s p = Some old"
    and "map_open api p min_len s = (Returned (Inr (m, f)), s')"
  shows "map_inner m = Returned (if old = [] then replicate (unat min_len) 0 else old)"
proof -
  from assms(3) obtain s1 mfile len where
    o: "mo_open api (OpenOptions_new\<lparr>opt_read := True\<rparr>) p s = (Inr mfile, s1)"
    "mo_metadata_len api mfile s1 = Inr len"
    by (auto simp: map_open_def split: prod.splits sum.splits)
  have s1: "path_of mfile = p" "files s1 p = Some old"
    using assms(1,2) o(1) unfolding mmap_contract_def OpenOptions_new_def by fastforce+
  have len: "unat len = length old"
    using assms(1) o(2) s1 unfolding mmap_contract_def by metis
  show ?thesis
  proof (cases "len = 0")
    case True
    with assms(3) o obtain fd s2 s3 u where
      e: "mo_open api (OpenOptions_new\<lparr>opt_read := True, opt_write := True\<rparr>) p s1 = (Inr fd, s2)"
      "mo_set_len api fd min_len s2 = (Inr u, s3)" "map_finish api mfile s3 = (Returned (Inr (m, f)), s')"
      by (auto simp: map_open_def split: prod.splits sum.splits)
    have "path_of fd = p" "files s2 p = Some old"
      using assms(1) s1 e(1) unfolding mmap_contract_def OpenOptions_new_def by fastforce+
    then have "files s3 p = Some (resize (unat min_len) old)"
      using assms(1) e(2) unfolding mmap_contract_def by fastforce
    with map_finish_length [OF assms(1) e(3)] s1 len True show ?thesis
      by (simp add: map_inner_def lock_unwrap_def resize_def)
  next
    case False
    with assms(3) o have "map_finish api mfile s1 = (Returned (Inr (m, f)), s')"
      by (simp add: map_open_def)
    with map_finish_length [OF assms(1)] s1 len False show ?thesis
      by (fastforce simp: map_inner_def lock_unwrap_def word_unat_eq_iff)
  qed
qed

end
