(* ===== verification/Shared_File.thy ===== *)
theory Shared_File
  imports Async_Fs Rust_Sync
begin

text \<open>
  \<open>src/src/fs/shared_file.rs\<close>: a file shared by cloning. The file is behind a lock in a counted cell
  of \<open>Rust_Sync\<close>; \<open>SharedAsyncFile\<close> and the two futures it makes hold the address of the cell. The
  asynchronous file is the record \<open>async_file_api\<close>. A poll takes the lock for its whole body, so an
  execution is a sequence of actions on the owners that exist (\<open>shared_step\<close>). A file operation that
  panics under the write guard poisons the lock. The lemmas show that the counts agree with the
  owners in every reachable state, that the polls of a file are answered as by a file owned alone up
  to the first panic and panic from then on, and that all owners of a file share one cursor.
  \<open>src/src/fs/mod.rs\<close> does not declare the module, so it is not part of the compiled crate.
\<close>

section \<open>The interface of the file\<close>

text \<open>
  \<open>poll_read\<close> leaves the caller's buffer with new contents. \<open>seek\<close> is an asynchronous function: the call
  only builds its future, of type \<open>'k\<close>, and each poll of that may change the file. Both may panic.
\<close>

record ('f, 'k) async_file_api =
  af_poll_read :: "u8 list \<Rightarrow> 'f \<Rightarrow> (usize, io_error) result poll exec \<times> u8 list \<times> 'f"
  af_seek :: "SeekFrom \<Rightarrow> 'k"
  af_poll_seek :: "'k \<Rightarrow> 'f \<Rightarrow> (u64, io_error) result poll exec \<times> 'k \<times> 'f"

section \<open>Data\<close>

type_synonym InnerFile = addr
type_synonym 'f file_heap = "'f RwLock arc_heap"

record SharedAsyncFile =
  shared_inner :: InnerFile

record SharedSeekFuture =
  seek_inner :: InnerFile
  seek_pos :: SeekFrom

record SharedAsyncFileRead =
  read_inner :: InnerFile
  read_buf :: "u8 list"

section \<open>SharedAsyncFile\<close>

definition SharedAsyncFile_new :: "'f \<Rightarrow> 'f file_heap \<Rightarrow> SharedAsyncFile \<times> 'f file_heap" where
  "SharedAsyncFile_new f h =
     (let (a, h') = Arc_new (RwLock_new f) h in (\<lparr>shared_inner = a\<rparr>, h'))"

definition SharedAsyncFile_clone ::
  "SharedAsyncFile \<Rightarrow> 'f file_heap \<Rightarrow> (SharedAsyncFile \<times> 'f file_heap) option" where
  "SharedAsyncFile_clone self h =
     map_option (\<lambda>(a, h'). (\<lparr>shared_inner = a\<rparr>, h')) (Arc_clone (shared_inner self) h)"

definition SharedAsyncFile_read ::
  "SharedAsyncFile \<Rightarrow> u8 list \<Rightarrow> 'f file_heap \<Rightarrow> (SharedAsyncFileRead \<times> 'f file_heap) option" where
  "SharedAsyncFile_read self buf h =
     map_option (\<lambda>(a, h'). (\<lparr>read_inner = a, read_buf = buf\<rparr>, h')) (Arc_clone (shared_inner self) h)"

definition SharedSeekFuture_new :: "InnerFile \<Rightarrow> SeekFrom \<Rightarrow> SharedSeekFuture" where
  "SharedSeekFuture_new inner_file seek = \<lparr>seek_inner = inner_file, seek_pos = seek\<rparr>"

definition SharedAsyncFile_seek ::
  "SharedAsyncFile \<Rightarrow> SeekFrom \<Rightarrow> 'f file_heap \<Rightarrow> (SharedSeekFuture \<times> 'f file_heap) option" where
  "SharedAsyncFile_seek self pos h =
     map_option (\<lambda>(a, h'). (SharedSeekFuture_new a pos, h')) (Arc_clone (shared_inner self) h)"

text \<open>
  \<open>inner.write().unwrap()\<close> and a body that works on the file and on a borrowed value \<open>b\<close>; \<open>None\<close> when
  the cell has been freed. The guard is released at the end of the body. A body that panics unwinds
  through the guard, which poisons the lock, and \<open>unwrap\<close> panics on a poisoned lock.
\<close>

definition with_write ::
  "InnerFile \<Rightarrow> ('b \<Rightarrow> 'f \<Rightarrow> 'r exec \<times> 'b \<times> 'f) \<Rightarrow> 'b \<Rightarrow> 'f file_heap \<Rightarrow>
   ('r exec \<times> 'b \<times> 'f file_heap) option" where
  "with_write a body b h = (case Arc_get h a of
      None \<Rightarrow> None
    | Some l \<Rightarrow> (case lock_unwrap l of
        Panicked \<Rightarrow> Some (Panicked, b, h)
      | Returned f \<Rightarrow> (case body b f of
          (Panicked, b', f') \<Rightarrow>
            Some (Panicked, b', Arc_set a (l\<lparr>lock_value := f', lock_poisoned := True\<rparr>) h)
        | (Returned r, b', f') \<Rightarrow> Some (Returned r, b', Arc_set a (l\<lparr>lock_value := f'\<rparr>) h))))"

definition SharedAsyncFile_poll_read ::
  "('f, 'k) async_file_api \<Rightarrow> SharedAsyncFile \<Rightarrow> u8 list \<Rightarrow> 'f file_heap \<Rightarrow>
   ((usize, io_error) result poll exec \<times> u8 list \<times> 'f file_heap) option" where
  "SharedAsyncFile_poll_read api self buf h = with_write (shared_inner self) (af_poll_read api) buf h"

definition SharedAsyncFile_from :: "'f \<Rightarrow> 'f file_heap \<Rightarrow> SharedAsyncFile \<times> 'f file_heap" where
  "SharedAsyncFile_from f h = SharedAsyncFile_new f h"

section \<open>The futures\<close>

text \<open>Every poll builds a new seek future of the file, polls it once and drops it.\<close>

definition seek_body ::
  "('f, 'k) async_file_api \<Rightarrow> SeekFrom \<Rightarrow> 'f \<Rightarrow>
   (u64, io_error) result poll exec \<times> SeekFrom \<times> 'f" where
  "seek_body api pos f = (case af_poll_seek api (af_seek api pos) f of (r, _, f') \<Rightarrow> (r, pos, f'))"

definition SharedSeekFuture_poll ::
  "('f, 'k) async_file_api \<Rightarrow> SharedSeekFuture \<Rightarrow> 'f file_heap \<Rightarrow>
   ((u64, io_error) result poll exec \<times> 'f file_heap) option" where
  "SharedSeekFuture_poll api self h =
     map_option (\<lambda>(r, _, h'). (r, h')) (with_write (seek_inner self) (seek_body api) (seek_pos self) h)"

text \<open>The constructor clones the reference it is given and drops the given one.\<close>

definition SharedAsyncFileRead_new ::
  "InnerFile \<Rightarrow> u8 list \<Rightarrow> 'f file_heap \<Rightarrow> (SharedAsyncFileRead \<times> 'f file_heap) option" where
  "SharedAsyncFileRead_new inner_file buf h = (case Arc_clone inner_file h of
      None \<Rightarrow> None
    | Some (a, h1) \<Rightarrow> map_option (\<lambda>h2. (\<lparr>read_inner = a, read_buf = buf\<rparr>, h2)) (Arc_drop inner_file h1))"

definition SharedAsyncFileRead_poll ::
  "('f, 'k) async_file_api \<Rightarrow> SharedAsyncFileRead \<Rightarrow> 'f file_heap \<Rightarrow>
   ((usize, io_error) result poll exec \<times> SharedAsyncFileRead \<times> 'f file_heap) option" where
  "SharedAsyncFileRead_poll api self h =
     map_option (\<lambda>(r, buf', h'). (r, self\<lparr>read_buf := buf'\<rparr>, h'))
       (with_write (read_inner self) (af_poll_read api) (read_buf self) h)"

section \<open>Executions\<close>

text \<open>
  The values of a program that hold a reference to a file: handles and unfinished futures. An
  action names its owner by index, makes a new owner, polls, or drops one. \<open>shared_step\<close> is \<open>None\<close> when
  the index or the kind of owner does not fit, which the type checker excludes (\<open>action_ok\<close>), or
  when a freed cell would be reached. An event records a poll: the file, the buffer or the target,
  the answer and the buffer it leaves.
\<close>

datatype owner =
    Handle SharedAsyncFile
  | Reading SharedAsyncFileRead
  | Seeking SharedSeekFuture

fun owner_addr :: "owner \<Rightarrow> addr" where
  "owner_addr (Handle s) = shared_inner s"
| "owner_addr (Reading r) = read_inner r"
| "owner_addr (Seeking s) = seek_inner s"

record 'f shared_world =
  sw_heap :: "'f file_heap"
  owners :: "owner list"

definition shared_world_empty :: "'f shared_world" where
  "shared_world_empty = \<lparr>sw_heap = arc_heap_empty, owners = []\<rparr>"

datatype 'f shared_action =
    Share 'f
  | Clone_owner nat
  | Read_owner nat "u8 list"
  | Seek_owner nat SeekFrom
  | Poll_read nat "u8 list"
  | Poll_owner nat
  | Drop_owner nat

datatype shared_event =
    Read_event addr "u8 list" "(usize, io_error) result poll exec" "u8 list"
  | Seek_event addr SeekFrom "(u64, io_error) result poll exec"

fun event_addr :: "shared_event \<Rightarrow> addr" where
  "event_addr (Read_event a _ _ _) = a"
| "event_addr (Seek_event a _ _) = a"

fun event_panics :: "shared_event \<Rightarrow> bool" where
  "event_panics (Read_event _ _ r _) \<longleftrightarrow> r = Panicked"
| "event_panics (Seek_event _ _ r) \<longleftrightarrow> r = Panicked"

fun add_owner :: "owner \<Rightarrow> 'f file_heap \<Rightarrow> 'f shared_world \<Rightarrow> 'f shared_world" where
  "add_owner x h w = w\<lparr>sw_heap := h, owners := x # owners w\<rparr>"

definition owner_at :: "'f shared_world \<Rightarrow> nat \<Rightarrow> owner option" where
  "owner_at w i = (if i < length (owners w) then Some (owners w ! i) else None)"

fun shared_step ::
  "('f, 'k) async_file_api \<Rightarrow> 'f shared_action \<Rightarrow> 'f shared_world \<Rightarrow>
   (shared_event list \<times> 'f shared_world) option" where
  "shared_step api (Share f) w =
     (case SharedAsyncFile_from f (sw_heap w) of (s, h) \<Rightarrow> Some ([], add_owner (Handle s) h w))"
| "shared_step api (Clone_owner i) w = (case owner_at w i of
      Some (Handle s) \<Rightarrow>
        map_option (\<lambda>(s', h). ([], add_owner (Handle s') h w)) (SharedAsyncFile_clone s (sw_heap w))
    | _ \<Rightarrow> None)"
| "shared_step api (Read_owner i buf) w = (case owner_at w i of
      Some (Handle s) \<Rightarrow>
        map_option (\<lambda>(r, h). ([], add_owner (Reading r) h w)) (SharedAsyncFile_read s buf (sw_heap w))
    | _ \<Rightarrow> None)"
| "shared_step api (Seek_owner i pos) w = (case owner_at w i of
      Some (Handle s) \<Rightarrow>
        map_option (\<lambda>(k, h). ([], add_owner (Seeking k) h w)) (SharedAsyncFile_seek s pos (sw_heap w))
    | _ \<Rightarrow> None)"
| "shared_step api (Poll_read i buf) w = (case owner_at w i of
      Some (Handle s) \<Rightarrow>
        map_option (\<lambda>(r, buf', h). ([Read_event (shared_inner s) buf r buf'], w\<lparr>sw_heap := h\<rparr>))
          (SharedAsyncFile_poll_read api s buf (sw_heap w))
    | _ \<Rightarrow> None)"
| "shared_step api (Poll_owner i) w = (case owner_at w i of
      Some (Reading r) \<Rightarrow>
        map_option (\<lambda>(p, r', h). ([Read_event (read_inner r) (read_buf r) p (read_buf r')],
          w\<lparr>sw_heap := h, owners := (owners w)[i := Reading r']\<rparr>))
          (SharedAsyncFileRead_poll api r (sw_heap w))
    | Some (Seeking k) \<Rightarrow>
        map_option (\<lambda>(p, h). ([Seek_event (seek_inner k) (seek_pos k) p], w\<lparr>sw_heap := h\<rparr>))
          (SharedSeekFuture_poll api k (sw_heap w))
    | _ \<Rightarrow> None)"
| "shared_step api (Drop_owner i) w = (case owner_at w i of
      Some x \<Rightarrow>
        map_option (\<lambda>h. ([], w\<lparr>sw_heap := h, owners := take i (owners w) @ drop (Suc i) (owners w)\<rparr>))
          (Arc_drop (owner_addr x) (sw_heap w))
    | _ \<Rightarrow> None)"

fun shared_run ::
  "('f, 'k) async_file_api \<Rightarrow> 'f shared_action list \<Rightarrow> 'f shared_world \<Rightarrow>
   (shared_event list \<times> 'f shared_world) option" where
  "shared_run api [] w = Some ([], w)"
| "shared_run api (act # acts) w = (case shared_step api act w of
      None \<Rightarrow> None
    | Some (evs, w') \<Rightarrow> map_option (\<lambda>(evs', w''). (evs @ evs', w'')) (shared_run api acts w'))"

fun is_handle :: "owner option \<Rightarrow> bool" where
  "is_handle (Some (Handle _)) = True"
| "is_handle _ = False"

fun is_future :: "owner option \<Rightarrow> bool" where
  "is_future (Some (Reading _)) = True"
| "is_future (Some (Seeking _)) = True"
| "is_future _ = False"

fun action_ok :: "'f shared_world \<Rightarrow> 'f shared_action \<Rightarrow> bool" where
  "action_ok w (Share f) \<longleftrightarrow> True"
| "action_ok w (Clone_owner i) \<longleftrightarrow> is_handle (owner_at w i)"
| "action_ok w (Read_owner i buf) \<longleftrightarrow> is_handle (owner_at w i)"
| "action_ok w (Seek_owner i pos) \<longleftrightarrow> is_handle (owner_at w i)"
| "action_ok w (Poll_read i buf) \<longleftrightarrow> is_handle (owner_at w i)"
| "action_ok w (Poll_owner i) \<longleftrightarrow> is_future (owner_at w i)"
| "action_ok w (Drop_owner i) \<longleftrightarrow> i < length (owners w)"

text \<open>The invariant: the counts agree with the owners.\<close>

definition owner_addrs :: "'f shared_world \<Rightarrow> addr list" where
  "owner_addrs w = map owner_addr (owners w)"

definition shared_ok :: "'f shared_world \<Rightarrow> bool" where
  "shared_ok w \<longleftrightarrow> arc.counts (sw_heap w) (owner_addrs w)"

definition file_at :: "'f shared_world \<Rightarrow> addr \<Rightarrow> 'f option" where
  "file_at w a = map_option lock_value (Arc_get (sw_heap w) a)"

definition events_of :: "addr \<Rightarrow> shared_event list \<Rightarrow> shared_event list" where
  "events_of a evs = filter (\<lambda>e. event_addr e = a) evs"

section \<open>A file owned alone\<close>

text \<open>
  The specification of the polls on one file: each is answered by a direct call of the file's own
  operation (\<open>file_answers\<close>), until one panics; from then on every poll panics and reaches neither
  the file nor the buffer. \<open>alone_run\<close> checks a sequence of polls against it, from a lock that is
  poisoned already or not, and gives the file afterwards.
\<close>

fun file_answers :: "('f, 'k) async_file_api \<Rightarrow> shared_event \<Rightarrow> 'f \<Rightarrow> 'f option" where
  "file_answers api (Read_event a buf r buf') f = (case af_poll_read api buf f of
      (r', buf'', f') \<Rightarrow> if r' = r \<and> buf'' = buf' then Some f' else None)"
| "file_answers api (Seek_event a pos r) f = (case af_poll_seek api (af_seek api pos) f of
      (r', _, f') \<Rightarrow> if r' = r then Some f' else None)"

fun operation_panics :: "('f, 'k) async_file_api \<Rightarrow> shared_event \<Rightarrow> 'f \<Rightarrow> bool" where
  "operation_panics api (Read_event a buf r buf') f \<longleftrightarrow> fst (af_poll_read api buf f) = Panicked"
| "operation_panics api (Seek_event a pos r) f \<longleftrightarrow> fst (af_poll_seek api (af_seek api pos) f) = Panicked"

fun poll_refused :: "shared_event \<Rightarrow> bool" where
  "poll_refused (Read_event a buf r buf') \<longleftrightarrow> r = Panicked \<and> buf' = buf"
| "poll_refused (Seek_event a pos r) \<longleftrightarrow> r = Panicked"

fun alone_run :: "('f, 'k) async_file_api \<Rightarrow> bool \<Rightarrow> 'f \<Rightarrow> shared_event list \<Rightarrow> 'f option" where
  "alone_run api poisoned f [] = Some f"
| "alone_run api poisoned f (e # es) =
     (if poisoned then if poll_refused e then alone_run api True f es else None
      else Option.bind (file_answers api e f) (\<lambda>f'. alone_run api (event_panics e) f' es))"

section \<open>One cursor\<close>

text \<open>
  The contract of a file with a cursor whose contents nobody changes: a read that succeeds fills a
  prefix of the buffer with the bytes at the cursor and moves it past them, one that is pending or
  fails has read nothing, and a seek that succeeds moves the cursor to its target. A pending or
  failed seek may leave the cursor anywhere, and nothing is asked of an operation that panics.
\<close>

fun seek_target :: "u8 list \<Rightarrow> nat \<Rightarrow> SeekFrom \<Rightarrow> int" where
  "seek_target bytes p (Seek_Start q) = int (unat q)"
| "seek_target bytes p (Seek_End d) = int (length bytes) + sint d"
| "seek_target bytes p (Seek_Current d) = int p + sint d"

definition read_at_cursor :: "u8 list \<Rightarrow> nat \<Rightarrow> u8 list \<Rightarrow> usize \<Rightarrow> u8 list \<Rightarrow> bool" where
  "read_at_cursor bytes p buf n buf' \<longleftrightarrow> unat n \<le> length buf \<and> unat n \<le> length bytes - p \<and>
     buf' = take (unat n) (drop p bytes) @ drop (unat n) buf"

definition cursor_contract ::
  "('f \<Rightarrow> u8 list) \<Rightarrow> ('f \<Rightarrow> nat) \<Rightarrow> ('f, 'k) async_file_api \<Rightarrow> bool" where
  "cursor_contract bytes cursor api \<longleftrightarrow>
     (\<forall>buf f. case af_poll_read api buf f of
        (Returned (Ready (Inr n)), buf', f') \<Rightarrow> read_at_cursor (bytes f) (cursor f) buf n buf' \<and>
          bytes f' = bytes f \<and> cursor f' = cursor f + unat n
      | (Returned _, _, f') \<Rightarrow> bytes f' = bytes f \<and> cursor f' = cursor f
      | _ \<Rightarrow> True) \<and>
     (\<forall>pos f. case af_poll_seek api (af_seek api pos) f of
        (Returned (Ready (Inr q)), _, f') \<Rightarrow> int (unat q) = seek_target (bytes f) (cursor f) pos \<and>
          bytes f' = bytes f \<and> cursor f' = unat q
      | (Returned _, _, f') \<Rightarrow> bytes f' = bytes f
      | _ \<Rightarrow> True)"

text \<open>
  The polls that a file of the given bytes with one cursor can answer, from position \<open>p\<close> to position
  \<open>q\<close>. After a seek that is pending or failed the position is any; a panic ends the use of the file.
\<close>

inductive cursor_path :: "u8 list \<Rightarrow> shared_event list \<Rightarrow> nat \<Rightarrow> nat \<Rightarrow> bool" for bytes where
  path_nil: "cursor_path bytes [] p p"
| path_read: "read_at_cursor bytes p buf n buf' \<Longrightarrow> cursor_path bytes es (p + unat n) q \<Longrightarrow>
     cursor_path bytes (Read_event a buf (Returned (Ready (Inr n))) buf' # es) p q"
| path_no_read: "r = Pending \<or> r = Ready (Inl err) \<Longrightarrow> cursor_path bytes es p q \<Longrightarrow>
     cursor_path bytes (Read_event a buf (Returned r) buf' # es) p q"
| path_seek: "int (unat k) = seek_target bytes p pos \<Longrightarrow> cursor_path bytes es (unat k) q \<Longrightarrow>
     cursor_path bytes (Seek_event a pos (Returned (Ready (Inr k))) # es) p q"
| path_lost: "r = Pending \<or> r = Ready (Inl err) \<Longrightarrow> cursor_path bytes es p' q \<Longrightarrow>
     cursor_path bytes (Seek_event a pos (Returned r) # es) p q"
| path_panic: "event_panics e \<Longrightarrow> list_all event_panics es \<Longrightarrow> cursor_path bytes (e # es) p q"

inductive_cases path_readE: "cursor_path bytes (Read_event a buf r buf' # es) p q"
inductive_cases path_seekE: "cursor_path bytes (Seek_event a pos r # es) p q"
inductive_simps cursor_path_nil [simp]: "cursor_path bytes [] p q"

fun is_seek :: "shared_event \<Rightarrow> bool" where
  "is_seek (Seek_event a pos r) = True"
| "is_seek (Read_event a buf r buf') = False"

text \<open>The bytes that the successful reads delivered, in order.\<close>

fun bytes_read :: "shared_event list \<Rightarrow> u8 list" where
  "bytes_read [] = []"
| "bytes_read (Read_event a buf (Returned (Ready (Inr n))) buf' # es) = take (unat n) buf' @ bytes_read es"
| "bytes_read (_ # es) = bytes_read es"

text \<open>
  Files for the witnesses: bytes and a cursor, at most two bytes per read, seeks from the start; and
  one whose seek panics.
\<close>

definition cursor_file :: "(u8 list \<times> nat, SeekFrom) async_file_api" where
  "cursor_file = \<lparr>
     af_poll_read = (\<lambda>buf (bs, p). let n = min (min 2 (length buf)) (length bs - p) in
       (Returned (Ready (Inr (of_nat n))), take n (drop p bs) @ drop n buf, (bs, p + n))),
     af_seek = (\<lambda>pos. pos),
     af_poll_seek = (\<lambda>pos (bs, p). case pos of
         Seek_Start q \<Rightarrow> (Returned (Ready (Inr q)), pos, (bs, unat q))
       | _ \<Rightarrow> (Returned (Ready (Inl (IoError InvalidInput ''seek''))), pos, (bs, p)))\<rparr>"

definition brittle_file :: "(u8 list \<times> nat, SeekFrom) async_file_api" where
  "brittle_file = cursor_file\<lparr>af_poll_seek := \<lambda>pos f. (Panicked, pos, f)\<rparr>"

section \<open>Lemmas\<close>

lemma owner_at_split:
  assumes "owner_at w i = Some x"
  shows "owners w = take i (owners w) @ x # drop (Suc i) (owners w)"
    and "owner_addr x \<in> set (owner_addrs w)"
    and "i < length (owners w)" "owners w ! i = x"
  using assms by (auto simp: owner_at_def owner_addrs_def id_take_nth_drop split: if_splits)

lemma owner_addrs_update:
  assumes "owner_at w i = Some x" and "owner_addr y = owner_addr x"
  shows "map owner_addr ((owners w)[i := y]) = owner_addrs w"
  using owner_at_split(3,4) [OF assms(1)] assms(2)
  by (metis list_update_id map_update owner_addrs_def)

lemma shared_ok_live:
  assumes "shared_ok w" and "a \<in> set (owner_addrs w)"
  obtains l where "Arc_get (sw_heap w) a = Some l"
  using assms arc.counts_live [of "sw_heap w" "owner_addrs w" a] by (auto simp: shared_ok_def)

lemma shared_ok_below_next:
  assumes "shared_ok w" and "a \<in> set (owner_addrs w)"
  shows "a < arc_next (sw_heap w)"
  using shared_ok_live [OF assms] assms(1)
  by (auto simp: shared_ok_def arc.counts_def arc_heap_ok_def Arc_get_def)

lemma shared_ok_set:
  assumes "shared_ok w" and "map owner_addr os = owner_addrs w"
  shows "shared_ok (w\<lparr>sw_heap := Arc_set a l' (sw_heap w), owners := os\<rparr>)"
  using assms arc.counts_set by (auto simp: shared_ok_def owner_addrs_def)

lemma shared_ok_drop:
  assumes "shared_ok w" and "owner_at w i = Some x"
  obtains h where "Arc_drop (owner_addr x) (sw_heap w) = Some h"
    and "shared_ok (w\<lparr>sw_heap := h, owners := take i (owners w) @ drop (Suc i) (owners w)\<rparr>)"
    and "\<And>a. a \<in> set (map owner_addr (take i (owners w) @ drop (Suc i) (owners w))) \<Longrightarrow>
       Arc_get h a = Arc_get (sw_heap w) a"
proof -
  let ?os = "take i (owners w) @ drop (Suc i) (owners w)"
  have counts: "arc.counts (sw_heap w) (owner_addrs w)" using assms(1) by (simp add: shared_ok_def)
  obtain h where h: "Arc_drop (owner_addr x) (sw_heap w) = Some h"
    using arc.counts_total(2) [OF counts owner_at_split(2) [OF assms(2)]] by blast
  have "owner_addrs w = map owner_addr (take i (owners w)) @ owner_addr x # map owner_addr (drop (Suc i) (owners w))"
    unfolding owner_addrs_def by (subst owner_at_split(1) [OF assms(2)]) simp
  with counts have counts': "arc.counts h (map owner_addr ?os)"
    using arc.counts_release [OF _ h] by simp
  have same: "Arc_get h a = Arc_get (sw_heap w) a" if "a \<in> set (map owner_addr ?os)" for a
    using arc.release_get [OF h] arc.counts_strong [OF counts'] that by blast
  with counts' h that show thesis by (simp add: shared_ok_def owner_addrs_def)
qed

lemma alone_run_append:
  "alone_run api p f (xs @ ys) =
     Option.bind (alone_run api p f xs) (\<lambda>f'. alone_run api (p \<or> list_ex event_panics xs) f' ys)"
proof (induction xs arbitrary: p f)
  case (Cons e es)
  have "poll_refused e \<Longrightarrow> event_panics e" by (cases e) auto
  with Cons show ?case by (cases "file_answers api e f") auto
qed simp

lemma events_of_simps [simp]:
  "events_of a [] = []" "events_of a (xs @ ys) = events_of a xs @ events_of a ys"
  "events_of a (e # es) = (if event_addr e = a then e # events_of a es else events_of a es)"
  by (simp_all add: events_of_def)

text \<open>What a step does to the lock and the file at an address.\<close>

definition cell_step ::
  "('f, 'k) async_file_api \<Rightarrow> 'f RwLock \<Rightarrow> shared_event list \<Rightarrow> 'f RwLock \<Rightarrow> bool" where
  "cell_step api l es l' \<longleftrightarrow> alone_run api (lock_poisoned l) (lock_value l) es = Some (lock_value l') \<and>
     (lock_poisoned l' \<longleftrightarrow> lock_poisoned l \<or> list_ex event_panics es)"

lemma cell_step_nil [simp]: "cell_step api l [] l"
  by (simp add: cell_step_def)

lemma cell_step_trans:
  "cell_step api l xs l1 \<Longrightarrow> cell_step api l1 ys l2 \<Longrightarrow> cell_step api l (xs @ ys) l2"
  by (auto simp: cell_step_def alone_run_append)

definition step_good ::
  "('f, 'k) async_file_api \<Rightarrow> 'f shared_world \<Rightarrow> shared_event list \<Rightarrow> 'f shared_world \<Rightarrow> bool" where
  "step_good api w evs w' \<longleftrightarrow> shared_ok w' \<and>
     list_all (\<lambda>e. event_addr e \<in> set (owner_addrs w) \<inter> set (owner_addrs w')) evs \<and> length evs \<le> 1 \<and>
     arc_next (sw_heap w) \<le> arc_next (sw_heap w') \<and>
     (\<forall>a \<in> set (owner_addrs w'). a \<in> set (owner_addrs w) \<or> arc_next (sw_heap w) \<le> a) \<and>
     (\<forall>a l l'. a \<in> set (owner_addrs w') \<longrightarrow> Arc_get (sw_heap w) a = Some l \<longrightarrow>
        Arc_get (sw_heap w') a = Some l' \<longrightarrow> cell_step api l (events_of a evs) l') \<and>
     (\<forall>a l'. a \<notin> set (owner_addrs w) \<longrightarrow> Arc_get (sw_heap w') a = Some l' \<longrightarrow> \<not> lock_poisoned l')"

lemma step_good_clone:
  assumes "shared_ok w" and "a \<in> set (owner_addrs w)"
  obtains h where "Arc_clone a (sw_heap w) = Some (a, h)"
    and "\<And>x. owner_addr x = a \<Longrightarrow> step_good api w [] (add_owner x h w)"
proof -
  have counts: "arc.counts (sw_heap w) (owner_addrs w)" using assms(1) by (simp add: shared_ok_def)
  obtain h where h: "Arc_clone a (sw_heap w) = Some (a, h)"
    using arc.counts_total(1) [OF counts assms(2)] by blast
  have "arc_next h = arc_next (sw_heap w)" using h by (auto simp: Arc_clone_def split: option.splits)
  moreover have "Arc_get (sw_heap w) b = None" if "b \<notin> set (owner_addrs w)" for b
    using arc.counts_live [OF counts, of b] that by simp
  ultimately have "step_good api w [] (add_owner x h w)" if "owner_addr x = a" for x
    using arc.counts_clone(2) [OF counts h] arc.clone_get [OF h] assms(2) that
    by (auto simp: step_good_def shared_ok_def owner_addrs_def)
  with h that show thesis by blast
qed

lemma step_good_drop:
  assumes "shared_ok w" and "owner_at w i = Some x"
  obtains h where "Arc_drop (owner_addr x) (sw_heap w) = Some h"
    and "step_good api w [] (w\<lparr>sw_heap := h, owners := take i (owners w) @ drop (Suc i) (owners w)\<rparr>)"
proof (rule shared_ok_drop [OF assms])
  fix h
  let ?os = "take i (owners w) @ drop (Suc i) (owners w)"
  assume h: "Arc_drop (owner_addr x) (sw_heap w) = Some h"
    and ok: "shared_ok (w\<lparr>sw_heap := h, owners := ?os\<rparr>)"
    and same: "\<And>a. a \<in> set (map owner_addr ?os) \<Longrightarrow> Arc_get h a = Arc_get (sw_heap w) a"
  have "arc_next h = arc_next (sw_heap w)" using h by (auto simp: Arc_drop_def split: option.splits)
  moreover have sub: "set ?os \<subseteq> set (owners w)" by (auto dest: in_set_takeD in_set_dropD)
  moreover have "Arc_get h b = None" if "b \<notin> set (owner_addrs w)" for b
    using ok arc.counts_live [of h "map owner_addr ?os" b] that sub
    by (auto simp: shared_ok_def owner_addrs_def)
  ultimately have "step_good api w [] (w\<lparr>sw_heap := h, owners := ?os\<rparr>)"
    using ok same by (auto simp: step_good_def owner_addrs_def)
  with h that show thesis by blast
qed

lemma step_good_new:
  assumes "shared_ok w" and "Arc_new (RwLock_new f) (sw_heap w) = (a, h)" and "owner_addr x = a"
  shows "step_good api w [] (add_owner x h w)"
proof -
  have counts: "arc.counts (sw_heap w) (owner_addrs w)" using assms(1) by (simp add: shared_ok_def)
  then have "arc_heap_ok (sw_heap w)" by (simp add: arc.counts_def)
  then have "Arc_get h b = (if b = a then Some (RwLock_new f) else Arc_get (sw_heap w) b)" for b
    by (rule arc.new_get [OF _ assms(2)])
  moreover have "Arc_get (sw_heap w) b = None" if "b \<notin> set (owner_addrs w)" for b
    using arc.counts_live [OF counts, of b] that by simp
  moreover have "arc_next h = Suc (arc_next (sw_heap w))" "a = arc_next (sw_heap w)"
    using assms(2) by (auto simp: Arc_new_def)
  ultimately show ?thesis
    using arc.counts_new [OF counts assms(2)] assms(3)
    by (auto simp: step_good_def shared_ok_def owner_addrs_def RwLock_new_def split: if_splits)
qed

text \<open>A poll under the lock: answered by the file, or refused by a poisoned lock.\<close>

lemma step_good_write:
  assumes "shared_ok w" and "a \<in> set (owner_addrs w)" and "Arc_get (sw_heap w) a = Some l"
    and "cell_step api l [e] l'" and "event_addr e = a" and "map owner_addr os = owner_addrs w"
    and "h = Arc_set a l' (sw_heap w) \<or> h = sw_heap w \<and> l' = l"
  shows "step_good api w [e] (w\<lparr>sw_heap := h, owners := os\<rparr>)"
proof -
  have get: "Arc_get h b = (if b = a then Some l' else Arc_get (sw_heap w) b)" for b
    using arc.set_get [of "sw_heap w" a l' b] assms(3,7) by auto
  moreover have "arc_next h = arc_next (sw_heap w)" using assms(7) by (auto simp: Arc_set_def)
  moreover have "shared_ok (w\<lparr>sw_heap := h, owners := os\<rparr>)"
    using assms(7) shared_ok_set [OF assms(1,6)] assms(1,6) by (auto simp: shared_ok_def owner_addrs_def)
  moreover have "Arc_get (sw_heap w) b = None" if "b \<notin> set (owner_addrs w)" for b
    using assms(1) arc.counts_live [of "sw_heap w" "owner_addrs w" b] that by (simp add: shared_ok_def)
  ultimately show ?thesis
    using assms(2-6) by (auto simp: step_good_def owner_addrs_def)
qed

lemma with_write_good:
  assumes "shared_ok w" and "a \<in> set (owner_addrs w)"
    and ev: "\<And>r b'. event_addr (ev r b') = a \<and> (event_panics (ev r b') \<longleftrightarrow> r = Panicked)"
    and answer: "\<And>f r b' f'. body b f = (r, b', f') \<Longrightarrow> file_answers api (ev r b') f = Some f'"
    and no: "poll_refused (ev Panicked b)"
  obtains r b' h where "with_write a body b (sw_heap w) = Some (r, b', h)"
    and "\<And>os. map owner_addr os = owner_addrs w \<Longrightarrow>
      step_good api w [ev r b'] (w\<lparr>sw_heap := h, owners := os\<rparr>)"
    and "step_good api w [ev r b'] (w\<lparr>sw_heap := h\<rparr>)"
proof -
  obtain l where l: "Arc_get (sw_heap w) a = Some l" by (rule shared_ok_live [OF assms(1,2)])
  obtain r b' h l' where run: "with_write a body b (sw_heap w) = Some (r, b', h)"
    and cell: "cell_step api l [ev r b'] l'"
    and h: "h = Arc_set a l' (sw_heap w) \<or> h = sw_heap w \<and> l' = l"
  proof (cases "lock_poisoned l")
    case True
    with l have "with_write a body b (sw_heap w) = Some (Panicked, b, sw_heap w)"
      by (simp add: with_write_def lock_unwrap_def)
    moreover have "cell_step api l [ev Panicked b] l" using True no by (simp add: cell_step_def)
    ultimately show thesis using that by blast
  next
    case False
    obtain r b' f' where body: "body b (lock_value l) = (r, b', f')" by (cases "body b (lock_value l)") auto
    let ?l = "l\<lparr>lock_value := f', lock_poisoned := r = Panicked\<rparr>"
    have "cell_step api l [ev r b'] ?l" using False answer [OF body] ev by (simp add: cell_step_def)
    moreover have "with_write a body b (sw_heap w) = Some (r, b', Arc_set a ?l (sw_heap w))"
      using False l body by (cases r; cases l) (simp_all add: with_write_def lock_unwrap_def)
    ultimately show thesis using that by blast
  qed
  have good: "step_good api w [ev r b'] (w\<lparr>sw_heap := h, owners := os\<rparr>)"
    if "map owner_addr os = owner_addrs w" for os
    by (rule step_good_write [OF assms(1,2) l cell _ that h]) (simp add: ev)
  show thesis using that [OF run good] good [of "owners w"] by (simp add: owner_addrs_def)
qed

lemma read_good:
  assumes "shared_ok w" and "a \<in> set (owner_addrs w)"
  obtains r buf' h where "with_write a (af_poll_read api) buf (sw_heap w) = Some (r, buf', h)"
    and "\<And>os. map owner_addr os = owner_addrs w \<Longrightarrow>
      step_good api w [Read_event a buf r buf'] (w\<lparr>sw_heap := h, owners := os\<rparr>)"
    and "step_good api w [Read_event a buf r buf'] (w\<lparr>sw_heap := h\<rparr>)"
  by (rule with_write_good [OF assms, of "Read_event a buf" "af_poll_read api" buf api]) (auto intro: that)

lemma seek_good:
  assumes "shared_ok w" and "a \<in> set (owner_addrs w)"
  obtains r pos' h where "with_write a (seek_body api) pos (sw_heap w) = Some (r, pos', h)"
    and "step_good api w [Seek_event a pos r] (w\<lparr>sw_heap := h\<rparr>)"
  by (rule with_write_good [OF assms, of "\<lambda>r _. Seek_event a pos r" "seek_body api" pos api])
    (auto simp: seek_body_def split: prod.splits intro: that)

lemma owner_at_kinds:
  assumes "action_ok w act"
  shows "case act of
      Share f \<Rightarrow> True
    | Poll_owner i \<Rightarrow> (\<exists>r. owner_at w i = Some (Reading r)) \<or> (\<exists>k. owner_at w i = Some (Seeking k))
    | Drop_owner i \<Rightarrow> (\<exists>x. owner_at w i = Some x)
    | Clone_owner i \<Rightarrow> (\<exists>s. owner_at w i = Some (Handle s))
    | Read_owner i buf \<Rightarrow> (\<exists>s. owner_at w i = Some (Handle s))
    | Seek_owner i pos \<Rightarrow> (\<exists>s. owner_at w i = Some (Handle s))
    | Poll_read i buf \<Rightarrow> (\<exists>s. owner_at w i = Some (Handle s))"
  using assms
  by (cases act) (auto elim!: is_handle.elims is_future.elims simp: owner_at_def [of _ "_ :: nat"] split: if_splits)

lemma poll_owner_good:
  assumes "shared_ok w" and "action_ok w (Poll_owner i)"
  shows "\<exists>evs w'. shared_step api (Poll_owner i) w = Some (evs, w') \<and> step_good api w evs w'"
proof -
  consider (read) r where "owner_at w i = Some (Reading r)" | (seek) k where "owner_at w i = Some (Seeking k)"
    using owner_at_kinds [OF assms(2)] by auto
  then show ?thesis
  proof cases
    case read
    have "map owner_addr ((owners w)[i := Reading (r\<lparr>read_buf := buf'\<rparr>)]) = owner_addrs w" for buf'
      by (rule owner_addrs_update [OF read]) simp
    moreover obtain p buf' h where
      "with_write (read_inner r) (af_poll_read api) (read_buf r) (sw_heap w) = Some (p, buf', h)"
      and "\<And>os. map owner_addr os = owner_addrs w \<Longrightarrow> step_good api w
        [Read_event (read_inner r) (read_buf r) p buf'] (w\<lparr>sw_heap := h, owners := os\<rparr>)"
      using read_good [OF assms(1) owner_at_split(2) [OF read], of api "read_buf r"]
      unfolding owner_addr.simps by metis
    ultimately show ?thesis using read by (simp add: SharedAsyncFileRead_poll_def)
  next
    case seek
    show ?thesis
      by (rule seek_good [OF assms(1) owner_at_split(2) [OF seek], of api "seek_pos k"])
        (use seek in \<open>simp add: SharedSeekFuture_poll_def\<close>)
  qed
qed

lemma handle_good:
  assumes "shared_ok w" and "action_ok w act"
    and "act = Clone_owner i \<or> act = Read_owner i buf \<or> act = Seek_owner i pos \<or> act = Poll_read i buf"
  shows "\<exists>evs w'. shared_step api act w = Some (evs, w') \<and> step_good api w evs w'"
proof -
  from assms(3) owner_at_kinds [OF assms(2)] obtain s where s: "owner_at w i = Some (Handle s)" by auto
  note addr = owner_at_split(2) [OF s]
  show ?thesis
  proof (cases "act = Poll_read i buf")
    case True
    show ?thesis
      by (rule read_good [OF assms(1) addr, of api buf])
        (use True s in \<open>simp add: SharedAsyncFile_poll_read_def\<close>)
  next
    case False
    show ?thesis
      by (rule step_good_clone [OF assms(1) addr, of api])
        (use assms(3) False s in \<open>auto simp: SharedAsyncFile_clone_def SharedAsyncFile_read_def
          SharedAsyncFile_seek_def SharedSeekFuture_new_def\<close>)
  qed
qed

lemma shared_step_good:
  assumes "shared_ok w" and "action_ok w act"
  shows "\<exists>evs w'. shared_step api act w = Some (evs, w') \<and> step_good api w evs w'"
proof (cases act)
  case (Share f)
  obtain a h where new: "Arc_new (RwLock_new f) (sw_heap w) = (a, h)" by fastforce
  with step_good_new [OF assms(1) new, of "Handle \<lparr>shared_inner = a\<rparr>" api] Share show ?thesis
    by (simp add: SharedAsyncFile_from_def SharedAsyncFile_new_def)
next
  case (Poll_owner i)
  with poll_owner_good assms show ?thesis by blast
next
  case (Drop_owner i)
  then obtain x where x: "owner_at w i = Some x" using owner_at_kinds [OF assms(2)] by auto
  show ?thesis
    by (rule step_good_drop [OF assms(1) x, of api]) (use Drop_owner x in auto)
qed (use handle_good [OF assms] in blast)+

lemma shared_step_action_ok: "shared_step api act w = Some r \<Longrightarrow> action_ok w act"
  by (cases act) (auto simp: owner_at_def split: option.splits owner.splits if_splits)

text \<open>Runs: every prefix of actions that type checks goes through and keeps the invariant.\<close>

lemma shared_step_Some:
  assumes "shared_ok w" and "shared_step api act w = Some (evs, w')"
  shows "step_good api w evs w'"
  using shared_step_good [OF assms(1) shared_step_action_ok [OF assms(2)], of api] assms(2) by auto

lemma shared_run_Cons:
  assumes "shared_run api (act # acts) w = Some (evs, w'')"
  obtains evs1 w' evs2 where "shared_step api act w = Some (evs1, w')"
    and "shared_run api acts w' = Some (evs2, w'')" and "evs = evs1 @ evs2"
  using assms by (auto split: option.splits)

lemma shared_run_ok:
  "shared_ok w \<Longrightarrow> shared_run api acts w = Some (evs, w') \<Longrightarrow> shared_ok w'"
proof (induction acts arbitrary: w evs)
  case (Cons act acts)
  show ?case
  proof (rule shared_run_Cons [OF Cons.prems(2)])
    fix evs1 w1 evs2
    assume step: "shared_step api act w = Some (evs1, w1)" "shared_run api acts w1 = Some (evs2, w')"
    have "step_good api w evs1 w1" by (rule shared_step_Some [OF Cons.prems(1) step(1)])
    then show ?case using Cons.IH [OF _ step(2)] by (simp add: step_good_def)
  qed
qed auto

lemma shared_ok_empty [simp]: "shared_ok shared_world_empty"
  by (simp add: shared_ok_def shared_world_empty_def owner_addrs_def)

text \<open>An address that has been freed is not used again.\<close>

lemma shared_run_back:
  "shared_ok w \<Longrightarrow> shared_run api acts w = Some (evs, w') \<Longrightarrow> a < arc_next (sw_heap w) \<Longrightarrow>
     a \<in> set (owner_addrs w') \<Longrightarrow> a \<in> set (owner_addrs w)"
proof (induction acts arbitrary: w evs)
  case (Cons act acts)
  show ?case
  proof (rule shared_run_Cons [OF Cons.prems(2)])
    fix evs1 w1 evs2
    assume step: "shared_step api act w = Some (evs1, w1)" "shared_run api acts w1 = Some (evs2, w')"
    have good: "step_good api w evs1 w1" by (rule shared_step_Some [OF Cons.prems(1) step(1)])
    then have "a \<in> set (owner_addrs w1)"
      using Cons.IH [OF _ step(2)] Cons.prems(3,4) by (auto simp: step_good_def)
    with good Cons.prems(3) show ?case by (auto simp: step_good_def)
  qed
qed auto

text \<open>The polls of a whole run on one file are those of a file owned alone.\<close>

lemma shared_run_cell:
  "shared_ok w \<Longrightarrow> shared_run api acts w = Some (evs, w') \<Longrightarrow> Arc_get (sw_heap w) a = Some l \<Longrightarrow>
     a \<in> set (owner_addrs w') \<Longrightarrow>
     \<exists>l'. Arc_get (sw_heap w') a = Some l' \<and> cell_step api l (events_of a evs) l'"
proof (induction acts arbitrary: w evs l)
  case (Cons act acts)
  show ?case
  proof (rule shared_run_Cons [OF Cons.prems(2)])
    fix evs1 w1 evs2
    assume step: "shared_step api act w = Some (evs1, w1)" "shared_run api acts w1 = Some (evs2, w')"
      "evs = evs1 @ evs2"
    have good: "step_good api w evs1 w1" by (rule shared_step_Some [OF Cons.prems(1) step(1)])
    then have ok1: "shared_ok w1" by (simp add: step_good_def)
    have "a \<in> set (owner_addrs w)"
      using Cons.prems(1,3) arc.counts_live [of "sw_heap w" "owner_addrs w" a] by (simp add: shared_ok_def)
    then have "a < arc_next (sw_heap w1)"
      using shared_ok_below_next [OF Cons.prems(1), of a] good by (auto simp: step_good_def)
    then have live: "a \<in> set (owner_addrs w1)"
      by (rule shared_run_back [OF ok1 step(2) _ Cons.prems(4)])
    obtain l1 where l1: "Arc_get (sw_heap w1) a = Some l1" by (rule shared_ok_live [OF ok1 live])
    have "cell_step api l (events_of a evs1) l1" using good live Cons.prems(3) l1 by (simp add: step_good_def)
    with Cons.IH [OF ok1 step(2) l1 Cons.prems(4)] step(3) show ?thesis
      by (auto intro: cell_step_trans)
  qed
qed auto

text \<open>A lock is poisoned exactly if an earlier poll of its file panicked.\<close>

definition poison_history :: "shared_event list \<Rightarrow> 'f shared_world \<Rightarrow> bool" where
  "poison_history evs w \<longleftrightarrow> (\<forall>e \<in> set evs. event_addr e < arc_next (sw_heap w)) \<and>
     (\<forall>a l. Arc_get (sw_heap w) a = Some l \<longrightarrow> (lock_poisoned l \<longleftrightarrow> list_ex event_panics (events_of a evs)))"

lemma poison_history_step:
  assumes "shared_ok w" and "poison_history evs0 w" and "step_good api w evs w'"
  shows "poison_history (evs0 @ evs) w'"
proof -
  have counts: "arc.counts (sw_heap w) (owner_addrs w)" "arc.counts (sw_heap w') (owner_addrs w')"
    using assms(1,3) by (simp_all add: shared_ok_def step_good_def)
  have next_le: "arc_next (sw_heap w) \<le> arc_next (sw_heap w')" using assms(3) by (simp add: step_good_def)
  have below: "event_addr e < arc_next (sw_heap w)" if "e \<in> set evs" for e
    using assms(3) that shared_ok_below_next [OF assms(1)] by (auto simp: step_good_def list_all_iff)
  have "lock_poisoned l' \<longleftrightarrow> list_ex event_panics (events_of a (evs0 @ evs))"
    if l': "Arc_get (sw_heap w') a = Some l'" for a l'
  proof (cases "a \<in> set (owner_addrs w)")
    case True
    then obtain l where l: "Arc_get (sw_heap w) a = Some l" using shared_ok_live [OF assms(1)] by blast
    have "a \<in> set (owner_addrs w')" using arc.counts_live [OF counts(2), of a] l' by simp
    then have "cell_step api l (events_of a evs) l'" using assms(3) l l' by (simp add: step_good_def)
    then show ?thesis using assms(2) l by (simp add: cell_step_def poison_history_def)
  next
    case False
    then have "a \<in> set (owner_addrs w')" "\<not> lock_poisoned l'"
      using assms(3) l' arc.counts_live [OF counts(2), of a] by (auto simp: step_good_def)
    then have "arc_next (sw_heap w) \<le> a" using assms(3) False by (auto simp: step_good_def)
    then have "events_of a (evs0 @ evs) = []"
      using assms(2) by (auto simp: events_of_def filter_empty_conv poison_history_def dest: below)
    with \<open>\<not> lock_poisoned l'\<close> show ?thesis by simp
  qed
  with next_le below assms(2) show ?thesis by (force simp: poison_history_def)
qed

lemma poison_history_run:
  "shared_ok w \<Longrightarrow> poison_history evs0 w \<Longrightarrow> shared_run api acts w = Some (evs, w') \<Longrightarrow>
     poison_history (evs0 @ evs) w'"
proof (induction acts arbitrary: w evs0 evs)
  case (Cons act acts)
  show ?case
  proof (rule shared_run_Cons [OF Cons.prems(3)])
    fix evs1 w1 evs2
    assume step: "shared_step api act w = Some (evs1, w1)" "shared_run api acts w1 = Some (evs2, w')"
      "evs = evs1 @ evs2"
    have good: "step_good api w evs1 w1" by (rule shared_step_Some [OF Cons.prems(1) step(1)])
    from Cons.IH [OF _ poison_history_step [OF Cons.prems(1,2) good] step(2)] good step(3)
    show ?thesis by (simp add: step_good_def)
  qed
qed simp

lemma poison_history_empty: "poison_history [] shared_world_empty"
  by (simp add: poison_history_def shared_world_empty_def arc_heap_empty_def Arc_get_def)

lemma step_good_alone:
  assumes "step_good api w evs' w'" and "poison_history evs w"
    and "file_at w a = Some f" and "file_at w' a = Some f'"
  shows "alone_run api (list_ex event_panics (events_of a evs)) f (events_of a evs') = Some f'"
proof -
  obtain l l' where l: "Arc_get (sw_heap w) a = Some l" "f = lock_value l"
    "Arc_get (sw_heap w') a = Some l'" "f' = lock_value l'"
    using assms(3,4) by (auto simp: file_at_def)
  have "a \<in> set (owner_addrs w')"
    using assms(1) l(3) arc.counts_live [of "sw_heap w'" "owner_addrs w'" a]
    by (simp add: step_good_def shared_ok_def)
  then have "cell_step api l (events_of a evs') l'" using assms(1) l by (simp add: step_good_def)
  with assms(2) l show ?thesis by (simp add: cell_step_def poison_history_def)
qed

lemma step_good_panics:
  assumes "shared_ok w" and "step_good api w evs' w'" and "poison_history evs w" and "e \<in> set evs'"
  shows "\<exists>f. file_at w (event_addr e) = Some f \<and>
    (event_panics e \<longleftrightarrow> operation_panics api e f \<or> list_ex event_panics (events_of (event_addr e) evs))"
proof -
  let ?a = "event_addr e"
  have "?a \<in> set (owner_addrs w)" "?a \<in> set (owner_addrs w')" "shared_ok w'"
    using assms(2,4) by (auto simp: step_good_def list_all_iff)
  then obtain f f' where f: "file_at w ?a = Some f" "file_at w' ?a = Some f'"
    using shared_ok_live assms(1) by (metis file_at_def option.simps(9))
  have "evs' = [e]" using assms(2,4) by (cases evs') (auto simp: step_good_def)
  with step_good_alone [OF assms(2,3) f]
  have "alone_run api (list_ex event_panics (events_of ?a evs)) f [e] = Some f'" by simp
  moreover have "file_answers api e f = Some f' \<Longrightarrow> event_panics e \<longleftrightarrow> operation_panics api e f" for f'
    by (cases e) (auto split: prod.splits if_splits)
  ultimately show ?thesis using f(1)
    by (cases e) (auto split: if_splits bind_splits)
qed

text \<open>A file with a cursor owned alone answers along a path of the cursor.\<close>

lemma file_answers_path:
  assumes "cursor_contract bytes cursor api" and "file_answers api e f = Some f'" and "\<not> event_panics e"
  shows "bytes f' = bytes f"
    and "cursor_path (bytes f) es (cursor f') q \<Longrightarrow> cursor_path (bytes f) (e # es) (cursor f) q"
proof -
  have "bytes f' = bytes f \<and>
    (cursor_path (bytes f) es (cursor f') q \<longrightarrow> cursor_path (bytes f) (e # es) (cursor f) q)"
  proof (cases e)
    case (Read_event a buf r buf')
    with assms(2,3) obtain x where "af_poll_read api buf f = (Returned x, buf', f')" "r = Returned x"
      by (cases r) (auto split: prod.splits if_splits)
    with Read_event show ?thesis
      using assms(1) [unfolded cursor_contract_def, THEN conjunct1, THEN spec, of buf, THEN spec, of f]
      by (auto simp: intro: path_read path_no_read split: poll.splits sum.splits)
  next
    case (Seek_event a pos r)
    with assms(2,3) obtain x k where "af_poll_seek api (af_seek api pos) f = (Returned x, k, f')"
      "r = Returned x"
      by (cases r) (auto split: prod.splits if_splits)
    with Seek_event show ?thesis
      using assms(1) [unfolded cursor_contract_def, THEN conjunct2, THEN spec, of pos, THEN spec, of f]
      by (auto simp: intro: path_seek path_lost split: poll.splits sum.splits)
  qed
  then show "bytes f' = bytes f"
    and "cursor_path (bytes f) es (cursor f') q \<Longrightarrow> cursor_path (bytes f) (e # es) (cursor f) q" by auto
qed

lemma alone_run_poisoned: "alone_run api True f es = Some f' \<Longrightarrow> f' = f \<and> list_all event_panics es"
proof (induction es)
  case (Cons e es)
  then show ?case by (cases e) (auto split: if_splits)
qed simp

lemma alone_run_path:
  assumes "cursor_contract bytes cursor api"
  shows "alone_run api poisoned f es = Some f' \<Longrightarrow>
    \<exists>q. cursor_path (bytes f) es (cursor f) q \<and>
      (list_all (\<lambda>e. \<not> event_panics e) es \<longrightarrow> q = cursor f' \<and> bytes f' = bytes f)"
proof (induction es arbitrary: poisoned f)
  case (Cons e es)
  show ?case
  proof (cases "poisoned \<or> event_panics e")
    case True
    then have "event_panics e" "list_all event_panics es"
      using Cons.prems alone_run_poisoned [of api f "e # es" f'] alone_run_poisoned [of api _ es f']
      by (cases poisoned; auto split: bind_splits)+
    then show ?thesis by (auto intro: path_panic)
  next
    case False
    then obtain f1 where f1: "file_answers api e f = Some f1" "alone_run api False f1 es = Some f'"
      using Cons.prems by (auto split: bind_splits)
    from Cons.IH [OF f1(2)] file_answers_path [OF assms f1(1)] False show ?thesis by fastforce
  qed
qed auto

lemma cursor_path_split:
  "cursor_path bytes (xs @ ys) p q \<Longrightarrow> \<exists>m. cursor_path bytes xs p m \<and> cursor_path bytes ys m q"
proof (induction xs arbitrary: p)
  case (Cons e es)
  have panic: "\<exists>m. cursor_path bytes (e # es) p m \<and> cursor_path bytes ys m q"
    if "event_panics e" "list_all event_panics (es @ ys)"
    using that by (cases ys) (auto intro: path_panic)
  from Cons.prems show ?case
    unfolding append_Cons
  proof (cases rule: cursor_path.cases)
    case path_panic
    then show ?thesis using panic by simp
  qed (use Cons.IH in \<open>blast intro: cursor_path.intros\<close>)+
qed simp

text \<open>Without seeks the successful reads deliver one contiguous piece of the file.\<close>

lemma bytes_read_panics: "list_all event_panics es \<Longrightarrow> bytes_read es = []"
proof (induction es)
  case (Cons e es)
  then show ?case by (cases e) auto
qed simp

lemma cursor_path_bytes_read:
  "cursor_path bytes es p q \<Longrightarrow> list_all (\<lambda>e. \<not> is_seek e) es \<Longrightarrow>
     bytes_read es = take (length (bytes_read es)) (drop p bytes)"
proof (induction rule: cursor_path.induct)
  case (path_read p buf n buf' es q a)
  let ?k = "length (bytes_read es)"
  have "bytes_read es = take ?k (drop (unat n) (drop p bytes))"
    using path_read by (simp add: add.commute)
  moreover have "take (unat n) buf' = take (unat n) (drop p bytes)" "unat n \<le> length (drop p bytes)"
    using path_read(1) by (auto simp: read_at_cursor_def)
  ultimately show ?case
    using take_add [of "unat n" ?k "drop p bytes"] by simp
next
  case (path_panic e es p q)
  then show ?case using bytes_read_panics [of "e # es"] by simp
qed auto

lemma cursor_path_after_seek:
  "cursor_path bytes (xs @ [Seek_event a pos (Returned (Ready (Inr k)))]) p q \<Longrightarrow> q = unat k"
  by (drule cursor_path_split) (auto elim: path_seekE)

lemma cursor_path_reads:
  assumes "cursor_path bytes (xs @ ys @ zs) p q" and "list_all (\<lambda>e. \<not> is_seek e) ys"
  obtains m where "cursor_path bytes xs p m" and "bytes_read ys = take (length (bytes_read ys)) (drop m bytes)"
  using assms cursor_path_split [of bytes xs "ys @ zs" p q] cursor_path_split [of bytes ys zs]
    cursor_path_bytes_read by metis

lemma cursor_file_contract: "cursor_contract fst snd cursor_file"
  by (auto simp: cursor_contract_def cursor_file_def read_at_cursor_def Let_def unat_of_nat
      min_def split: SeekFrom.split)

text \<open>A seek whose future needs a second poll never ends: each poll starts a new one.\<close>

lemma with_write_answer:
  assumes "with_write a body b h = Some (r, b', h')"
  shows "r = Panicked \<or> r = fst (body b (lock_value (the (Arc_get h a))))"
  using assms
  by (auto simp: with_write_def lock_unwrap_def split: option.splits if_splits prod.splits exec.splits)

lemma shared_seek_starves:
  assumes "\<And>pos f. fst (af_poll_seek api (af_seek api pos) f) = Returned Pending"
    and "SharedSeekFuture_poll api k h = Some (r, h')"
  shows "r = Panicked \<or> r = Returned Pending"
proof -
  have "fst (seek_body api pos f) = Returned Pending" for pos f
    using assms(1) [of pos f] by (auto simp: seek_body_def split: prod.splits)
  moreover obtain b' where "with_write (seek_inner k) (seek_body api) (seek_pos k) h = Some (r, b', h')"
    using assms(2) by (auto simp: SharedSeekFuture_poll_def)
  ultimately show ?thesis by (metis with_write_answer)
qed

text \<open>\<open>SharedAsyncFileRead::new\<close> takes over the reference it is given.\<close>

lemma SharedAsyncFileRead_new_counts:
  assumes "arc.counts h (a # refs)"
  obtains h' where "SharedAsyncFileRead_new a buf h = Some (\<lparr>read_inner = a, read_buf = buf\<rparr>, h')"
    and "arc.counts h' (a # refs)"
proof -
  obtain h1 where h1: "Arc_clone a h = Some (a, h1)"
    using arc.counts_total(1) [OF assms, of a] by auto
  then have counts: "arc.counts h1 ([a] @ a # refs)" using arc.counts_clone(2) [OF assms h1] by simp
  obtain h2 where h2: "Arc_drop a h1 = Some h2" using arc.counts_total(2) [OF counts, of a] by auto
  then have "arc.counts h2 (a # refs)" using arc.counts_release [OF counts h2] by simp
  with h1 h2 that show thesis by (simp add: SharedAsyncFileRead_new_def)
qed

section \<open>Properties\<close>

text \<open>
  C11. In every state that a program reaches with shared files, their clones and their futures, the
  next action that type checks goes through: no clone, poll or drop meets a freed file. After it the
  strong count of every file is the number of handles and futures that hold it, and the file exists
  exactly as long as there is one. A poll acts on the file as a direct call of the file's operation
  would, and leaves every other file alone; it panics exactly if that operation panics now or an
  earlier poll of the same file panicked, which poisoned the lock, and in the latter case it
  reaches neither the file nor the buffer.
\<close>

theorem shared_files_sound:
  assumes "shared_run api acts shared_world_empty = Some (evs, w)" and "action_ok w act"
  shows "\<exists>evs' w'. shared_step api act w = Some (evs', w') \<and>
     (\<forall>a. Arc_strong_count (sw_heap w') a = count_list (owner_addrs w') a \<and>
        (file_at w' a \<noteq> None \<longleftrightarrow> a \<in> set (owner_addrs w'))) \<and>
     (\<forall>a f f'. file_at w a = Some f \<longrightarrow> file_at w' a = Some f' \<longrightarrow>
        alone_run api (list_ex event_panics (events_of a evs)) f (events_of a evs') = Some f') \<and>
     (\<forall>e \<in> set evs'. \<exists>f. file_at w (event_addr e) = Some f \<and>
        (event_panics e \<longleftrightarrow> operation_panics api e f \<or>
           list_ex event_panics (events_of (event_addr e) evs)))"
proof -
  have ok: "shared_ok w" by (rule shared_run_ok [OF shared_ok_empty assms(1)])
  then obtain evs' w' where step: "shared_step api act w = Some (evs', w')" "step_good api w evs' w'"
    using shared_step_good [OF _ assms(2)] by blast
  have hist: "poison_history evs w"
    using poison_history_run [OF shared_ok_empty poison_history_empty assms(1)] by simp
  have counts: "arc.counts (sw_heap w') (owner_addrs w')"
    using step(2) by (simp add: step_good_def shared_ok_def)
  have cell: "alone_run api (list_ex event_panics (events_of a evs)) f (events_of a evs') = Some f'"
    if "file_at w a = Some f" "file_at w' a = Some f'" for a f f'
    using step_good_alone [OF step(2) hist that] .
  have "\<exists>f. file_at w (event_addr e) = Some f \<and> (event_panics e \<longleftrightarrow> operation_panics api e f \<or>
     list_ex event_panics (events_of (event_addr e) evs))" if "e \<in> set evs'" for e
    by (rule step_good_panics [OF ok step(2) hist that])
  with step(1) cell arc.counts_live [OF counts] counts show ?thesis
    by (auto simp: arc.counts_def file_at_def)
qed

text \<open>
  C4. All handles and futures of a shared file use one cursor, for a file whose contents nobody
  changes: whatever the interleaving of polls with actions on other files, clones and drops, the
  polls on one file follow a path of one cursor as long as the file is owned. So between two seeks, the bytes that
  the successful reads deliver, put together in the order of the polls and whoever made them, are
  one contiguous piece of the file. After a seek that answered \<open>k\<close> the piece starts at \<open>k\<close>, and after
  a seek that is pending or failed somewhere; a panic ends the reads of the file.
\<close>

theorem shared_file_one_cursor:
  assumes "cursor_contract bytes cursor api"
    and "shared_run api acts0 shared_world_empty = Some (evs0, w)"
    and "shared_run api acts w = Some (evs, w')"
    and "file_at w a = Some f" and "a \<in> set (owner_addrs w')"
  shows "\<exists>f' q. file_at w' a = Some f' \<and> cursor_path (bytes f) (events_of a evs) (cursor f) q \<and>
     (list_all (\<lambda>e. \<not> event_panics e) (events_of a evs) \<longrightarrow> q = cursor f' \<and> bytes f' = bytes f) \<and>
     (\<forall>xs ys zs. events_of a evs = xs @ ys @ zs \<longrightarrow> list_all (\<lambda>e. \<not> is_seek e) ys \<longrightarrow>
        (\<exists>p. cursor_path (bytes f) xs (cursor f) p \<and>
           bytes_read ys = take (length (bytes_read ys)) (drop p (bytes f)))) \<and>
     (\<forall>xs pos k ys zs. events_of a evs = xs @ Seek_event a pos (Returned (Ready (Inr k))) # ys @ zs \<longrightarrow>
        list_all (\<lambda>e. \<not> is_seek e) ys \<longrightarrow>
        bytes_read ys = take (length (bytes_read ys)) (drop (unat k) (bytes f)))"
proof -
  have ok: "shared_ok w" by (rule shared_run_ok [OF shared_ok_empty assms(2)])
  obtain l where l: "Arc_get (sw_heap w) a = Some l" "f = lock_value l"
    using assms(4) by (auto simp: file_at_def)
  obtain l' where l': "Arc_get (sw_heap w') a = Some l'" "cell_step api l (events_of a evs) l'"
    using shared_run_cell [OF ok assms(3) l(1) assms(5)] by blast
  then obtain q where path: "cursor_path (bytes f) (events_of a evs) (cursor f) q"
    and ends: "list_all (\<lambda>e. \<not> event_panics e) (events_of a evs) \<longrightarrow>
      q = cursor (lock_value l') \<and> bytes (lock_value l') = bytes f"
    using alone_run_path [OF assms(1)] l(2) unfolding cell_step_def by blast
  have piece: "\<exists>p. cursor_path (bytes f) xs (cursor f) p \<and>
      bytes_read ys = take (length (bytes_read ys)) (drop p (bytes f))"
    if "events_of a evs = xs @ ys @ zs" "list_all (\<lambda>e. \<not> is_seek e) ys" for xs ys zs
    using cursor_path_reads [of "bytes f" xs ys zs] path that by metis
  have "bytes_read ys = take (length (bytes_read ys)) (drop (unat k) (bytes f))"
    if "events_of a evs = xs @ Seek_event a pos (Returned (Ready (Inr k))) # ys @ zs"
      "list_all (\<lambda>e. \<not> is_seek e) ys" for xs pos k ys zs
    using piece [of "xs @ [Seek_event a pos (Returned (Ready (Inr k)))]" ys zs] that
      cursor_path_after_seek by fastforce
  with l' path ends piece show ?thesis
    by (intro exI [of _ "lock_value l'"] exI [of _ q]) (auto simp: file_at_def)
qed

lemmas shared_eval = shared_world_empty_def arc_heap_empty_def SharedAsyncFile_from_def
  SharedAsyncFile_new_def Arc_new_def SharedAsyncFile_read_def SharedAsyncFile_clone_def Arc_clone_def
  SharedAsyncFile_seek_def SharedSeekFuture_new_def SharedSeekFuture_poll_def seek_body_def
  owner_at_def SharedAsyncFile_poll_read_def SharedAsyncFileRead_poll_def with_write_def
  Arc_get_def Arc_set_def lock_unwrap_def RwLock_new_def cursor_file_def brittle_file_def

text \<open>
  A handle and a seek future whose poll panicked: the next poll of the handle panics and the count
  is still two.
\<close>

theorem shared_files_sound_witness:
  "\<exists>evs w evs' w'. shared_run brittle_file
      [Share ([1, 2, 3, 4, 5, 6], 0), Seek_owner 0 (Seek_Start 2), Poll_owner 0] shared_world_empty
        = Some (evs, w) \<and>
     shared_step brittle_file (Poll_read 1 [0, 0]) w = Some (evs', w') \<and>
     evs' \<noteq> [] \<and> list_all event_panics evs' \<and> Arc_strong_count (sw_heap w') 0 = 2"
proof -
  obtain evs w where run: "shared_run brittle_file
      [Share ([1, 2, 3, 4, 5, 6], 0), Seek_owner 0 (Seek_Start 2), Poll_owner 0] shared_world_empty
        = Some (evs, w)"
    and ok: "action_ok w (Poll_read 1 [0, 0])"
    and evs: "evs = [Seek_event 0 (Seek_Start 2) Panicked]"
    by (simp add: shared_eval)
  obtain evs' w' where step: "shared_step brittle_file (Poll_read 1 [0, 0]) w = Some (evs', w')"
    and count: "Arc_strong_count (sw_heap w') 0 = count_list (owner_addrs w') 0"
    and panics: "\<And>e. e \<in> set evs' \<Longrightarrow> list_ex event_panics (events_of (event_addr e) evs) \<Longrightarrow>
      event_panics e"
    using shared_files_sound [OF run ok] by blast
  have "evs' \<noteq> []" "\<forall>e \<in> set evs'. event_addr e = 0" "count_list (owner_addrs w') 0 = 2"
    using run step by (auto simp: shared_eval owner_addrs_def)
  then show ?thesis using run step count panics evs by (auto simp: list_all_iff)
qed

text \<open>
  Six bytes, a handle, its clone, a read future and a seek: two bytes are read, the seek goes to 1,
  and the reads of two owners then deliver the four bytes from there.
\<close>

theorem shared_file_one_cursor_witness:
  "\<exists>w evs w'. shared_run cursor_file [Share ([1, 2, 3, 4, 5, 6], 0), Clone_owner 0] shared_world_empty = Some ([], w) \<and>
     shared_run cursor_file [Read_owner 0 [0, 0, 0], Poll_owner 0, Seek_owner 1 (Seek_Start 1), Poll_owner 0,
       Poll_owner 1, Poll_read 2 [9, 9]] w = Some (evs, w') \<and>
     bytes_read (drop 2 (events_of 0 evs)) = take 4 (drop 1 [1, 2, 3, 4, 5, 6])"
proof -
  let ?f = "([1, 2, 3, 4, 5, 6 :: u8], 0 :: nat)"
  obtain w where w: "shared_run cursor_file [Share ?f, Clone_owner 0] shared_world_empty = Some ([], w)"
    "file_at w 0 = Some ?f"
    by (simp add: shared_eval file_at_def)
  obtain evs w' where run: "shared_run cursor_file
      [Read_owner 0 [0, 0, 0], Poll_owner 0, Seek_owner 1 (Seek_Start 1), Poll_owner 0,
       Poll_owner 1, Poll_read 2 [9, 9]] w = Some (evs, w')"
    and live: "0 \<in> set (owner_addrs w')"
    and split: "events_of 0 evs = take 1 (events_of 0 evs) @
      Seek_event 0 (Seek_Start 1) (Returned (Ready (Inr 1))) # drop 2 (events_of 0 evs) @ []"
    and no_seek: "list_all (\<lambda>e. \<not> is_seek e) (drop 2 (events_of 0 evs))"
    and len: "length (bytes_read (drop 2 (events_of 0 evs))) = 4"
    using w(1) by (auto simp: shared_eval owner_addrs_def)
  have "bytes_read (drop 2 (events_of 0 evs)) = take (length (bytes_read (drop 2 (events_of 0 evs))))
      (drop (unat (1 :: u64)) (fst ?f))"
    using shared_file_one_cursor [OF cursor_file_contract w(1) run w(2) live] split no_seek by blast
  then have "bytes_read (drop 2 (events_of 0 evs)) = take 4 (drop 1 [1, 2, 3, 4, 5, 6])"
    unfolding len by simp
  with w(1) run show ?thesis by blast
qed

end
