(* ===== verification/Doomsday.thy ===== *)
theory Doomsday
  imports Rust_Time
begin

text \<open>
  \<open>src/src/doomsday.rs\<close>: a timer that panics or exits the process unless it is reset in time. The
  fields shared by the clones of a timer are the record \<open>DoomsdayTimer\<close>; the world adds the clock,
  the position of the task that runs \<open>main_loop\<close>, the resets that have read the clock and wait for
  the lock, and whether the process has exited. \<open>main_loop\<close> is cut at each access to shared state,
  and the step relation interleaves it with resets, \<open>defuse\<close>, \<open>explode\<close> and time. The lemmas are
  about every run of that relation.
\<close>

section \<open>Data\<close>

record DoomsdayTimer =
  time_to_explode :: Instant
  duration :: Duration
  defused :: bool
  aggressive_mode :: bool

text \<open>
  Where the task of \<open>main_loop\<close> is: at the test of \<open>defused\<close>, before \<open>Instant::now()\<close>, before the
  lock with the time it read, before the timer of the sleep is made, asleep until an instant, or
  ended.
\<close>

datatype loop_pc =
    Loop_Check | Loop_Now | Loop_Lock Instant | Loop_Sleep nat | Loop_Sleeping Instant
  | Loop_Returned | Loop_Exploded

record doom_world =
  timer :: DoomsdayTimer
  clock :: Instant
  pc :: loop_pc
  resets :: "Instant list"
  exited :: bool

datatype explosion = Process_Exit nat | Thread_Panic

section \<open>Operations\<close>

definition doom_spawn :: "Duration \<Rightarrow> bool \<Rightarrow> Instant \<Rightarrow> doom_world exec" where
  "doom_spawn dur exit_on_explode now =
     exec_bind (instant_add now dur) (\<lambda>t.
       Returned \<lparr>timer = \<lparr>time_to_explode = t, duration = dur, defused = False,
           aggressive_mode = exit_on_explode\<rparr>,
         clock = now, pc = Loop_Check, resets = [], exited = False\<rparr>)"

text \<open>\<open>Display\<close>; the debug output of a duration is the language's.\<close>

definition DoomsdayTimer_fmt :: "(Duration \<Rightarrow> string) \<Rightarrow> DoomsdayTimer \<Rightarrow> string" where
  "DoomsdayTimer_fmt debug self =
     (let fail_mode = if aggressive_mode self then ''Exits'' else ''Panics'' in
      ''DoomsdayTimer(Duration: '' @ debug (duration self) @ '', '' @ fail_mode @ '')'')"

text \<open>\<open>reset\<close> computes the new time and then waits for the lock to store it.\<close>

definition reset_begin :: "doom_world \<Rightarrow> doom_world exec" where
  "reset_begin w =
     exec_bind (instant_add (clock w) (duration (timer w)))
       (\<lambda>t. Returned (w\<lparr>resets := t # resets w\<rparr>))"

definition reset_store :: "Instant \<Rightarrow> doom_world \<Rightarrow> doom_world" where
  "reset_store t w = w\<lparr>timer := (timer w)\<lparr>time_to_explode := t\<rparr>, resets := remove1 t (resets w)\<rparr>"

definition defuse :: "doom_world \<Rightarrow> doom_world" where
  "defuse w = w\<lparr>timer := (timer w)\<lparr>defused := True\<rparr>\<rparr>"

definition explode_inner :: "DoomsdayTimer \<Rightarrow> explosion" where
  "explode_inner self = (if aggressive_mode self then Process_Exit 1 else Thread_Panic)"

text \<open>\<open>explode\<close> ends the process, or panics the thread that calls it and leaves the timer alone.\<close>

definition explode :: "doom_world \<Rightarrow> doom_world" where
  "explode w =
     (case explode_inner (timer w) of
        Process_Exit _ \<Rightarrow> w\<lparr>exited := True\<rparr>
      | Thread_Panic \<Rightarrow> w)"

definition main_loop_step :: "doom_world \<Rightarrow> doom_world option" where
  "main_loop_step w =
     (case pc w of
        Loop_Check \<Rightarrow>
          Some (if defused (timer w) then w\<lparr>pc := Loop_Returned\<rparr> else w\<lparr>pc := Loop_Now\<rparr>)
      | Loop_Now \<Rightarrow> Some (w\<lparr>pc := Loop_Lock (clock w)\<rparr>)
      | Loop_Lock now \<Rightarrow>
          Some (if time_to_explode (timer w) < now then (explode w)\<lparr>pc := Loop_Exploded\<rparr>
                else w\<lparr>pc := Loop_Sleep (time_to_explode (timer w) - now)\<rparr>)
      | Loop_Sleep d \<Rightarrow> Some (w\<lparr>pc := Loop_Sleeping (clock w + d)\<rparr>)
      | Loop_Sleeping u \<Rightarrow> if u \<le> clock w then Some (w\<lparr>pc := Loop_Check\<rparr>) else None
      | Loop_Returned \<Rightarrow> None
      | Loop_Exploded \<Rightarrow> None)"

section \<open>Interleavings\<close>

datatype doom_event =
    Ev_Loop | Ev_Reset_Begin Instant | Ev_Reset_Store Instant | Ev_Defuse | Ev_Explode | Ev_Tick nat

inductive doom_step :: "doom_world \<Rightarrow> doom_event \<Rightarrow> doom_world \<Rightarrow> bool" where
  loop: "\<not> exited w \<Longrightarrow> main_loop_step w = Some w' \<Longrightarrow> doom_step w Ev_Loop w'"
| reset_begin: "\<not> exited w \<Longrightarrow> reset_begin w = Returned w' \<Longrightarrow>
    doom_step w (Ev_Reset_Begin (clock w)) w'"
| reset_store: "\<not> exited w \<Longrightarrow> t \<in> set (resets w) \<Longrightarrow> doom_step w (Ev_Reset_Store t) (reset_store t w)"
| defuse: "\<not> exited w \<Longrightarrow> doom_step w Ev_Defuse (defuse w)"
| explode: "\<not> exited w \<Longrightarrow> doom_step w Ev_Explode (explode w)"
| tick: "\<not> exited w \<Longrightarrow> doom_step w (Ev_Tick n) (w\<lparr>clock := clock w + n\<rparr>)"

inductive doom_run :: "doom_world \<Rightarrow> doom_event list \<Rightarrow> doom_world \<Rightarrow> bool" where
  run_start: "doom_run w [] w"
| run_snoc: "doom_run w evs w' \<Longrightarrow> doom_step w' e w'' \<Longrightarrow> doom_run w (evs @ [e]) w''"

text \<open>The deadline that the last stored reset set, given the first one.\<close>

definition last_deadline :: "Instant \<Rightarrow> doom_event list \<Rightarrow> Instant" where
  "last_deadline t0 evs = fold (\<lambda>e d. case e of Ev_Reset_Store t \<Rightarrow> t | _ \<Rightarrow> d) evs t0"

text \<open>
  The task of \<open>main_loop\<close> run alone by an executor: each of its steps takes a nanosecond, and when it
  sleeps time passes until it can be woken.
\<close>

fun drive :: "nat \<Rightarrow> doom_world \<Rightarrow> doom_world" where
  "drive 0 w = w"
| "drive (Suc n) w =
     (if exited w then w
      else case main_loop_step w of
        Some w' \<Rightarrow> if exited w' then w' else drive n (w'\<lparr>clock := clock w' + 1\<rparr>)
      | None \<Rightarrow>
          (case pc w of
             Loop_Sleeping u \<Rightarrow> drive n (w\<lparr>clock := clock w + (u - clock w)\<rparr>)
           | _ \<Rightarrow> w))"

text \<open>The positions from which the loop tests \<open>defused\<close> before it can explode.\<close>

fun before_check :: "loop_pc \<Rightarrow> bool" where
  "before_check Loop_Check \<longleftrightarrow> True"
| "before_check (Loop_Sleep d) \<longleftrightarrow> True"
| "before_check (Loop_Sleeping u) \<longleftrightarrow> True"
| "before_check Loop_Returned \<longleftrightarrow> True"
| "before_check Loop_Now \<longleftrightarrow> False"
| "before_check (Loop_Lock n) \<longleftrightarrow> False"
| "before_check Loop_Exploded \<longleftrightarrow> False"

section \<open>Invariant\<close>

text \<open>
  With \<open>t0\<close> the time of \<open>spawn\<close> and \<open>evs\<close> the events so far: the stored deadline is the one of the last
  reset stored, every deadline stored or about to be is a full duration after the start of a reset
  or after \<open>spawn\<close>, and the time the loop has read is not in the future.
\<close>

definition reset_starts :: "Instant \<Rightarrow> doom_event list \<Rightarrow> Instant set" where
  "reset_starts t0 evs = insert t0 {b. Ev_Reset_Begin b \<in> set evs}"

definition full_deadline :: "Duration \<Rightarrow> Instant \<Rightarrow> doom_event list \<Rightarrow> Instant \<Rightarrow> bool" where
  "full_deadline dur t0 evs t \<longleftrightarrow> (\<exists>b \<in> reset_starts t0 evs. t = b + in_nanos dur)"

definition doom_inv :: "Duration \<Rightarrow> Instant \<Rightarrow> doom_event list \<Rightarrow> doom_world \<Rightarrow> bool" where
  "doom_inv dur t0 evs w \<longleftrightarrow>
     duration (timer w) = dur \<and>
     time_to_explode (timer w) = last_deadline (t0 + in_nanos dur) evs \<and>
     full_deadline dur t0 evs (time_to_explode (timer w)) \<and>
     (\<forall>t \<in> set (resets w). full_deadline dur t0 evs t) \<and>
     (\<forall>now. pc w = Loop_Lock now \<longrightarrow> now \<le> clock w)"

section \<open>Lemmas\<close>

inductive_cases doom_step_loopE: "doom_step w Ev_Loop w'"
inductive_simps doom_run_Nil: "doom_run w [] w'"

lemmas doom_defs = reset_begin_def reset_store_def defuse_def explode_def

lemma last_deadline_snoc [simp]:
  "last_deadline t0 (evs @ [e]) =
     (case e of Ev_Reset_Store t \<Rightarrow> t | _ \<Rightarrow> last_deadline t0 evs)"
  by (simp add: last_deadline_def split: doom_event.split)

lemma full_deadline_snoc: "full_deadline dur t0 evs t \<Longrightarrow> full_deadline dur t0 (evs @ [e]) t"
  by (auto simp: full_deadline_def reset_starts_def)

lemma full_deadline_begin:
  "full_deadline dur t0 (evs @ [Ev_Reset_Begin b]) (b + in_nanos dur)"
  by (auto simp: full_deadline_def reset_starts_def)

lemma main_loop_step_frame:
  assumes "main_loop_step w = Some w'"
  shows "timer w' = timer w \<and> resets w' = resets w \<and> clock w' = clock w \<and>
     (pc w' = Loop_Lock now \<longrightarrow> now = clock w)"
  using assms
  by (auto simp: main_loop_step_def explode_def split: loop_pc.splits if_splits explosion.splits)

lemma doom_inv_step:
  assumes inv: "doom_inv dur t0 evs w" and "doom_step w e w'"
  shows "doom_inv dur t0 (evs @ [e]) w'"
  using assms(2)
proof (cases rule: doom_step.cases)
  case loop
  then have "main_loop_step w = Some w'" by simp
  from main_loop_step_frame [OF this] loop inv show ?thesis
    by (auto simp: doom_inv_def full_deadline_snoc)
next
  case reset_begin
  with inv show ?thesis
    by (auto simp: doom_inv_def doom_defs exec_simps full_deadline_snoc full_deadline_begin)
next
  case (reset_store t)
  with inv show ?thesis
    by (auto simp: doom_inv_def doom_defs full_deadline_snoc dest: set_remove1_subset [THEN subsetD])
qed (use inv in \<open>auto simp: doom_inv_def doom_defs full_deadline_snoc split: explosion.split\<close>)

lemma doom_inv_run:
  assumes "doom_run w0 evs w" and "doom_spawn dur exit_on_explode t0 = Returned w0"
  shows "doom_inv dur t0 evs w"
  using assms
proof (induction rule: doom_run.induct)
  case (run_start w)
  then show ?case
    by (auto simp: doom_spawn_def doom_inv_def exec_simps last_deadline_def
        full_deadline_def reset_starts_def)
next
  case (run_snoc w evs w' e w'')
  then show ?case using doom_inv_step by blast
qed

lemma exploding_step:
  assumes "main_loop_step w = Some w'" and "pc w' = Loop_Exploded"
  obtains now where "pc w = Loop_Lock now" "time_to_explode (timer w) < now"
  using assms by (auto simp: main_loop_step_def split: loop_pc.splits if_splits)

lemma before_check_step:
  assumes "doom_step w e w'" and "before_check (pc w)" and "defused (timer w)"
  shows "before_check (pc w') \<and> defused (timer w')"
  using assms(1)
proof (cases rule: doom_step.cases)
  case loop
  with assms(2,3) show ?thesis
    by (auto simp: main_loop_step_def split: loop_pc.splits if_splits)
qed (use assms(2,3) in \<open>auto simp: doom_defs exec_simps split: explosion.split\<close>)

lemma doom_run_step: "doom_step w e w' \<Longrightarrow> doom_run w [e] w'"
  using run_snoc [OF run_start, of w e w'] by simp

lemma doom_run_append:
  assumes "doom_run w' evs' w''" and "doom_run w evs w'"
  shows "doom_run w (evs @ evs') w''"
  using assms
proof (induction rule: doom_run.induct)
  case (run_snoc w evs1 w1 e w2)
  then show ?case using doom_run.run_snoc [of _ "evs @ evs1"] by fastforce
qed simp

lemma drive_run:
  assumes "\<not> exited w"
  shows "\<exists>evs. doom_run w evs (drive n w) \<and> (\<forall>e \<in> set evs. e = Ev_Loop \<or> (\<exists>k. e = Ev_Tick k))"
  using assms
proof (induction n arbitrary: w)
  case 0
  then show ?case by (auto intro: exI [of _ "[]"] run_start)
next
  case (Suc n)
  show ?case
  proof (cases "main_loop_step w")
    case None
    show ?thesis
    proof (cases "\<exists>u. pc w = Loop_Sleeping u")
      case True
      then obtain u where u: "pc w = Loop_Sleeping u" by blast
      let ?w = "w\<lparr>clock := clock w + (u - clock w)\<rparr>"
      have "doom_run w [Ev_Tick (u - clock w)] ?w"
        using Suc.prems by (intro doom_run_step doom_step.tick)
      moreover obtain evs where "doom_run ?w evs (drive n ?w)"
        "\<forall>e \<in> set evs. e = Ev_Loop \<or> (\<exists>k. e = Ev_Tick k)"
        using Suc.IH [of ?w] Suc.prems by auto
      ultimately show ?thesis using None u Suc.prems
        by (intro exI [of _ "[Ev_Tick (u - clock w)] @ evs"])
          (auto intro: doom_run_append simp del: append_Cons)
    next
      case False
      then show ?thesis using None Suc.prems
        by (auto intro!: exI [of _ "[]"] run_start split: loop_pc.splits)
    qed
  next
    case (Some w1)
    then have s: "doom_run w [Ev_Loop] w1" using Suc.prems by (intro doom_run_step doom_step.loop)
    show ?thesis
    proof (cases "exited w1")
      case True
      with s Some Suc.prems show ?thesis by (intro exI [of _ "[Ev_Loop]"]) simp
    next
      case False
      let ?w = "w1\<lparr>clock := clock w1 + 1\<rparr>"
      have t: "doom_run w ([Ev_Loop] @ [Ev_Tick 1]) ?w"
        using False by (intro run_snoc [OF s] doom_step.tick)
      obtain evs where e: "doom_run ?w evs (drive n ?w)"
        "\<forall>e \<in> set evs. e = Ev_Loop \<or> (\<exists>k. e = Ev_Tick k)"
        using Suc.IH [of ?w] False by auto
      from doom_run_append [OF e(1) t] e(2) Some False Suc.prems show ?thesis
        by (intro exI [of _ "([Ev_Loop] @ [Ev_Tick 1]) @ evs"]) simp
    qed
  qed
qed

lemma spawn_fields:
  assumes "doom_spawn dur exit_on_explode t0 = Returned w"
  shows "timer w = \<lparr>time_to_explode = t0 + in_nanos dur, duration = dur, defused = False,
       aggressive_mode = exit_on_explode\<rparr> \<and> clock w = t0 \<and> pc w = Loop_Check \<and>
     resets w = [] \<and> \<not> exited w \<and> t0 + in_nanos dur \<le> INSTANT_MAX"
  using assms by (auto simp: doom_spawn_def exec_simps)

text \<open>Small numerals, so that the simplifier unrolls \<open>drive\<close> that many times.\<close>

lemmas unroll = main_loop_step_def explode_def explode_inner_def numeral_eq_Suc

lemma drive_defused:
  assumes "before_check (pc w)" and "\<not> exited w" and "defused (timer w)"
  shows "pc (drive 4 w) = Loop_Returned \<and> \<not> exited (drive 4 w)"
  using assms by (cases "pc w") (auto simp: unroll)

text \<open>
  Past the deadline: how many steps the loop makes until it explodes, what a run of the loop and the
  clock keeps, and that the loop is not stuck.
\<close>

definition loops_left :: "doom_world \<Rightarrow> nat" where
  "loops_left w = (case pc w of
      Loop_Check \<Rightarrow> 3 | Loop_Now \<Rightarrow> 2
    | Loop_Lock now \<Rightarrow> if time_to_explode (timer w) < now then 1 else 6
    | Loop_Sleep _ \<Rightarrow> 5 | Loop_Sleeping _ \<Rightarrow> 4 | Loop_Returned \<Rightarrow> 0 | Loop_Exploded \<Rightarrow> 0)"

definition overdue :: "doom_world \<Rightarrow> doom_world \<Rightarrow> bool" where
  "overdue w w' \<longleftrightarrow> timer w' = timer w \<and> \<not> defused (timer w) \<and> time_to_explode (timer w) < clock w' \<and>
     pc w' \<noteq> Loop_Returned \<and> exited w' = (pc w' = Loop_Exploded \<and> aggressive_mode (timer w))"

lemma overdue_step:
  assumes "doom_step w1 e w2" and "overdue w w1" and "e = Ev_Loop \<or> (\<exists>k. e = Ev_Tick k)"
  shows "overdue w w2 \<and> loops_left w1 = loops_left w2 + (if e = Ev_Loop then 1 else 0)"
  using assms
  by (cases rule: doom_step.cases)
    (auto simp: overdue_def loops_left_def main_loop_step_def explode_def explode_inner_def
      split: loop_pc.splits if_splits)

lemma overdue_run:
  assumes "doom_run w1 evs w2" and "overdue w w1" and "\<forall>e \<in> set evs. e = Ev_Loop \<or> (\<exists>k. e = Ev_Tick k)"
  shows "overdue w w2 \<and> loops_left w1 = loops_left w2 + count_list evs Ev_Loop"
  using assms
proof (induction rule: doom_run.induct)
  case (run_snoc w1 evs w2 e w3)
  then show ?case using overdue_step [of w2 e w3 w] by auto
qed simp

lemma overdue_enabled:
  assumes "overdue w w'" and "pc w' \<noteq> Loop_Exploded"
  shows "\<exists>c. \<forall>t \<ge> c. \<exists>w''. doom_step (w'\<lparr>clock := t\<rparr>) Ev_Loop w''"
proof (rule exI [of _ "case pc w' of Loop_Sleeping u \<Rightarrow> u | _ \<Rightarrow> 0"], intro allI impI)
  fix t assume t: "(case pc w' of Loop_Sleeping u \<Rightarrow> u | _ \<Rightarrow> 0) \<le> t"
  obtain w'' where "main_loop_step (w'\<lparr>clock := t\<rparr>) = Some w''"
    using assms t by (auto simp: overdue_def main_loop_step_def split: loop_pc.splits)
  moreover have "\<not> exited (w'\<lparr>clock := t\<rparr>)" using assms by (simp add: overdue_def)
  ultimately show "\<exists>w''. doom_step (w'\<lparr>clock := t\<rparr>) Ev_Loop w''" by (blast intro: doom_step.loop)
qed

section \<open>Properties\<close>

text \<open>
  C5. The main loop explodes by time-out only when the timer is due: in every interleaving of the
  loop with resets, \<open>defuse\<close>, \<open>explode\<close> and time, if the next step of the loop explodes then the
  deadline in force is the one the last stored reset set (or \<open>spawn\<close>, when there was none), it lies
  one full duration after the start of that reset, and the clock has passed it.
\<close>

theorem no_early_explosion:
  assumes "doom_spawn dur exit_on_explode t0 = Returned w0"
    and "doom_run w0 evs w" and "doom_step w Ev_Loop w'" and "pc w' = Loop_Exploded"
  shows "\<exists>b \<in> reset_starts t0 evs. last_deadline (t0 + in_nanos dur) evs = b + in_nanos dur \<and>
     b + in_nanos dur < clock w"
proof -
  from assms(3) have "main_loop_step w = Some w'" by (rule doom_step_loopE)
  then obtain now where now: "pc w = Loop_Lock now" "time_to_explode (timer w) < now"
    using assms(4) by (rule exploding_step)
  have inv: "doom_inv dur t0 evs w" using assms(2,1) by (rule doom_inv_run)
  then obtain b where "b \<in> reset_starts t0 evs" "time_to_explode (timer w) = b + in_nanos dur"
    by (auto simp: doom_inv_def full_deadline_def)
  moreover from inv now have "now \<le> clock w"
      "time_to_explode (timer w) = last_deadline (t0 + in_nanos dur) evs"
    by (simp_all add: doom_inv_def)
  ultimately show ?thesis using now(2) by (intro bexI [of _ b]) auto
qed

theorem no_early_explosion_witness:
  "\<exists>b \<in> reset_starts 5 [Ev_Tick 1, Ev_Loop, Ev_Loop].
     last_deadline (5 + in_nanos (Duration 0 0)) [Ev_Tick 1, Ev_Loop, Ev_Loop] = b \<and> b < 6"
proof -
  define w0 where "w0 = \<lparr>timer = \<lparr>time_to_explode = 5, duration = Duration 0 0, defused = False,
      aggressive_mode = False\<rparr>, clock = 5, pc = Loop_Check, resets = [], exited = False\<rparr>"
  have s: "doom_spawn (Duration 0 0) False 5 = Returned w0"
    by (simp add: doom_spawn_def instant_add_def in_nanos_def INSTANT_MAX_def NANOS_PER_SEC_def w0_def)
  let ?w1 = "w0\<lparr>clock := clock w0 + 1\<rparr>"
  let ?w3 = "?w1\<lparr>pc := Loop_Lock 6\<rparr>"
  have "doom_run w0 (([] @ [Ev_Tick 1]) @ [Ev_Loop]) (?w1\<lparr>pc := Loop_Now\<rparr>)"
    by (rule run_snoc [OF run_snoc [OF run_start doom_step.tick] doom_step.loop])
      (simp_all add: w0_def main_loop_step_def)
  then have r: "doom_run w0 ((([] @ [Ev_Tick 1]) @ [Ev_Loop]) @ [Ev_Loop]) ?w3"
    by (rule run_snoc [OF _ doom_step.loop]) (simp_all add: w0_def main_loop_step_def)
  have e: "doom_step ?w3 Ev_Loop (?w3\<lparr>pc := Loop_Exploded\<rparr>)"
    by (rule doom_step.loop)
      (simp_all add: w0_def main_loop_step_def explode_def explode_inner_def)
  from no_early_explosion [OF s r e] show ?thesis by (simp add: w0_def in_nanos_def)
qed

text \<open>
  C29. A timer defused while its loop sleeps, or is about to test \<open>defused\<close>, never times out: whatever
  happens next, resets and manual explosions included, the loop stays at those positions and does
  not explode; and run on its own it returns.
\<close>

theorem defused_loop_returns:
  assumes "before_check (pc w)" and "defused (timer w)"
  shows "(doom_run w evs w' \<longrightarrow> pc w' \<noteq> Loop_Exploded \<and> defused (timer w')) \<and>
     (\<not> exited w \<longrightarrow>
       (\<exists>evs' w'. doom_run w evs' w' \<and> (\<forall>e \<in> set evs'. e = Ev_Loop \<or> (\<exists>k. e = Ev_Tick k)) \<and>
          pc w' = Loop_Returned))"
proof (intro conjI impI)
  assume "doom_run w evs w'"
  then have "before_check (pc w') \<and> defused (timer w')"
    using assms by (induction rule: doom_run.induct) (auto dest: before_check_step)
  then show "pc w' \<noteq> Loop_Exploded" "defused (timer w')" by auto
next
  assume "\<not> exited w"
  with drive_run [of w 4] drive_defused [OF assms(1) _ assms(2)]
  show "\<exists>evs' w'. doom_run w evs' w' \<and> (\<forall>e \<in> set evs'. e = Ev_Loop \<or> (\<exists>k. e = Ev_Tick k)) \<and>
      pc w' = Loop_Returned"
    by blast
qed

theorem defused_loop_returns_witness:
  "let w = \<lparr>timer = \<lparr>time_to_explode = 9, duration = Duration 0 4, defused = True,
      aggressive_mode = True\<rparr>, clock = 7, pc = Loop_Sleeping 9, resets = [11], exited = False\<rparr>
   in \<exists>evs w'. doom_run w evs w' \<and> pc w' = Loop_Returned"
proof -
  let ?w = "\<lparr>timer = \<lparr>time_to_explode = 9, duration = Duration 0 4, defused = True,
      aggressive_mode = True\<rparr>, clock = 7, pc = Loop_Sleeping 9, resets = [11], exited = False\<rparr>"
  have "before_check (pc ?w)" "defused (timer ?w)" "\<not> exited ?w" by simp_all
  with defused_loop_returns [of ?w] show ?thesis unfolding Let_def by blast
qed

text \<open>
  C30. A neglected timer explodes: take any world in which the deadline has passed, the timer is not
  defused, the process runs and the loop has not ended. In every continuation in which only the loop and
  the clock move, the loop makes at most six more steps, the sixth at the latest explodes, and the process
  has then exited exactly in the aggressive mode. Until the explosion the loop is never stuck: from some
  instant on, however late the executor is, its next step is possible.
\<close>

theorem neglected_timer_explodes:
  assumes "time_to_explode (timer w) < clock w" and "\<not> defused (timer w)" and "\<not> exited w"
    and "pc w \<noteq> Loop_Returned" and "pc w \<noteq> Loop_Exploded"
    and "doom_run w evs w'" and "\<forall>e \<in> set evs. e = Ev_Loop \<or> (\<exists>k. e = Ev_Tick k)"
  shows "count_list evs Ev_Loop \<le> 6 \<and> (count_list evs Ev_Loop = 6 \<longrightarrow> pc w' = Loop_Exploded) \<and>
     (pc w' = Loop_Exploded \<longrightarrow> exited w' = aggressive_mode (timer w)) \<and>
     (pc w' \<noteq> Loop_Exploded \<longrightarrow> (\<exists>c. \<forall>t \<ge> c. \<exists>w''. doom_step (w'\<lparr>clock := t\<rparr>) Ev_Loop w''))"
proof -
  have "overdue w w" using assms(1-5) by (simp add: overdue_def)
  from overdue_run [OF assms(6) this assms(7)]
  have n: "overdue w w'" and l: "loops_left w = loops_left w' + count_list evs Ev_Loop" by auto
  have "loops_left w \<le> 6" "loops_left w' = 0 \<Longrightarrow> pc w' = Loop_Exploded"
    using n by (auto simp: loops_left_def overdue_def split: loop_pc.splits if_splits)
  moreover have "\<exists>c. \<forall>t \<ge> c. \<exists>w''. doom_step (w'\<lparr>clock := t\<rparr>) Ev_Loop w''" if "pc w' \<noteq> Loop_Exploded"
    using overdue_enabled [OF n that] by blast
  ultimately show ?thesis using n l by (auto simp: overdue_def)
qed

theorem neglected_timer_explodes_witness:
  "\<exists>w evs w'. doom_run w evs w' \<and> pc w = Loop_Sleeping 9 \<and> count_list evs Ev_Loop = 4 \<and> pc w' = Loop_Exploded \<and> exited w'"
proof -
  define w where "w = \<lparr>timer = \<lparr>time_to_explode = 9, duration = Duration 0 4, defused = False,
      aggressive_mode = True\<rparr>, clock = 10, pc = Loop_Sleeping 9, resets = [], exited = False\<rparr>"
  let ?w3 = "w\<lparr>pc := Loop_Lock 10\<rparr>"
  have "doom_run w ([] @ [Ev_Loop]) (w\<lparr>pc := Loop_Check\<rparr>)"
    by (rule run_snoc [OF run_start doom_step.loop]) (simp_all add: w_def main_loop_step_def)
  then have "doom_run w (([] @ [Ev_Loop]) @ [Ev_Loop]) (w\<lparr>pc := Loop_Now\<rparr>)"
    by (rule run_snoc [OF _ doom_step.loop]) (simp_all add: w_def main_loop_step_def)
  then have "doom_run w ((([] @ [Ev_Loop]) @ [Ev_Loop]) @ [Ev_Loop]) ?w3"
    by (rule run_snoc [OF _ doom_step.loop]) (simp_all add: w_def main_loop_step_def)
  then have r: "doom_run w (((([] @ [Ev_Loop]) @ [Ev_Loop]) @ [Ev_Loop]) @ [Ev_Loop]) ((explode ?w3)\<lparr>pc := Loop_Exploded\<rparr>)"
    by (rule run_snoc [OF _ doom_step.loop]) (simp_all add: w_def main_loop_step_def)
  have "exited ((explode ?w3)\<lparr>pc := Loop_Exploded\<rparr>) = aggressive_mode (timer w)"
    using neglected_timer_explodes [OF _ _ _ _ _ r] by (simp add: w_def)
  then show ?thesis using r
    by (intro exI [of _ w] exI [of _ "[Ev_Loop, Ev_Loop, Ev_Loop, Ev_Loop]"]
        exI [of _ "(explode ?w3)\<lparr>pc := Loop_Exploded\<rparr>"]) (simp add: w_def)
qed

text \<open>
  \<open>defuse\<close> does not stop an explosion that is already past the test: from every spawned timer
  there is a run in which \<open>defuse\<close> comes after the loop has tested the flag, the flag is set, and
  the loop then explodes.
\<close>

lemma defuse_races_with_explosion:
  assumes "doom_spawn dur exit_on_explode t0 = Returned w0"
  shows "\<exists>w. doom_run w0 [Ev_Loop, Ev_Defuse, Ev_Tick (in_nanos dur + 1), Ev_Loop, Ev_Loop] w \<and>
     defused (timer w) \<and> pc w = Loop_Exploded"
proof -
  note s = spawn_fields [OF assms]
  let ?w1 = "w0\<lparr>pc := Loop_Now\<rparr>"
  let ?w2 = "defuse ?w1"
  let ?w3 = "?w2\<lparr>clock := clock ?w2 + (in_nanos dur + 1)\<rparr>"
  let ?w4 = "?w3\<lparr>pc := Loop_Lock (clock ?w3)\<rparr>"
  have "doom_run w0 ([] @ [Ev_Loop]) ?w1"
    by (rule run_snoc [OF run_start doom_step.loop]) (use s in \<open>simp_all add: main_loop_step_def\<close>)
  then have "doom_run w0 (([] @ [Ev_Loop]) @ [Ev_Defuse]) ?w2"
    by (rule run_snoc [OF _ doom_step.defuse]) (use s in simp)
  then have "doom_run w0 ((([] @ [Ev_Loop]) @ [Ev_Defuse]) @ [Ev_Tick (in_nanos dur + 1)]) ?w3"
    by (rule run_snoc [OF _ doom_step.tick]) (use s in \<open>simp add: defuse_def\<close>)
  then have "doom_run w0 (((([] @ [Ev_Loop]) @ [Ev_Defuse]) @ [Ev_Tick (in_nanos dur + 1)]) @ [Ev_Loop]) ?w4"
    by (rule run_snoc [OF _ doom_step.loop]) (use s in \<open>simp_all add: defuse_def main_loop_step_def\<close>)
  then have "doom_run w0 ((((([] @ [Ev_Loop]) @ [Ev_Defuse]) @ [Ev_Tick (in_nanos dur + 1)]) @ [Ev_Loop])
      @ [Ev_Loop]) ((explode ?w4)\<lparr>pc := Loop_Exploded\<rparr>)"
    by (rule run_snoc [OF _ doom_step.loop]) (use s in \<open>simp_all add: defuse_def main_loop_step_def\<close>)
  then show ?thesis
    by (intro exI [of _ "(explode ?w4)\<lparr>pc := Loop_Exploded\<rparr>"])
      (simp add: explode_def defuse_def split: explosion.split)
qed

end
