(* ===== verification/Net.thy ===== *)
theory Net
  imports Rust_Time
begin

text \<open>
  \<open>src/src/net/tcp_stream.rs\<close> and \<open>src/src/net/mod.rs\<close>: opening a TCP stream with its socket options,
  the trait \<open>TcpDomainConnector\<close>, its implementation without TLS, and the trait \<open>CertBuilder\<close>. The
  sockets of the \<open>async_net\<close> and \<open>socket2\<close> packages are the record \<open>net_api\<close>. The trait is a locale:
  its laws are what a caller expects of clones and of \<open>new_domain\<close>, its lemmas follow a connector
  through any number of both, and every implementation interprets it.
\<close>

section \<open>Socket options\<close>

record KeepaliveOpts =
  ka_time :: "Duration option"
  ka_interval :: "Duration option"
  ka_retries :: "u32 option"

record SocketOpts =
  nodelay :: "bool option"
  keepalive :: "KeepaliveOpts option"

definition SocketOpts_default :: SocketOpts where
  "SocketOpts_default = \<lparr>nodelay = None, keepalive = None\<rparr>"

definition TCP_KEEPALIVE_TIME :: Duration where
  "TCP_KEEPALIVE_TIME = from_secs 7200"

definition TCP_KEEPALIVE_INTERVAL :: Duration where
  "TCP_KEEPALIVE_INTERVAL = from_secs 75"

definition TCP_KEEPALIVE_PROBES :: u32 where
  "TCP_KEEPALIVE_PROBES = 9"

definition KeepaliveOpts_default :: KeepaliveOpts where
  "KeepaliveOpts_default = \<lparr>ka_time = Some TCP_KEEPALIVE_TIME, ka_interval = Some TCP_KEEPALIVE_INTERVAL,
     ka_retries = Some TCP_KEEPALIVE_PROBES\<rparr>"

text \<open>The default of a Windows build, where the retries are not configurable.\<close>

definition KeepaliveOpts_default_windows :: KeepaliveOpts where
  "KeepaliveOpts_default_windows = \<lparr>ka_time = Some TCP_KEEPALIVE_TIME,
     ka_interval = Some TCP_KEEPALIVE_INTERVAL, ka_retries = None\<rparr>"

section \<open>Streams\<close>

text \<open>
  The packages' sockets, of type \<open>'t\<close>, and the socket package's keep-alive configuration, of type
  \<open>'k\<close>, with its constructor and setters.
\<close>

record ('s, 't, 'k) net_api =
  tcp_connect :: "string \<Rightarrow> 's \<Rightarrow> ('t, io_error) result \<times> 's"
  set_nodelay :: "'t \<Rightarrow> bool \<Rightarrow> 's \<Rightarrow> (unit, io_error) result \<times> 's"
  set_tcp_keepalive :: "'t \<Rightarrow> 'k \<Rightarrow> 's \<Rightarrow> (unit, io_error) result \<times> 's"
  as_raw_fd :: "'t \<Rightarrow> RawFd"
  tk_new :: 'k
  tk_with_time :: "Duration \<Rightarrow> 'k \<Rightarrow> 'k"
  tk_with_interval :: "Duration \<Rightarrow> 'k \<Rightarrow> 'k"
  tk_with_retries :: "u32 \<Rightarrow> 'k \<Rightarrow> 'k"

definition TcpKeepalive_from :: "('s, 't, 'k) net_api \<Rightarrow> KeepaliveOpts \<Rightarrow> 'k" where
  "TcpKeepalive_from net v =
     (let r0 = tk_new net;
          r1 = (case ka_time v of Some t \<Rightarrow> tk_with_time net t r0 | None \<Rightarrow> r0);
          r2 = (case ka_interval v of Some i \<Rightarrow> tk_with_interval net i r1 | None \<Rightarrow> r1);
          r3 = (case ka_retries v of Some n \<Rightarrow> tk_with_retries net n r2 | None \<Rightarrow> r2)
      in r3)"

definition stream_with_opts ::
  "('s, 't, 'k) net_api \<Rightarrow> string \<Rightarrow> SocketOpts option \<Rightarrow> 's \<Rightarrow> ('t, io_error) result \<times> 's" where
  "stream_with_opts net addr socket_opts s0 =
     (case tcp_connect net addr s0 of
        (Inl e, s1) \<Rightarrow> (Inl e, s1)
      | (Inr tcp_stream, s1) \<Rightarrow>
          (case socket_opts of
             None \<Rightarrow> (Inr tcp_stream, s1)
           | Some opts \<Rightarrow>
               (case (case nodelay opts of
                        Some b \<Rightarrow> set_nodelay net tcp_stream b s1
                      | None \<Rightarrow> (Inr (), s1)) of
                  (Inl e, s2) \<Rightarrow> (Inl e, s2)
                | (Inr _, s2) \<Rightarrow>
                    (case (case keepalive opts of
                             Some k \<Rightarrow> set_tcp_keepalive net tcp_stream (TcpKeepalive_from net k) s2
                           | None \<Rightarrow> (Inr (), s2)) of
                       (Inl e, s3) \<Rightarrow> (Inl e, s3)
                     | (Inr _, s3) \<Rightarrow> (Inr tcp_stream, s3)))))"

definition tcp_stream :: "('s, 't, 'k) net_api \<Rightarrow> string \<Rightarrow> 's \<Rightarrow> ('t, io_error) result \<times> 's" where
  "tcp_stream net addr s =
     stream_with_opts net addr (Some (SocketOpts_default\<lparr>keepalive := Some KeepaliveOpts_default\<rparr>)) s"

definition as_connection_fd :: "('s, 't, 'k) net_api \<Rightarrow> 't \<Rightarrow> RawFd" where
  "as_connection_fd net t = as_raw_fd net t"

text \<open>On Windows the descriptor is the raw socket, a 64-bit number.\<close>

definition as_connection_fd_windows :: "('t \<Rightarrow> u64) \<Rightarrow> 't \<Rightarrow> u64" where
  "as_connection_fd_windows as_raw_socket t = as_raw_socket t"

section \<open>The connector without TLS\<close>

text \<open>
  The two boxed halves of a connection, writing and reading, are the stream and a clone of it: two
  handles of one socket.
\<close>

definition tcp_split_connection :: "'t \<Rightarrow> 't \<times> 't" where
  "tcp_split_connection t = (t, t)"

datatype DefaultTcpDomainConnector = DefaultTcpDomainConnector

definition default_connect ::
  "('s, 't, 'k) net_api \<Rightarrow> DefaultTcpDomainConnector \<Rightarrow> string \<Rightarrow> 's \<Rightarrow>
   ('t \<times> 't \<times> RawFd, io_error) result \<times> 's" where
  "default_connect net self addr s =
     (case tcp_stream net addr s of
        (Inl e, s') \<Rightarrow> (Inl e, s')
      | (Inr t, s') \<Rightarrow> (let fd = as_connection_fd net t in (Inr (t, t, fd), s')))"

definition default_new_domain ::
  "DefaultTcpDomainConnector \<Rightarrow> string \<Rightarrow> DefaultTcpDomainConnector" where
  "default_new_domain self domain = self"

definition default_domain :: "DefaultTcpDomainConnector \<Rightarrow> string" where
  "default_domain self = ''localhost''"

definition default_clone_box :: "DefaultTcpDomainConnector \<Rightarrow> DefaultTcpDomainConnector" where
  "default_clone_box self = self"

section \<open>The connector of a WebAssembly build\<close>

text \<open>
  The web-socket package: connecting, with the display of its errors, and the two halves of the
  stream, the reading one first. On this target the descriptor of a connection is its address.
\<close>

record ('s, 'x, 'e, 'r, 'w) ws_api =
  ws_connect :: "string \<Rightarrow> 's \<Rightarrow> ('x, 'e) result \<times> 's"
  ws_display :: "'e \<Rightarrow> string"
  ws_split :: "'x \<Rightarrow> 'r \<times> 'w"

datatype DefaultDomainWebsocketConnector = DefaultDomainWebsocketConnector

definition websocket_connect ::
  "('s, 'x, 'e, 'r, 'w) ws_api \<Rightarrow> DefaultDomainWebsocketConnector \<Rightarrow> string \<Rightarrow> 's \<Rightarrow>
   ('w \<times> 'r \<times> string, io_error) result \<times> 's" where
  "websocket_connect ws self addr s =
     (case ws_connect ws addr s of (res, s') \<Rightarrow>
        (case map_err (\<lambda>e. IoError OtherError (ws_display ws e)) res of
           Inl e \<Rightarrow> (Inl e, s')
         | Inr x \<Rightarrow> (let (stream, sink) = ws_split ws x in (Inr (sink, stream, addr), s'))))"

definition websocket_new_domain ::
  "DefaultDomainWebsocketConnector \<Rightarrow> string \<Rightarrow> DefaultDomainWebsocketConnector" where
  "websocket_new_domain self domain = self"

definition websocket_domain :: "DefaultDomainWebsocketConnector \<Rightarrow> string" where
  "websocket_domain self = ''localhost''"

definition websocket_clone_box :: "DefaultDomainWebsocketConnector \<Rightarrow> DefaultDomainWebsocketConnector" where
  "websocket_clone_box self = self"

section \<open>CertBuilder\<close>

text \<open>
  A reader is what \<open>read_to_end\<close> gives: the bytes, or the error it stopped with. The file system maps
  a path to a reader or to the error of opening it.
\<close>

type_synonym reader = "(u8 list, io_error) result"

definition cert_from_reader :: "(u8 list \<Rightarrow> 'b) \<Rightarrow> reader \<Rightarrow> ('b, io_error) result" where
  "cert_from_reader new_builder rd = result_bind rd (\<lambda>bytes. Inr (new_builder bytes))"

definition cert_from_path ::
  "(string \<Rightarrow> (reader, io_error) result) \<Rightarrow> (u8 list \<Rightarrow> 'b) \<Rightarrow> string \<Rightarrow> ('b, io_error) result" where
  "cert_from_path open_file new_builder path =
     result_bind (open_file path) (\<lambda>rd. cert_from_reader new_builder rd)"

text \<open>The trait as an interface: a builder is made of the bytes it was given.\<close>

locale cert_builder =
  fixes new_builder :: "u8 list \<Rightarrow> 'b" and bytes_of :: "'b \<Rightarrow> u8 list"
  assumes bytes_of_new: "bytes_of (new_builder bs) = bs"
begin

lemma from_path_bytes:
  "map_err err (cert_from_path open_file new_builder path) = Inr b \<Longrightarrow>
     open_file path = Inr (Inr (bytes_of b))"
  by (auto simp: cert_from_path_def cert_from_reader_def result_bind_Inr_iff bytes_of_new)

lemma from_path_exists:
  "open_file path = Inr (Inr bs) \<Longrightarrow> cert_from_path open_file new_builder path = Inr (new_builder bs)"
  by (simp add: cert_from_path_def cert_from_reader_def)

end

section \<open>The trait TcpDomainConnector\<close>

text \<open>What a caller can do to a boxed connector before it connects.\<close>

datatype connector_op = Op_New_Domain string | Op_Clone

text \<open>The domain set last.\<close>

definition last_domain :: "string \<Rightarrow> connector_op list \<Rightarrow> string" where
  "last_domain d ops = fold (\<lambda>op acc. case op of Op_New_Domain x \<Rightarrow> x | Op_Clone \<Rightarrow> acc) ops d"

definition connector_step ::
  "('c \<Rightarrow> string \<Rightarrow> 'c) \<Rightarrow> ('c \<Rightarrow> 'c) \<Rightarrow> connector_op \<Rightarrow> 'c \<Rightarrow> 'c" where
  "connector_step new_domain clone_box op c =
     (case op of Op_New_Domain d \<Rightarrow> new_domain c d | Op_Clone \<Rightarrow> clone_box c)"

definition connector_run ::
  "('c \<Rightarrow> string \<Rightarrow> 'c) \<Rightarrow> ('c \<Rightarrow> 'c) \<Rightarrow> connector_op list \<Rightarrow> 'c \<Rightarrow> 'c" where
  "connector_run new_domain clone_box ops c = fold (connector_step new_domain clone_box) ops c"

locale tcp_domain_connector =
  fixes connect :: "'c \<Rightarrow> string \<Rightarrow> 's \<Rightarrow> 'a"
    and new_domain :: "'c \<Rightarrow> string \<Rightarrow> 'c"
    and domain :: "'c \<Rightarrow> string"
    and clone_box :: "'c \<Rightarrow> 'c"
  assumes clone_connect: "connect (clone_box c) = connect c"
    and clone_domain: "domain (clone_box c) = domain c"
    and clone_new_domain: "new_domain (clone_box c) = new_domain c"
    and new_domain_twice: "new_domain (new_domain c d) e = new_domain c e"
begin

lemma run_new_domain:
  "new_domain (connector_run new_domain clone_box ops c) d = new_domain c d"
  by (induction ops arbitrary: c)
    (auto simp: connector_run_def connector_step_def new_domain_twice clone_new_domain
      split: connector_op.split)

end

text \<open>A connector that ignores \<open>new_domain\<close>, and one that stores the domain.\<close>

locale fixed_domain_connector = tcp_domain_connector +
  assumes new_domain_ignored: "new_domain c d = c"
begin

lemma run_connect: "connect (connector_run new_domain clone_box ops c) = connect c"
  by (induction ops arbitrary: c)
    (auto simp: connector_run_def connector_step_def new_domain_ignored clone_connect
      split: connector_op.split)

lemma run_domain: "domain (connector_run new_domain clone_box ops c) = domain c"
  by (induction ops arbitrary: c)
    (auto simp: connector_run_def connector_step_def new_domain_ignored clone_domain
      split: connector_op.split)

end

locale stored_domain_connector = tcp_domain_connector +
  assumes domain_new: "domain (new_domain c d) = d"
    and new_domain_own: "new_domain c (domain c) = c"
begin

lemma run_domain:
  "domain (connector_run new_domain clone_box ops c) = last_domain (domain c) ops"
  by (induction ops arbitrary: c)
    (auto simp: connector_run_def connector_step_def last_domain_def domain_new clone_domain
      split: connector_op.split)

lemma run_is_new_domain:
  "connector_run new_domain clone_box ops c = new_domain c (last_domain (domain c) ops)"
  using new_domain_own [of "connector_run new_domain clone_box ops c"]
  by (simp add: run_domain run_new_domain)

end

interpretation default_connector:
  fixed_domain_connector "default_connect net" default_new_domain default_domain default_clone_box
  for net
  by unfold_locales (simp_all add: default_new_domain_def default_clone_box_def)

interpretation websocket_connector:
  fixed_domain_connector "websocket_connect ws" websocket_new_domain websocket_domain websocket_clone_box
  for ws
  by unfold_locales (simp_all add: websocket_new_domain_def websocket_clone_box_def)

text \<open>A connection over a web socket is to the address asked for, which is also its descriptor.\<close>

lemma websocket_connect_ok:
  assumes "websocket_connect ws self addr s = (Inr (w, r, fd), s')"
  shows "fd = addr \<and> (\<exists>x. ws_connect ws addr s = (Inr x, s') \<and> ws_split ws x = (r, w))"
  using assms by (auto simp: websocket_connect_def split: prod.splits sum.splits)

section \<open>Observing a socket\<close>

text \<open>
  What is relied on of the sockets: a keep-alive configuration starts empty and each setter sets its
  part (\<open>view\<close> reads one); a new connection has neither option; a call that succeeds sets the option of
  its socket and nothing else.
\<close>

definition keepalive_contract :: "('k \<Rightarrow> KeepaliveOpts) \<Rightarrow> ('s, 't, 'k) net_api \<Rightarrow> bool" where
  "keepalive_contract view net \<longleftrightarrow>
     view (tk_new net) = \<lparr>ka_time = None, ka_interval = None, ka_retries = None\<rparr> \<and>
     (\<forall>t k. view (tk_with_time net t k) = (view k)\<lparr>ka_time := Some t\<rparr>) \<and>
     (\<forall>i k. view (tk_with_interval net i k) = (view k)\<lparr>ka_interval := Some i\<rparr>) \<and>
     (\<forall>n k. view (tk_with_retries net n k) = (view k)\<lparr>ka_retries := Some n\<rparr>)"

definition net_contract ::
  "('s \<Rightarrow> 't \<Rightarrow> bool) \<Rightarrow> ('s \<Rightarrow> 't \<Rightarrow> 'k option) \<Rightarrow> ('s, 't, 'k) net_api \<Rightarrow> bool" where
  "net_contract nodelay_of keepalive_of net \<longleftrightarrow>
     (\<forall>t b s s'. set_nodelay net t b s = (Inr (), s') \<longrightarrow>
        nodelay_of s' = (nodelay_of s)(t := b) \<and> keepalive_of s' = keepalive_of s) \<and>
     (\<forall>t k s s'. set_tcp_keepalive net t k s = (Inr (), s') \<longrightarrow>
        nodelay_of s' = nodelay_of s \<and> keepalive_of s' = (keepalive_of s)(t := Some k)) \<and>
     (\<forall>addr s t s'. tcp_connect net addr s = (Inr t, s') \<longrightarrow>
        \<not> nodelay_of s' t \<and> keepalive_of s' t = None)"

text \<open>For the witnesses: sockets numbered by the length of their address.\<close>

type_synonym toy_net_state = "(nat \<Rightarrow> bool) \<times> (nat \<Rightarrow> KeepaliveOpts option)"

definition toy_net :: "(toy_net_state, nat, KeepaliveOpts) net_api" where
  "toy_net = \<lparr>tcp_connect = (\<lambda>addr (n, k). if addr = [] then (Inl (IoError InvalidInput ''address''), (n, k))
        else (Inr (length addr), (n(length addr := False), k(length addr := None)))),
     set_nodelay = (\<lambda>t b (n, k). (Inr (), (n(t := b), k))),
     set_tcp_keepalive = (\<lambda>t ka (n, k). (Inr (), (n, k(t := Some ka)))),
     as_raw_fd = (\<lambda>t. of_nat t),
     tk_new = \<lparr>ka_time = None, ka_interval = None, ka_retries = None\<rparr>,
     tk_with_time = (\<lambda>t k. k\<lparr>ka_time := Some t\<rparr>),
     tk_with_interval = (\<lambda>i k. k\<lparr>ka_interval := Some i\<rparr>),
     tk_with_retries = (\<lambda>n k. k\<lparr>ka_retries := Some n\<rparr>)\<rparr>"

lemma toy_net_contract: "net_contract fst snd toy_net"
  by (auto simp: net_contract_def toy_net_def split: if_splits)

lemma toy_keepalive_contract: "keepalive_contract (\<lambda>k. k) toy_net"
  by (simp add: keepalive_contract_def toy_net_def)

lemma TcpKeepalive_from_view:
  "keepalive_contract view net \<Longrightarrow> view (TcpKeepalive_from net v) = v"
  by (auto simp: keepalive_contract_def TcpKeepalive_from_def Let_def split: option.split)

text \<open>
  A stream opened with socket options has exactly those options: when \<open>stream_with_opts\<close> succeeds,
  \<open>nodelay\<close> is what was asked for (off when nothing was), and keep-alive is on with precisely the
  time, interval and retries asked for, or untouched.
\<close>

lemma stream_options:
  assumes "net_contract nodelay_of keepalive_of net" and "keepalive_contract view net"
    and "stream_with_opts net addr (Some opts) s = (Inr t, s')"
  shows "nodelay_of s' t = (nodelay opts = Some True) \<and>
     map_option view (keepalive_of s' t) = keepalive opts"
proof -
  from assms(3) obtain s1 s2 where c: "tcp_connect net addr s = (Inr t, s1)"
    and n: "(case nodelay opts of Some b \<Rightarrow> set_nodelay net t b s1 | None \<Rightarrow> (Inr (), s1)) = (Inr (), s2)"
    and k: "(case keepalive opts of Some k \<Rightarrow> set_tcp_keepalive net t (TcpKeepalive_from net k) s2
       | None \<Rightarrow> (Inr (), s2)) = (Inr (), s')"
    by (auto simp: stream_with_opts_def split: prod.splits sum.splits)
  have "nodelay_of s2 t = (nodelay opts = Some True)" "keepalive_of s2 t = None"
    using n c assms(1) by (fastforce simp: net_contract_def split: option.splits)+
  moreover have "nodelay_of s' t = nodelay_of s2 t"
    "keepalive_of s' t = (case keepalive opts of None \<Rightarrow> keepalive_of s2 t
       | Some k \<Rightarrow> Some (TcpKeepalive_from net k))"
    using k assms(1) by (fastforce simp: net_contract_def split: option.splits)+
  ultimately show ?thesis
    using TcpKeepalive_from_view [OF assms(2)] by (simp split: option.split)
qed

end
