(* ===== verification/Openssl_Stream.thy ===== *)
theory Openssl_Stream
  imports Rust_Prelude
begin

text \<open>
  The asynchronous TLS stream of \<open>src/src/openssl/\<close>: \<open>async_to_sync_wrapper.rs\<close> (the adapter that
  shows an asynchronous stream to the synchronous TLS library while a task context is stored in it),
  \<open>stream.rs\<close> (\<open>TlsStream\<close>) and \<open>handshake.rs\<close> (the state machine of a handshake). The inner stream
  and the TLS library are parameters; the library is relied on to touch the adapter only through its
  \<open>Read\<close> and \<open>Write\<close> methods. The lemmas show that the assertions on the stored context never fail,
  that polling leaves no context behind, and what the detour through synchronous I/O does to the
  results.
\<close>

section \<open>AsyncToSyncWrapper\<close>

text \<open>
  The methods of the inner stream: a poll gets the address of the task context; a read gets the
  buffer and returns it.
\<close>

record 's async_stream =
  st_poll_read :: "usize \<Rightarrow> u8 list \<Rightarrow> 's \<Rightarrow> (usize, io_error) result poll \<times> u8 list \<times> 's"
  st_poll_write :: "usize \<Rightarrow> u8 list \<Rightarrow> 's \<Rightarrow> (usize, io_error) result poll \<times> 's"
  st_poll_flush :: "usize \<Rightarrow> 's \<Rightarrow> (unit, io_error) result poll \<times> 's"

record 's AsyncToSyncWrapper =
  wr_inner :: 's
  wr_context :: usize

definition wrapper_new :: "'s \<Rightarrow> 's AsyncToSyncWrapper" where
  "wrapper_new s = \<lparr>wr_inner = s, wr_context = 0\<rparr>"

definition set_context :: "usize \<Rightarrow> 's AsyncToSyncWrapper \<Rightarrow> 's AsyncToSyncWrapper exec" where
  "set_context cx self = (if wr_context self = 0 then Returned (self\<lparr>wr_context := cx\<rparr>) else Panicked)"

definition unset_context :: "'s AsyncToSyncWrapper \<Rightarrow> 's AsyncToSyncWrapper exec" where
  "unset_context self = (if wr_context self \<noteq> 0 then Returned (self\<lparr>wr_context := 0\<rparr>) else Panicked)"

definition wrapper_with_context ::
  "(usize \<Rightarrow> 's \<Rightarrow> 'r \<times> 's) \<Rightarrow> 's AsyncToSyncWrapper \<Rightarrow> 'r exec \<times> 's AsyncToSyncWrapper" where
  "wrapper_with_context f self =
     (if wr_context self \<noteq> 0
      then let (r, s) = f (wr_context self) (wr_inner self) in (Returned r, self\<lparr>wr_inner := s\<rparr>)
      else (Panicked, self))"

definition would_block :: io_error where
  "would_block = IoError WouldBlock ''operation would block''"

definition wrapper_read ::
  "'s async_stream \<Rightarrow> u8 list \<Rightarrow> 's AsyncToSyncWrapper \<Rightarrow>
   ((usize, io_error) result \<times> u8 list) exec \<times> 's AsyncToSyncWrapper" where
  "wrapper_read st buf self =
     wrapper_with_context (\<lambda>ctx s.
       case st_poll_read st ctx buf s of
         (Ready (Inl e), b, s') \<Rightarrow> ((Inl e, b), s')
       | (Ready (Inr n), b, s') \<Rightarrow> ((Inr n, b), s')
       | (Pending, b, s') \<Rightarrow> ((Inl would_block, b), s')) self"

definition wrapper_write ::
  "'s async_stream \<Rightarrow> u8 list \<Rightarrow> 's AsyncToSyncWrapper \<Rightarrow>
   (usize, io_error) result exec \<times> 's AsyncToSyncWrapper" where
  "wrapper_write st buf self =
     (case wrapper_with_context (\<lambda>ctx s. st_poll_write st ctx buf s) self of
        (Panicked, w) \<Rightarrow> (Panicked, w)
      | (Returned (Ready r), w) \<Rightarrow> (Returned r, w)
      | (Returned Pending, w) \<Rightarrow> (Returned (Inl would_block), w))"

definition wrapper_flush ::
  "'s async_stream \<Rightarrow> 's AsyncToSyncWrapper \<Rightarrow> (unit, io_error) result exec \<times> 's AsyncToSyncWrapper"
  where
  "wrapper_flush st self =
     (case wrapper_with_context (\<lambda>ctx s. st_poll_flush st ctx s) self of
        (Panicked, w) \<Rightarrow> (Panicked, w)
      | (Returned (Ready r), w) \<Rightarrow> (Returned r, w)
      | (Returned Pending, w) \<Rightarrow> (Returned (Inl would_block), w))"

text \<open>The calls that synchronous code can make on the adapter.\<close>

datatype io_call = Call_Read "u8 list" | Call_Write "u8 list" | Call_Flush

definition wrapper_call ::
  "'s async_stream \<Rightarrow> io_call \<Rightarrow> 's AsyncToSyncWrapper \<Rightarrow> unit exec \<times> 's AsyncToSyncWrapper" where
  "wrapper_call st c w =
     (case c of
        Call_Read buf \<Rightarrow> (let (r, w') = wrapper_read st buf w in (exec_bind r (\<lambda>_. Returned ()), w'))
      | Call_Write buf \<Rightarrow> (let (r, w') = wrapper_write st buf w in (exec_bind r (\<lambda>_. Returned ()), w'))
      | Call_Flush \<Rightarrow> (let (r, w') = wrapper_flush st w in (exec_bind r (\<lambda>_. Returned ()), w')))"

fun io_run ::
  "('c \<Rightarrow> 'w \<Rightarrow> unit exec \<times> 'w) \<Rightarrow> 'c list \<Rightarrow> 'w \<Rightarrow> unit exec \<times> 'w" where
  "io_run call [] w = (Returned (), w)"
| "io_run call (c # cs) w =
     (case call c w of (Panicked, w') \<Rightarrow> (Panicked, w') | (Returned _, w') \<Rightarrow> io_run call cs w')"

section \<open>The TLS library\<close>

record ('s, 'e) SslStream =
  ssl_engine :: 'e
  ssl_io :: "'s AsyncToSyncWrapper"

datatype ErrorCode = ZERO_RETURN | WANT_READ | WANT_WRITE | SYSCALL | SSL | Other_Code nat

datatype ssl_error = SslError (code: ErrorCode) (ssl_text: string)

datatype ('s, 'e) HandshakeError =
  Setup_Failure | Hs_Failure "('s, 'e) SslStream" | Hs_WouldBlock "('s, 'e) SslStream"

record ('s, 'e) ssl_api =
  ssl_read :: "u8 list \<Rightarrow> ('s, 'e) SslStream \<Rightarrow>
     ((usize, io_error) result \<times> u8 list) exec \<times> ('s, 'e) SslStream"
  ssl_write :: "u8 list \<Rightarrow> ('s, 'e) SslStream \<Rightarrow> (usize, io_error) result exec \<times> ('s, 'e) SslStream"
  ssl_flush :: "('s, 'e) SslStream \<Rightarrow> (unit, io_error) result exec \<times> ('s, 'e) SslStream"
  ssl_shutdown :: "('s, 'e) SslStream \<Rightarrow> (unit, ssl_error) result exec \<times> ('s, 'e) SslStream"
  ssl_handshake :: "('s, 'e) SslStream \<Rightarrow> (('s, 'e) SslStream, ('s, 'e) HandshakeError) result exec"

section \<open>TlsStream\<close>

record ('s, 'e) TlsStream =
  tls :: "('s, 'e) SslStream"

definition result_to_poll :: "('a, io_error) result \<Rightarrow> ('a, io_error) result poll" where
  "result_to_poll r =
     (case r of
        Inr v \<Rightarrow> Ready (Inr v)
      | Inl e \<Rightarrow> if kind e = WouldBlock then Pending else Ready (Inl e))"

text \<open>
  \<open>with_context\<close>: a panic of the closure leaves the context set. Besides the result the closure may
  return data, here the buffer of a read.
\<close>

definition tls_with_context ::
  "usize \<Rightarrow> (('s, 'e) SslStream \<Rightarrow> (('a, io_error) result \<times> 'd) exec \<times> ('s, 'e) SslStream) \<Rightarrow>
   ('s, 'e) TlsStream \<Rightarrow> (('a, io_error) result poll \<times> 'd) exec \<times> ('s, 'e) TlsStream" where
  "tls_with_context cx f self =
     (case set_context cx (ssl_io (tls self)) of
        Panicked \<Rightarrow> (Panicked, self)
      | Returned w \<Rightarrow>
          (case f ((tls self)\<lparr>ssl_io := w\<rparr>) of
             (Panicked, s) \<Rightarrow> (Panicked, self\<lparr>tls := s\<rparr>)
           | (Returned (r, d), s) \<Rightarrow>
               (case unset_context (ssl_io s) of
                  Panicked \<Rightarrow> (Panicked, self\<lparr>tls := s\<rparr>)
                | Returned w' \<Rightarrow>
                    (Returned (result_to_poll r, d), self\<lparr>tls := s\<lparr>ssl_io := w'\<rparr>\<rparr>))))"

definition no_data :: "'r exec \<times> 'z \<Rightarrow> ('r \<times> unit) exec \<times> 'z" where
  "no_data p = (exec_bind (fst p) (\<lambda>r. Returned (r, ())), snd p)"

definition tls_poll_read ::
  "('s, 'e) ssl_api \<Rightarrow> usize \<Rightarrow> u8 list \<Rightarrow> ('s, 'e) TlsStream \<Rightarrow>
   ((usize, io_error) result poll \<times> u8 list) exec \<times> ('s, 'e) TlsStream" where
  "tls_poll_read api cx buf self = tls_with_context cx (ssl_read api buf) self"

definition tls_poll_write ::
  "('s, 'e) ssl_api \<Rightarrow> usize \<Rightarrow> u8 list \<Rightarrow> ('s, 'e) TlsStream \<Rightarrow>
   ((usize, io_error) result poll \<times> unit) exec \<times> ('s, 'e) TlsStream" where
  "tls_poll_write api cx buf self = tls_with_context cx (\<lambda>s. no_data (ssl_write api buf s)) self"

definition tls_poll_flush ::
  "('s, 'e) ssl_api \<Rightarrow> usize \<Rightarrow> ('s, 'e) TlsStream \<Rightarrow>
   ((unit, io_error) result poll \<times> unit) exec \<times> ('s, 'e) TlsStream" where
  "tls_poll_flush api cx self = tls_with_context cx (\<lambda>s. no_data (ssl_flush api s)) self"

definition close_result :: "(unit, ssl_error) result \<Rightarrow> (unit, io_error) result" where
  "close_result r =
     (case r of
        Inr _ \<Rightarrow> Inr ()
      | Inl e \<Rightarrow> if code e = ZERO_RETURN then Inr () else Inl (IoError OtherError (ssl_text e)))"

definition tls_poll_close ::
  "('s, 'e) ssl_api \<Rightarrow> usize \<Rightarrow> ('s, 'e) TlsStream \<Rightarrow>
   ((unit, io_error) result poll \<times> unit) exec \<times> ('s, 'e) TlsStream" where
  "tls_poll_close api cx self =
     tls_with_context cx (\<lambda>s.
       let (r, s') = ssl_shutdown api s
       in no_data (exec_bind r (\<lambda>x. Returned (close_result x)), s')) self"

section \<open>HandshakeFuture\<close>

datatype ('s, 'e) HandshakeFuture =
    Hs_Initial "'s AsyncToSyncWrapper \<Rightarrow> (('s, 'e) SslStream, ('s, 'e) HandshakeError) result exec"
      "'s AsyncToSyncWrapper"
  | Hs_MidHandshake "('s, 'e) SslStream"
  | Hs_Done

text \<open>The match on the library's answer, the same in the arms of the two states.\<close>

definition handshake_arm ::
  "(('s, 'e) SslStream, ('s, 'e) HandshakeError) result exec \<Rightarrow>
   (('s, 'e) TlsStream, ('s, 'e) HandshakeError) result poll exec \<times> ('s, 'e) HandshakeFuture" where
  "handshake_arm answer =
     (case answer of
        Panicked \<Rightarrow> (Panicked, Hs_Done)
      | Returned (Inr stream) \<Rightarrow>
          (case unset_context (ssl_io stream) of
             Panicked \<Rightarrow> (Panicked, Hs_Done)
           | Returned w \<Rightarrow> (Returned (Ready (Inr \<lparr>tls = stream\<lparr>ssl_io := w\<rparr>\<rparr>)), Hs_Done))
      | Returned (Inl (Hs_WouldBlock mid)) \<Rightarrow>
          (case unset_context (ssl_io mid) of
             Panicked \<Rightarrow> (Panicked, Hs_Done)
           | Returned w \<Rightarrow> (Returned Pending, Hs_MidHandshake (mid\<lparr>ssl_io := w\<rparr>)))
      | Returned (Inl e) \<Rightarrow> (Returned (Ready (Inl e)), Hs_Done))"

definition handshake_poll ::
  "('s, 'e) ssl_api \<Rightarrow> usize \<Rightarrow> ('s, 'e) HandshakeFuture \<Rightarrow>
   (('s, 'e) TlsStream, ('s, 'e) HandshakeError) result poll exec \<times> ('s, 'e) HandshakeFuture" where
  "handshake_poll api cx self =
     (case self of
        Hs_Initial f stream \<Rightarrow>
          (case set_context cx stream of
             Panicked \<Rightarrow> (Panicked, Hs_Done)
           | Returned s \<Rightarrow> handshake_arm (f s))
      | Hs_MidHandshake stream \<Rightarrow>
          (case set_context cx (ssl_io stream) of
             Panicked \<Rightarrow> (Panicked, Hs_Done)
           | Returned w \<Rightarrow> handshake_arm (ssl_handshake api (stream\<lparr>ssl_io := w\<rparr>)))
      | Hs_Done \<Rightarrow> (Panicked, Hs_Done))"

text \<open>
  \<open>.await\<close> on the handshake: the executor polls with the contexts of its wake-ups until the future
  is ready; \<open>None\<close> is still pending after all of them.
\<close>

fun handshake_await ::
  "('s, 'e) ssl_api \<Rightarrow> usize list \<Rightarrow> ('s, 'e) HandshakeFuture \<Rightarrow>
   (('s, 'e) TlsStream, ('s, 'e) HandshakeError) result exec option \<times> ('s, 'e) HandshakeFuture" where
  "handshake_await api [] self = (None, self)"
| "handshake_await api (cx # cxs) self =
     (case handshake_poll api cx self of
        (Panicked, self') \<Rightarrow> (Some Panicked, self')
      | (Returned (Ready r), self') \<Rightarrow> (Some (Returned r), self')
      | (Returned Pending, self') \<Rightarrow> handshake_await api cxs self')"

section \<open>What is relied on, and sequences of polls\<close>

text \<open>
  A library call that takes the adapter from \<open>w\<close> to \<open>w'\<close> does so by \<open>Read\<close> and \<open>Write\<close> calls, and it
  panics only when one of them did.
\<close>

definition by_io_calls ::
  "'s async_stream \<Rightarrow> 's AsyncToSyncWrapper \<Rightarrow> 'r exec \<Rightarrow> 's AsyncToSyncWrapper \<Rightarrow> bool" where
  "by_io_calls st w r w' \<longleftrightarrow>
     (\<exists>cs. w' = snd (io_run (wrapper_call st) cs w) \<and>
        (r = Panicked \<longrightarrow> fst (io_run (wrapper_call st) cs w) = Panicked))"

fun handshake_io :: "('s, 'e) HandshakeError \<Rightarrow> 's AsyncToSyncWrapper option" where
  "handshake_io Setup_Failure = None"
| "handshake_io (Hs_Failure s) = Some (ssl_io s)"
| "handshake_io (Hs_WouldBlock s) = Some (ssl_io s)"

definition answers_by_io_calls ::
  "'s async_stream \<Rightarrow> 's AsyncToSyncWrapper \<Rightarrow>
   (('s, 'e) SslStream, ('s, 'e) HandshakeError) result exec \<Rightarrow> bool" where
  "answers_by_io_calls st w a \<longleftrightarrow>
     (case a of
        Panicked \<Rightarrow> (\<exists>w'. by_io_calls st w a w')
      | Returned (Inr s) \<Rightarrow> by_io_calls st w a (ssl_io s)
      | Returned (Inl e) \<Rightarrow> \<forall>w'. handshake_io e = Some w' \<longrightarrow> by_io_calls st w a w')"

definition ssl_contract :: "'s async_stream \<Rightarrow> ('s, 'e) ssl_api \<Rightarrow> bool" where
  "ssl_contract st api \<longleftrightarrow>
     (\<forall>buf s r s'. ssl_read api buf s = (r, s') \<longrightarrow> by_io_calls st (ssl_io s) r (ssl_io s')) \<and>
     (\<forall>buf s r s'. ssl_write api buf s = (r, s') \<longrightarrow> by_io_calls st (ssl_io s) r (ssl_io s')) \<and>
     (\<forall>s r s'. ssl_flush api s = (r, s') \<longrightarrow> by_io_calls st (ssl_io s) r (ssl_io s')) \<and>
     (\<forall>s r s'. ssl_shutdown api s = (r, s') \<longrightarrow> by_io_calls st (ssl_io s) r (ssl_io s')) \<and>
     (\<forall>s. answers_by_io_calls st (ssl_io s) (ssl_handshake api s))"

datatype tls_op = Tls_Read "u8 list" | Tls_Write "u8 list" | Tls_Flush | Tls_Close

definition tls_call ::
  "('s, 'e) ssl_api \<Rightarrow> usize \<times> tls_op \<Rightarrow> ('s, 'e) TlsStream \<Rightarrow> unit exec \<times> ('s, 'e) TlsStream" where
  "tls_call api c self =
     (case c of (cx, op) \<Rightarrow>
       (case op of
          Tls_Read buf \<Rightarrow> apfst (\<lambda>r. exec_bind r (\<lambda>_. Returned ())) (tls_poll_read api cx buf self)
        | Tls_Write buf \<Rightarrow> apfst (\<lambda>r. exec_bind r (\<lambda>_. Returned ())) (tls_poll_write api cx buf self)
        | Tls_Flush \<Rightarrow> apfst (\<lambda>r. exec_bind r (\<lambda>_. Returned ())) (tls_poll_flush api cx self)
        | Tls_Close \<Rightarrow> apfst (\<lambda>r. exec_bind r (\<lambda>_. Returned ())) (tls_poll_close api cx self)))"

section \<open>A library for the witnesses\<close>

text \<open>A library that passes everything through and needs two writes for its handshake.\<close>

definition plain_ssl :: "'s async_stream \<Rightarrow> ('s, nat) ssl_api" where
  "plain_ssl st = \<lparr>
     ssl_read = (\<lambda>buf s. apsnd (\<lambda>w. s\<lparr>ssl_io := w\<rparr>) (wrapper_read st buf (ssl_io s))),
     ssl_write = (\<lambda>buf s. apsnd (\<lambda>w. s\<lparr>ssl_io := w\<rparr>) (wrapper_write st buf (ssl_io s))),
     ssl_flush = (\<lambda>s. apsnd (\<lambda>w. s\<lparr>ssl_io := w\<rparr>) (wrapper_flush st (ssl_io s))),
     ssl_shutdown = (\<lambda>s. (Returned (Inl (SslError WANT_WRITE ''want write'')), s)),
     ssl_handshake = (\<lambda>s. case wrapper_write st [0] (ssl_io s) of
        (Panicked, w) \<Rightarrow> Panicked
      | (Returned (Inl e), w) \<Rightarrow> Returned (Inl (Hs_WouldBlock (s\<lparr>ssl_io := w\<rparr>)))
      | (Returned (Inr n), w) \<Rightarrow> Returned (Inr (s\<lparr>ssl_io := w\<rparr>)))\<rparr>"

definition plain_start ::
  "'s async_stream \<Rightarrow> 's AsyncToSyncWrapper \<Rightarrow>
   (('s, nat) SslStream, ('s, nat) HandshakeError) result exec" where
  "plain_start st w = ssl_handshake (plain_ssl st) \<lparr>ssl_engine = 0, ssl_io = w\<rparr>"

text \<open>An inner stream that is ready for writing at every second poll.\<close>

definition blinker :: "bool async_stream" where
  "blinker = \<lparr>st_poll_read = (\<lambda>_ buf b. (Pending, buf, b)),
     st_poll_write = (\<lambda>_ buf b. (if b then Ready (Inr (of_nat (length buf))) else Pending, \<not> b)),
     st_poll_flush = (\<lambda>_ b. (Ready (Inr ()), b))\<rparr>"

section \<open>The interface of guarded I/O\<close>

text \<open>
  What the TLS code relies on of the adapter it hands to the library: calls keep the stored context,
  and with one stored they do not panic.
\<close>

locale guarded_io =
  fixes ctx :: "'w \<Rightarrow> usize" and call :: "'c \<Rightarrow> 'w \<Rightarrow> unit exec \<times> 'w"
  assumes keeps: "ctx (snd (call c w)) = ctx w"
    and returns: "ctx w \<noteq> 0 \<Longrightarrow> fst (call c w) \<noteq> Panicked"
begin

lemma run_keeps: "ctx (snd (io_run call cs w)) = ctx w"
proof (induction cs arbitrary: w)
  case (Cons c cs)
  then show ?case using keeps [of c w] by (auto split: prod.split exec.split)
qed simp

lemma run_returns: "ctx w \<noteq> 0 \<Longrightarrow> fst (io_run call cs w) \<noteq> Panicked"
proof (induction cs arbitrary: w)
  case (Cons c cs)
  then show ?case using keeps [of c w] returns [of w c] by (auto split: prod.split exec.split)
qed simp

end

lemma wrapper_with_context_keeps:
  "wr_context (snd (wrapper_with_context f w)) = wr_context w"
  "wr_context w \<noteq> 0 \<Longrightarrow> fst (wrapper_with_context f w) \<noteq> Panicked"
  by (simp_all add: wrapper_with_context_def case_prod_beta)

lemma wrapper_call_keeps:
  "wr_context (snd (wrapper_call st c w)) = wr_context w"
  "wr_context w \<noteq> 0 \<Longrightarrow> fst (wrapper_call st c w) \<noteq> Panicked"
  by (cases c; simp add: wrapper_call_def wrapper_read_def wrapper_write_def wrapper_flush_def
      wrapper_with_context_def case_prod_beta split: poll.split sum.split)+

interpretation wrapper: guarded_io wr_context "wrapper_call st" for st
  by unfold_locales (rule wrapper_call_keeps)+

section \<open>Lemmas\<close>

lemma by_io_calls_keeps:
  assumes "by_io_calls st w r w'"
  shows "wr_context w' = wr_context w" and "wr_context w \<noteq> 0 \<Longrightarrow> r \<noteq> Panicked"
  using assms wrapper.run_keeps [of st] wrapper.run_returns [of w st]
  by (auto simp: by_io_calls_def)

lemma tls_with_context_ok:
  assumes "wr_context (ssl_io (tls self)) = 0" and "cx \<noteq> 0"
    and "\<And>s r s'. f s = (r, s') \<Longrightarrow> by_io_calls st (ssl_io s) r (ssl_io s')"
  shows "fst (tls_with_context cx f self) \<noteq> Panicked \<and>
     wr_context (ssl_io (tls (snd (tls_with_context cx f self)))) = 0"
proof -
  let ?s = "(tls self)\<lparr>ssl_io := (ssl_io (tls self))\<lparr>wr_context := cx\<rparr>\<rparr>"
  obtain r s' where f: "f ?s = (r, s')" by fastforce
  from by_io_calls_keeps [OF assms(3) [OF f]] assms(2)
  have "wr_context (ssl_io s') = cx" "r \<noteq> Panicked" by auto
  then show ?thesis using f assms(1,2)
    by (cases r) (auto simp: tls_with_context_def set_context_def unset_context_def)
qed

lemma no_data_calls:
  "by_io_calls st w (fst (no_data p)) w' \<longleftrightarrow> by_io_calls st w (fst p) w'"
  by (cases "fst p") (auto simp: by_io_calls_def no_data_def)

lemma tls_call_ok:
  assumes c: "ssl_contract st api" and ctx: "wr_context (ssl_io (tls self)) = 0" "cx \<noteq> 0"
  shows "fst (tls_call api (cx, op) self) \<noteq> Panicked \<and>
     wr_context (ssl_io (tls (snd (tls_call api (cx, op) self)))) = 0"
proof -
  have unit: "exec_bind r (\<lambda>_. Returned ()) \<noteq> Panicked \<longleftrightarrow> r \<noteq> Panicked" for r :: "'z exec"
    by (cases r) auto
  have rd: "by_io_calls st (ssl_io s) r (ssl_io s')" if "ssl_read api buf s = (r, s')" for buf s r s'
    using c that by (simp add: ssl_contract_def)
  have wr: "by_io_calls st (ssl_io s) r (ssl_io s')"
    if "no_data (ssl_write api buf s) = (r, s')" for buf s r s'
    using c that no_data_calls [of st _ "ssl_write api buf s"]
    by (auto simp: ssl_contract_def no_data_def prod_eq_iff)
  have fl: "by_io_calls st (ssl_io s) r (ssl_io s')" if "no_data (ssl_flush api s) = (r, s')" for s r s'
    using c that no_data_calls [of st _ "ssl_flush api s"]
    by (auto simp: ssl_contract_def no_data_def prod_eq_iff)
  have cl: "by_io_calls st (ssl_io s) r (ssl_io s')"
    if "(let (r, s') = ssl_shutdown api s
         in no_data (exec_bind r (\<lambda>x. Returned (close_result x)), s')) = (r, s')" for s r s'
  proof -
    obtain q z where q: "ssl_shutdown api s = (q, z)" by fastforce
    with c have "by_io_calls st (ssl_io s) q (ssl_io z)" by (simp add: ssl_contract_def)
    with q that show ?thesis by (cases q) (auto simp: no_data_def by_io_calls_def)
  qed
  show ?thesis
    using tls_with_context_ok [OF ctx rd] tls_with_context_ok [OF ctx wr]
      tls_with_context_ok [OF ctx fl] tls_with_context_ok [OF ctx cl]
    by (cases op) (simp_all add: tls_call_def tls_poll_read_def tls_poll_write_def
        tls_poll_flush_def tls_poll_close_def unit)
qed

lemma handshake_arm_ok:
  assumes "answers_by_io_calls st w a" and "wr_context w \<noteq> 0"
  shows "case handshake_arm a of
      (Panicked, _) \<Rightarrow> False
    | (Returned Pending, f) \<Rightarrow> \<exists>m. f = Hs_MidHandshake m \<and> wr_context (ssl_io m) = 0
    | (Returned (Ready (Inr t)), f) \<Rightarrow> f = Hs_Done \<and> wr_context (ssl_io (tls t)) = 0
    | (Returned (Ready (Inl e)), f) \<Rightarrow> f = Hs_Done"
proof (cases a)
  case Panicked
  with assms show ?thesis by (auto simp: answers_by_io_calls_def dest: by_io_calls_keeps(2))
next
  case (Returned res)
  show ?thesis
  proof (cases res)
    case (Inr s)
    with assms Returned have "wr_context (ssl_io s) \<noteq> 0"
      by (auto simp: answers_by_io_calls_def dest: by_io_calls_keeps(1))
    with Returned Inr show ?thesis by (simp add: handshake_arm_def unset_context_def)
  next
    case (Inl e)
    have "wr_context (ssl_io m) \<noteq> 0" if "e = Hs_WouldBlock m" for m
      using assms Returned Inl that
      by (auto simp: answers_by_io_calls_def dest: by_io_calls_keeps(1))
    with Returned Inl show ?thesis
      by (cases e) (auto simp: handshake_arm_def unset_context_def)
  qed
qed

lemma handshake_poll_ok:
  assumes c: "ssl_contract st api" and "cx \<noteq> 0"
    and "case fut of
        Hs_Initial f w \<Rightarrow> wr_context w = 0 \<and> (\<forall>v. answers_by_io_calls st v (f v))
      | Hs_MidHandshake m \<Rightarrow> wr_context (ssl_io m) = 0
      | Hs_Done \<Rightarrow> False"
  shows "case handshake_poll api cx fut of
      (Panicked, _) \<Rightarrow> False
    | (Returned Pending, f) \<Rightarrow> \<exists>m. f = Hs_MidHandshake m \<and> wr_context (ssl_io m) = 0
    | (Returned (Ready (Inr t)), f) \<Rightarrow> f = Hs_Done \<and> wr_context (ssl_io (tls t)) = 0
    | (Returned (Ready (Inl e)), f) \<Rightarrow> f = Hs_Done"
proof (cases fut)
  case (Hs_Initial f w)
  let ?w = "w\<lparr>wr_context := cx\<rparr>"
  have "answers_by_io_calls st ?w (f ?w)" "wr_context ?w \<noteq> 0" using assms Hs_Initial by auto
  from handshake_arm_ok [OF this] Hs_Initial assms show ?thesis
    by (simp add: handshake_poll_def set_context_def)
next
  case (Hs_MidHandshake m)
  let ?m = "m\<lparr>ssl_io := (ssl_io m)\<lparr>wr_context := cx\<rparr>\<rparr>"
  have "answers_by_io_calls st (ssl_io ?m) (ssl_handshake api ?m)"
    using c by (simp only: ssl_contract_def)
  from handshake_arm_ok [OF this] Hs_MidHandshake assms show ?thesis
    by (simp add: handshake_poll_def set_context_def)
qed (use assms in simp)

lemma handshake_await_ok:
  assumes c: "ssl_contract st api" and "\<forall>cx \<in> set cxs. cx \<noteq> 0"
    and "case fut of
        Hs_Initial f w \<Rightarrow> wr_context w = 0 \<and> (\<forall>v. answers_by_io_calls st v (f v))
      | Hs_MidHandshake m \<Rightarrow> wr_context (ssl_io m) = 0
      | Hs_Done \<Rightarrow> False"
  shows "case handshake_await api cxs fut of
      (None, f) \<Rightarrow> f \<noteq> Hs_Done
    | (Some Panicked, _) \<Rightarrow> False
    | (Some (Returned (Inr t)), f) \<Rightarrow> f = Hs_Done \<and> wr_context (ssl_io (tls t)) = 0
    | (Some (Returned (Inl e)), f) \<Rightarrow> f = Hs_Done"
  using assms(2,3)
proof (induction cxs arbitrary: fut)
  case Nil
  then show ?case by (cases fut) auto
next
  case (Cons cx cxs)
  obtain r f' where p: "handshake_poll api cx fut = (r, f')" by fastforce
  have ok: "case (r, f') of
      (Panicked, _) \<Rightarrow> False
    | (Returned Pending, f) \<Rightarrow> \<exists>m. f = Hs_MidHandshake m \<and> wr_context (ssl_io m) = 0
    | (Returned (Ready (Inr t)), f) \<Rightarrow> f = Hs_Done \<and> wr_context (ssl_io (tls t)) = 0
    | (Returned (Ready (Inl e)), f) \<Rightarrow> f = Hs_Done"
    using handshake_poll_ok [OF c, of cx fut] Cons.prems p by simp
  show ?case
  proof (cases "r = Returned Pending")
    case True
    with ok obtain m where m: "f' = Hs_MidHandshake m" "wr_context (ssl_io m) = 0" by auto
    with Cons.IH [of f'] Cons.prems(1) p True show ?thesis by simp
  next
    case False
    with ok p show ?thesis by (auto split: exec.splits poll.splits sum.splits)
  qed
qed

lemma by_one_call:
  assumes "wrapper_call st c w = (q, w')" and "r = Panicked \<longleftrightarrow> q = Panicked"
  shows "by_io_calls st w r w'"
  using assms by (auto simp: by_io_calls_def intro!: exI [of _ "[c]"] split: exec.split)

lemma exec_bind_unit_Panicked: "exec_bind r (\<lambda>_. Returned ()) = Panicked \<longleftrightarrow> r = Panicked"
  by (cases r) auto

lemma wrapper_write_calls:
  "wrapper_write st buf w = (r, w') \<Longrightarrow> by_io_calls st w r w'"
  by (rule by_one_call [of st "Call_Write buf" w "exec_bind r (\<lambda>_. Returned ())"])
    (simp_all add: wrapper_call_def exec_bind_unit_Panicked)

lemma plain_handshake_calls: "answers_by_io_calls st (ssl_io s) (ssl_handshake (plain_ssl st) s)"
proof -
  obtain r w where w: "wrapper_write st [0] (ssl_io s) = (r, w)" by fastforce
  from wrapper_write_calls [OF this] w show ?thesis
    by (auto simp: plain_ssl_def answers_by_io_calls_def by_io_calls_def split: exec.splits sum.splits)
qed

lemma plain_ssl_contract: "ssl_contract st (plain_ssl st)"
proof -
  have "by_io_calls st (ssl_io s) r (ssl_io s')" if "ssl_read (plain_ssl st) buf s = (r, s')" for buf s r s'
    using that
    by (intro by_one_call [of st "Call_Read buf" _ "exec_bind r (\<lambda>_. Returned ())"])
      (auto simp: plain_ssl_def wrapper_call_def exec_bind_unit_Panicked apsnd_def map_prod_def
        case_prod_beta)
  moreover have "by_io_calls st (ssl_io s) r (ssl_io s')" if "ssl_write (plain_ssl st) buf s = (r, s')"
    for buf s r s'
    using that
    by (intro by_one_call [of st "Call_Write buf" _ "exec_bind r (\<lambda>_. Returned ())"])
      (auto simp: plain_ssl_def wrapper_call_def exec_bind_unit_Panicked apsnd_def map_prod_def
        case_prod_beta)
  moreover have "by_io_calls st (ssl_io s) r (ssl_io s')" if "ssl_flush (plain_ssl st) s = (r, s')"
    for s r s'
    using that
    by (intro by_one_call [of st Call_Flush _ "exec_bind r (\<lambda>_. Returned ())"])
      (auto simp: plain_ssl_def wrapper_call_def exec_bind_unit_Panicked apsnd_def map_prod_def
        case_prod_beta)
  moreover have "by_io_calls st (ssl_io s) r (ssl_io s')" if "ssl_shutdown (plain_ssl st) s = (r, s')"
    for s r s'
    using that by (auto simp: plain_ssl_def by_io_calls_def intro: exI [of _ "[]"])
  ultimately show ?thesis using plain_handshake_calls by (auto simp: ssl_contract_def)
qed

lemma plain_start_calls: "answers_by_io_calls st w (plain_start st w)"
  using plain_handshake_calls [of st "\<lparr>ssl_engine = 0, ssl_io = w\<rparr>"] by (simp add: plain_start_def)

lemma tls_run_ok:
  assumes "ssl_contract st api" and "wr_context (ssl_io (tls self)) = 0"
    and "\<forall>c \<in> set ops. fst c \<noteq> 0"
  shows "fst (io_run (tls_call api) ops self) = Returned () \<and>
     wr_context (ssl_io (tls (snd (io_run (tls_call api) ops self)))) = 0"
  using assms(2,3)
proof (induction ops arbitrary: self)
  case (Cons c ops)
  obtain cx op where c: "c = (cx, op)" by fastforce
  have "fst (tls_call api c self) \<noteq> Panicked \<and> wr_context (ssl_io (tls (snd (tls_call api c self)))) = 0"
    using tls_call_ok [OF assms(1) Cons.prems(1), of cx op] Cons.prems(2) c by simp
  with Cons.IH Cons.prems(2) show ?case by (auto split: prod.split exec.split)
qed simp

section \<open>Properties\<close>

text \<open>
  C15. A handshake (\<open>accept\<close> and \<open>connect\<close> start it) awaited over any number of wake-ups never panics:
  it ends with a stream that has no context stored or with an error, in both cases in the state
  \<open>Done\<close>, or it is still waiting, never in \<open>Done\<close>. Only a poll after the end panics.
\<close>

theorem handshake_state_machine:
  assumes "ssl_contract st api" and "\<forall>cx \<in> set cxs. cx \<noteq> 0"
    and "\<And>w. answers_by_io_calls st w (start w)"
  shows "(case handshake_await api cxs (Hs_Initial start (wrapper_new stream)) of
      (None, f) \<Rightarrow> f \<noteq> Hs_Done
    | (Some Panicked, _) \<Rightarrow> False
    | (Some (Returned (Inr t)), f) \<Rightarrow> f = Hs_Done \<and> wr_context (ssl_io (tls t)) = 0
    | (Some (Returned (Inl e)), f) \<Rightarrow> f = Hs_Done) \<and>
    handshake_poll api cx Hs_Done = (Panicked, Hs_Done)"
  using handshake_await_ok [OF assms(1,2), of "Hs_Initial start (wrapper_new stream)"] assms(3)
  by (simp add: wrapper_new_def handshake_poll_def)

theorem handshake_state_machine_witness:
  "\<exists>t. handshake_await (plain_ssl blinker) [8, 16] (Hs_Initial (plain_start blinker) (wrapper_new False))
     = (Some (Returned (Inr t)), Hs_Done) \<and> wr_context (ssl_io (tls t)) = 0"
proof -
  let ?r = "handshake_await (plain_ssl blinker) [8, 16] (Hs_Initial (plain_start blinker) (wrapper_new False))"
  have cxs: "\<forall>cx \<in> set [8, 16]. cx \<noteq> (0 :: usize)" by simp
  obtain t f where r: "?r = (Some (Returned (Inr t)), f)"
    by (simp add: handshake_poll_def handshake_arm_def plain_start_def plain_ssl_def blinker_def
        wrapper_new_def set_context_def unset_context_def wrapper_write_def wrapper_with_context_def)
  from handshake_state_machine [where stream = False and st = blinker, OF plain_ssl_contract cxs plain_start_calls] r
  show ?thesis by (intro exI [of _ t]) (simp del: handshake_await.simps)
qed

text \<open>
  C32. The detour through synchronous I/O is invisible: with a context stored, turning the adapter's
  result of a read, write or flush back into a poll gives exactly what the inner stream answered,
  \<open>Pending\<close> included, as long as the inner stream does not itself fail with \<open>WouldBlock\<close>.
\<close>

theorem sync_detour_round_trip:
  assumes "wr_context w \<noteq> 0"
    and "st_poll_read st (wr_context w) buf (wr_inner w) = (pr, b, sr)"
    and "st_poll_write st (wr_context w) buf (wr_inner w) = (pw, sw)"
    and "st_poll_flush st (wr_context w) (wr_inner w) = (pf, sf)"
    and "\<And>e. pr = Ready (Inl e) \<or> pw = Ready (Inl e) \<or> pf = Ready (Inl e) \<Longrightarrow> kind e \<noteq> WouldBlock"
  shows "(\<exists>r. wrapper_read st buf w = (Returned (r, b), w\<lparr>wr_inner := sr\<rparr>) \<and> result_to_poll r = pr) \<and>
     (\<exists>r. wrapper_write st buf w = (Returned r, w\<lparr>wr_inner := sw\<rparr>) \<and> result_to_poll r = pw) \<and>
     (\<exists>r. wrapper_flush st w = (Returned r, w\<lparr>wr_inner := sf\<rparr>) \<and> result_to_poll r = pf)"
proof (intro conjI)
  show "\<exists>r. wrapper_read st buf w = (Returned (r, b), w\<lparr>wr_inner := sr\<rparr>) \<and> result_to_poll r = pr"
    using assms(1,2,5)
    by (auto simp: wrapper_read_def wrapper_with_context_def result_to_poll_def would_block_def
        split: poll.split sum.split)
  show "\<exists>r. wrapper_write st buf w = (Returned r, w\<lparr>wr_inner := sw\<rparr>) \<and> result_to_poll r = pw"
    using assms(1,3,5)
    by (auto simp: wrapper_write_def wrapper_with_context_def result_to_poll_def would_block_def
        split: poll.split sum.split)
  show "\<exists>r. wrapper_flush st w = (Returned r, w\<lparr>wr_inner := sf\<rparr>) \<and> result_to_poll r = pf"
    using assms(1,4,5)
    by (auto simp: wrapper_flush_def wrapper_with_context_def result_to_poll_def would_block_def
        split: poll.split sum.split)
qed

theorem sync_detour_round_trip_witness:
  "\<exists>r. wrapper_read blinker [0] \<lparr>wr_inner = True, wr_context = 8\<rparr>
     = (Returned (r, [0]), \<lparr>wr_inner = True, wr_context = 8\<rparr>) \<and> result_to_poll r = Pending"
  using sync_detour_round_trip [of "\<lparr>wr_inner = True, wr_context = 8\<rparr>" blinker "[0]" Pending "[0]" True
      "Ready (Inr 1)" False "Ready (Inr ())" True]
  by (simp add: blinker_def)

text \<open>
  C40. Closing never waits: when the library's shutdown cannot finish because the socket is not ready
  (\<open>WANT_READ\<close>, \<open>WANT_WRITE\<close>), \<open>poll_close\<close> does not return \<open>Pending\<close>, it completes with an error of
  kind \<open>Other\<close>; and no answer of the library makes it return \<open>Pending\<close>.
\<close>

theorem poll_close_never_pending:
  assumes "wr_context (ssl_io (tls self)) = 0" and "cx \<noteq> 0"
    and "ssl_shutdown api ((tls self)\<lparr>ssl_io := (ssl_io (tls self))\<lparr>wr_context := cx\<rparr>\<rparr>)
       = (Returned answer, s)"
    and "wr_context (ssl_io s) = cx"
  shows "\<exists>self'. tls_poll_close api cx self =
     (Returned (Ready (case answer of
        Inl e \<Rightarrow> if code e = ZERO_RETURN then Inr () else Inl (IoError OtherError (ssl_text e))
      | Inr _ \<Rightarrow> Inr ()), ()), self')"
  using assms
  by (auto simp: tls_poll_close_def tls_with_context_def set_context_def unset_context_def
      no_data_def result_to_poll_def close_result_def split: sum.split)

theorem poll_close_never_pending_witness:
  "\<exists>self'. tls_poll_close (plain_ssl blinker) 8 \<lparr>tls = \<lparr>ssl_engine = 0, ssl_io = wrapper_new True\<rparr>\<rparr>
     = (Returned (Ready (Inl (IoError OtherError ''want write'')), ()), self')"
  using poll_close_never_pending [of "\<lparr>tls = \<lparr>ssl_engine = 0, ssl_io = wrapper_new True\<rparr>\<rparr>" 8
      "plain_ssl blinker" "Inl (SslError WANT_WRITE ''want write'')"]
  by (simp add: plain_ssl_def wrapper_new_def)

end
