(* ===== verification/Openssl_Certs.thy ===== *)
theory Openssl_Certs
  imports Net
begin

text \<open>
  Certificates, keys and identities over the OpenSSL bindings: \<open>src/src/openssl/certificate.rs\<close> and
  the module \<open>certs\<close> of \<open>src/src/openssl/connector.rs\<close>. Parsing and the PKCS12 container are the
  bindings' (the record \<open>pkcs_api\<close>); \<open>pkcs12_contract\<close> says that a container gives back what it was
  built from under the same password. The three builders interpret the trait \<open>CertBuilder\<close>, and an
  identity survives the way through the container.
\<close>

section \<open>The bindings\<close>

text \<open>\<open>'x\<close> is an X509 certificate, \<open>'k\<close> a private key, \<open>'p\<close> a PKCS12 container.\<close>

record ('x, 'k) ParsedPkcs12 =
  parsed_pkey :: "'k option"
  parsed_cert :: "'x option"
  parsed_ca :: "'x list option"

record ('x, 'k, 'p) pkcs_api =
  pk_x509_from_pem :: "u8 list \<Rightarrow> ('x, anyhow) result"
  pk_x509_from_der :: "u8 list \<Rightarrow> ('x, anyhow) result"
  pk_x509_to_der :: "'x \<Rightarrow> (u8 list, anyhow) result"
  pk_key_from_pem :: "u8 list \<Rightarrow> ('k, anyhow) result"
  pk_build2 :: "string \<Rightarrow> 'k \<Rightarrow> 'x \<Rightarrow> string \<Rightarrow> ('p, anyhow) result"
  pk_to_der :: "'p \<Rightarrow> (u8 list, anyhow) result"
  pk_from_der :: "u8 list \<Rightarrow> ('p, anyhow) result"
  pk_parse2 :: "'p \<Rightarrow> string \<Rightarrow> (('x, 'k) ParsedPkcs12, string) result"

section \<open>Certificate\<close>

record 'x Certificate =
  cert_inner :: 'x

definition Certificate_from_pem :: "('x, 'k, 'p) pkcs_api \<Rightarrow> u8 list \<Rightarrow> ('x Certificate, anyhow) result"
  where
  "Certificate_from_pem pk bytes = result_bind (pk_x509_from_pem pk bytes) (\<lambda>x. Inr \<lparr>cert_inner = x\<rparr>)"

definition Certificate_from_der :: "('x, 'k, 'p) pkcs_api \<Rightarrow> u8 list \<Rightarrow> ('x Certificate, anyhow) result"
  where
  "Certificate_from_der pk bytes = result_bind (pk_x509_from_der pk bytes) (\<lambda>x. Inr \<lparr>cert_inner = x\<rparr>)"

definition Certificate_to_der :: "('x, 'k, 'p) pkcs_api \<Rightarrow> 'x Certificate \<Rightarrow> (u8 list, anyhow) result"
  where
  "Certificate_to_der pk self = pk_x509_to_der pk (cert_inner self)"

definition Certificate_inner :: "'x Certificate \<Rightarrow> 'x" where
  "Certificate_inner self = cert_inner self"

record 'k PrivateKey =
  private_key :: 'k

section \<open>Identity\<close>

record ('x, 'k) Identity =
  id_pkey :: 'k
  id_cert :: 'x
  id_chain :: "'x list"

definition ok_or :: "'a option \<Rightarrow> 'e \<Rightarrow> ('a, 'e) result" where
  "ok_or x e = (case x of None \<Rightarrow> Inl e | Some v \<Rightarrow> Inr v)"

definition Identity_from_pkcs12 ::
  "('x, 'k, 'p) pkcs_api \<Rightarrow> u8 list \<Rightarrow> string \<Rightarrow> (('x, 'k) Identity, anyhow) result" where
  "Identity_from_pkcs12 pk buf pass =
     result_bind (pk_from_der pk buf) (\<lambda>pkcs12.
     result_bind (map_err (\<lambda>err. anyhow_msg (''Couldn't read pkcs12 '' @ err)) (pk_parse2 pk pkcs12 pass))
       (\<lambda>parsed.
     result_bind (ok_or (parsed_pkey parsed) (anyhow_msg ''Missing private key'')) (\<lambda>pkey.
     result_bind (ok_or (parsed_cert parsed) (anyhow_msg ''Missing cert'')) (\<lambda>cert.
     Inr \<lparr>id_pkey = pkey, id_cert = cert,
       id_chain = (case parsed_ca parsed of None \<Rightarrow> [] | Some ca \<Rightarrow> ca)\<rparr>))))"

definition Identity_cert :: "('x, 'k) Identity \<Rightarrow> 'x" where
  "Identity_cert self = id_cert self"

definition Identity_pkey :: "('x, 'k) Identity \<Rightarrow> 'k" where
  "Identity_pkey self = id_pkey self"

definition Identity_chain :: "('x, 'k) Identity \<Rightarrow> 'x list" where
  "Identity_chain self = id_chain self"

section \<open>Builders\<close>

record X509PemBuilder =
  x509_bytes :: "u8 list"

definition X509PemBuilder_new :: "u8 list \<Rightarrow> X509PemBuilder" where
  "X509PemBuilder_new bytes = \<lparr>x509_bytes = bytes\<rparr>"

definition X509PemBuilder_build ::
  "('x, 'k, 'p) pkcs_api \<Rightarrow> X509PemBuilder \<Rightarrow> ('x Certificate, anyhow) result" where
  "X509PemBuilder_build pk self =
     with_context_msg ''invalid cert'' (Certificate_from_pem pk (x509_bytes self))"

definition PASSWORD :: string where
  "PASSWORD = ''test''"

record PrivateKeyBuilder =
  key_bytes :: "u8 list"

definition PrivateKeyBuilder_new :: "u8 list \<Rightarrow> PrivateKeyBuilder" where
  "PrivateKeyBuilder_new bytes = \<lparr>key_bytes = bytes\<rparr>"

definition PrivateKeyBuilder_build ::
  "('x, 'k, 'p) pkcs_api \<Rightarrow> PrivateKeyBuilder \<Rightarrow> ('k, anyhow) result" where
  "PrivateKeyBuilder_build pk self =
     with_context_msg ''invalid key'' (pk_key_from_pem pk (key_bytes self))"

record IdentityBuilder =
  identity_bytes :: "u8 list"

definition IdentityBuilder_new :: "u8 list \<Rightarrow> IdentityBuilder" where
  "IdentityBuilder_new bytes = \<lparr>identity_bytes = bytes\<rparr>"

definition IdentityBuilder_from_x509 ::
  "('x, 'k, 'p) pkcs_api \<Rightarrow> X509PemBuilder \<Rightarrow> PrivateKeyBuilder \<Rightarrow> (IdentityBuilder, anyhow) result" where
  "IdentityBuilder_from_x509 pk x509 key =
     result_bind (PrivateKeyBuilder_build pk key) (\<lambda>server_key.
     result_bind (X509PemBuilder_build pk x509) (\<lambda>server_crt.
     result_bind (with_context_msg ''Failed to create Pkcs12''
       (pk_build2 pk [] server_key (cert_inner server_crt) PASSWORD)) (\<lambda>p12.
     result_bind (pk_to_der pk p12) (\<lambda>der. Inr \<lparr>identity_bytes = der\<rparr>))))"

definition IdentityBuilder_build ::
  "('x, 'k, 'p) pkcs_api \<Rightarrow> IdentityBuilder \<Rightarrow> (('x, 'k) Identity, anyhow) result" where
  "IdentityBuilder_build pk self =
     with_context_msg ''Failed to load der'' (Identity_from_pkcs12 pk (identity_bytes self) PASSWORD)"

section \<open>The trait CertBuilder, interpreted\<close>

interpretation x509_builder: cert_builder X509PemBuilder_new x509_bytes
  by unfold_locales (simp add: X509PemBuilder_new_def)

interpretation key_builder: cert_builder PrivateKeyBuilder_new key_bytes
  by unfold_locales (simp add: PrivateKeyBuilder_new_def)

interpretation identity_builder: cert_builder IdentityBuilder_new identity_bytes
  by unfold_locales (simp add: IdentityBuilder_new_def)

section \<open>What is relied on\<close>

definition pkcs12_contract :: "('x, 'k, 'p) pkcs_api \<Rightarrow> bool" where
  "pkcs12_contract pk \<longleftrightarrow>
     (\<forall>name k x pass p der. pk_build2 pk name k x pass = Inr p \<and> pk_to_der pk p = Inr der \<longrightarrow>
        (\<exists>p'. pk_from_der pk der = Inr p' \<and>
           pk_parse2 pk p' pass = Inr \<lparr>parsed_pkey = Some k, parsed_cert = Some x, parsed_ca = None\<rparr>))"

text \<open>For the witnesses: containers that are the bytes of the key and the certificate.\<close>

definition toy_pkcs :: "(u8, u8, u8 \<times> u8 \<times> string) pkcs_api" where
  "toy_pkcs = \<lparr>
     pk_x509_from_pem = (\<lambda>bs. case bs of [b] \<Rightarrow> Inr b | _ \<Rightarrow> Inl (anyhow_msg ''pem'')),
     pk_x509_from_der = (\<lambda>bs. case bs of [b] \<Rightarrow> Inr b | _ \<Rightarrow> Inl (anyhow_msg ''der'')),
     pk_x509_to_der = (\<lambda>x. Inr [x]),
     pk_key_from_pem = (\<lambda>bs. case bs of [b] \<Rightarrow> Inr b | _ \<Rightarrow> Inl (anyhow_msg ''pem'')),
     pk_build2 = (\<lambda>name k x pass. if pass = PASSWORD then Inr (k, x, pass) else Inl (anyhow_msg ''pw'')),
     pk_to_der = (\<lambda>(k, x, pass). Inr [k, x]),
     pk_from_der = (\<lambda>bs. case bs of [k, x] \<Rightarrow> Inr (k, x, PASSWORD) | _ \<Rightarrow> Inl (anyhow_msg ''der'')),
     pk_parse2 = (\<lambda>(k, x, pass) pw. if pw = pass
        then Inr \<lparr>parsed_pkey = Some k, parsed_cert = Some x, parsed_ca = None\<rparr> else Inl ''mac'')\<rparr>"

lemma toy_pkcs_contract: "pkcs12_contract toy_pkcs"
  by (auto simp: pkcs12_contract_def toy_pkcs_def split: if_splits)

section \<open>Properties\<close>

text \<open>
  C35. An identity survives the PKCS12 container: when a certificate and a key read from files can be
  packed by \<open>from_x509\<close>, building the identity from the result succeeds and gives exactly the key and
  the certificate that the files parse to, with an empty chain.
\<close>

theorem identity_round_trip:
  assumes "pkcs12_contract pk"
    and "cert_from_path open_file X509PemBuilder_new cert_path = Inr x509"
    and "cert_from_path open_file PrivateKeyBuilder_new key_path = Inr key"
    and "IdentityBuilder_from_x509 pk x509 key = Inr builder"
  shows "\<exists>cs ks x k. open_file cert_path = Inr (Inr cs) \<and> open_file key_path = Inr (Inr ks) \<and>
     pk_x509_from_pem pk cs = Inr x \<and> pk_key_from_pem pk ks = Inr k \<and>
     IdentityBuilder_build pk builder = Inr \<lparr>id_pkey = k, id_cert = x, id_chain = []\<rparr>"
proof -
  have files: "open_file cert_path = Inr (Inr (x509_bytes x509))"
    "open_file key_path = Inr (Inr (key_bytes key))"
    using x509_builder.from_path_bytes [of id] key_builder.from_path_bytes [of id] assms(2,3)
    by simp_all
  from assms(4) obtain k x p where
    b: "pk_key_from_pem pk (key_bytes key) = Inr k" "pk_x509_from_pem pk (x509_bytes x509) = Inr x"
      "pk_build2 pk [] k x PASSWORD = Inr p" "pk_to_der pk p = Inr (identity_bytes builder)"
    by (auto simp: IdentityBuilder_from_x509_def PrivateKeyBuilder_build_def X509PemBuilder_build_def
        Certificate_from_pem_def result_bind_Inr_iff)
  with assms(1) obtain p' where "pk_from_der pk (identity_bytes builder) = Inr p'"
    "pk_parse2 pk p' PASSWORD = Inr \<lparr>parsed_pkey = Some k, parsed_cert = Some x, parsed_ca = None\<rparr>"
    unfolding pkcs12_contract_def by blast
  then have "IdentityBuilder_build pk builder = Inr \<lparr>id_pkey = k, id_cert = x, id_chain = []\<rparr>"
    by (simp add: IdentityBuilder_build_def Identity_from_pkcs12_def ok_or_def)
  with files b show ?thesis by blast
qed

theorem identity_round_trip_witness:
  "IdentityBuilder_build toy_pkcs \<lparr>identity_bytes = [8, 7]\<rparr> =
     Inr \<lparr>id_pkey = 8, id_cert = 7, id_chain = []\<rparr>"
proof -
  let ?open = "\<lambda>p. if p = ''cert'' then Inr (Inr [7]) else Inr (Inr [8 :: u8]) :: (reader, io_error) result"
  have c: "cert_from_path ?open X509PemBuilder_new ''cert'' = Inr \<lparr>x509_bytes = [7]\<rparr>"
    and k: "cert_from_path ?open PrivateKeyBuilder_new ''key'' = Inr \<lparr>key_bytes = [8]\<rparr>"
    by (simp_all add: cert_from_path_def cert_from_reader_def X509PemBuilder_new_def
        PrivateKeyBuilder_new_def)
  have "IdentityBuilder_from_x509 toy_pkcs \<lparr>x509_bytes = [7]\<rparr> \<lparr>key_bytes = [8]\<rparr>
      = Inr \<lparr>identity_bytes = [8, 7]\<rparr>"
    by (simp add: IdentityBuilder_from_x509_def PrivateKeyBuilder_build_def X509PemBuilder_build_def
        Certificate_from_pem_def toy_pkcs_def with_context_msg_def)
  from identity_round_trip [OF toy_pkcs_contract c k this] show ?thesis
    by (auto simp: toy_pkcs_def)
qed

end
