(* ===== verification/Openssl_Tls.thy ===== *)
theory Openssl_Tls
  imports Openssl_Stream Openssl_Certs
begin

text \<open>
  The OpenSSL connector and acceptor with their builders: \<open>TlsConnector\<close> and \<open>TlsConnectorBuilder\<close> of
  \<open>src/src/openssl/connector.rs\<close>, \<open>TlsAcceptor\<close> and \<open>TlsAcceptorBuilder\<close> of
  \<open>src/src/openssl/acceptor.rs\<close>. The builders and contexts of the bindings are the record
  \<open>openssl_api\<close>; connecting and accepting end in the handshake of \<open>Openssl_Stream\<close>, awaited over the
  wake-ups of the executor. The lemmas follow the verification settings from the builder into the
  handshake and carry over that no assertion fails.
\<close>

section \<open>The bindings\<close>

text \<open>
  \<open>'b\<close> is a connector or acceptor builder of the bindings, \<open>'c\<close> the finished context, \<open>'g\<close> the
  configuration of one client connection, \<open>'m\<close> a verification mode.
\<close>

record ('b, 'c, 'g, 'm, 'x, 'k, 's, 'e) openssl_api =
  os_connector_builder :: "('b, anyhow) result"
  os_acceptor_builder :: "('b, anyhow) result"
  os_set_verify :: "'m \<Rightarrow> 'b \<Rightarrow> 'b"
  os_verify_none :: 'm
  os_set_certificate_file :: "string \<Rightarrow> 'b \<Rightarrow> ('b, anyhow) result"
  os_set_private_key_file :: "string \<Rightarrow> 'b \<Rightarrow> ('b, anyhow) result"
  os_set_ca_file :: "string \<Rightarrow> 'b \<Rightarrow> ('b, anyhow) result"
  os_store_add_cert :: "'x \<Rightarrow> 'b \<Rightarrow> ('b, anyhow) result"
  os_set_certificate :: "'x \<Rightarrow> 'b \<Rightarrow> ('b, anyhow) result"
  os_set_private_key :: "'k \<Rightarrow> 'b \<Rightarrow> ('b, anyhow) result"
  os_add_extra_chain_cert :: "'x \<Rightarrow> 'b \<Rightarrow> ('b, anyhow) result"
  os_build :: "'b \<Rightarrow> 'c"
  os_configure :: "'c \<Rightarrow> ('g, anyhow) result"
  os_verify_hostname :: "bool \<Rightarrow> 'g \<Rightarrow> 'g"
  os_set_partial_chain :: "'g \<Rightarrow> ('g, anyhow) result"
  os_connect :: "'g \<Rightarrow> string \<Rightarrow> 's AsyncToSyncWrapper \<Rightarrow>
     (('s, 'e) SslStream, ('s, 'e) HandshakeError) result exec"
  os_accept :: "'c \<Rightarrow> 's AsyncToSyncWrapper \<Rightarrow>
     (('s, 'e) SslStream, ('s, 'e) HandshakeError) result exec"

section \<open>TlsConnectorBuilder\<close>

record 'b TlsConnectorBuilder =
  cb_inner :: 'b
  cb_verify_hostname :: bool
  cb_allow_partial :: bool

record 'c TlsConnector =
  tc_inner :: 'c
  tc_verify_hostname :: bool
  tc_allow_partial :: bool

definition TlsConnector_builder ::
  "('b, 'c, 'g, 'm, 'x, 'k, 's, 'e) openssl_api \<Rightarrow> ('b TlsConnectorBuilder, anyhow) result" where
  "TlsConnector_builder os =
     result_bind (os_connector_builder os) (\<lambda>inner.
       Inr \<lparr>cb_inner = inner, cb_verify_hostname = True, cb_allow_partial = True\<rparr>)"

definition with_hostname_verification_disabled ::
  "'b TlsConnectorBuilder \<Rightarrow> ('b TlsConnectorBuilder, anyhow) result" where
  "with_hostname_verification_disabled self = Inr (self\<lparr>cb_verify_hostname := False\<rparr>)"

definition with_certificate_verification_disabled ::
  "('b, 'c, 'g, 'm, 'x, 'k, 's, 'e) openssl_api \<Rightarrow> 'b TlsConnectorBuilder \<Rightarrow>
   ('b TlsConnectorBuilder, anyhow) result" where
  "with_certificate_verification_disabled os self =
     Inr (self\<lparr>cb_inner := os_set_verify os (os_verify_none os) (cb_inner self)\<rparr>)"

definition connector_with_pem_files ::
  "('b, 'c, 'g, 'm, 'x, 'k, 's, 'e) openssl_api \<Rightarrow> string \<Rightarrow> string \<Rightarrow> 'b TlsConnectorBuilder \<Rightarrow>
   ('b TlsConnectorBuilder, anyhow) result" where
  "connector_with_pem_files os cert_file key_file self =
     result_bind (os_set_certificate_file os cert_file (cb_inner self)) (\<lambda>b1.
     result_bind (os_set_private_key_file os key_file b1) (\<lambda>b2. Inr (self\<lparr>cb_inner := b2\<rparr>)))"

definition connector_with_ca_file ::
  "('b, 'c, 'g, 'm, 'x, 'k, 's, 'e) openssl_api \<Rightarrow> string \<Rightarrow> 'b TlsConnectorBuilder \<Rightarrow>
   ('b TlsConnectorBuilder, anyhow) result" where
  "connector_with_ca_file os ca_file self =
     result_bind (os_set_ca_file os ca_file (cb_inner self)) (\<lambda>b. Inr (self\<lparr>cb_inner := b\<rparr>))"

definition add_root_certificate ::
  "('b, 'c, 'g, 'm, 'x, 'k, 's, 'e) openssl_api \<Rightarrow> 'x Certificate \<Rightarrow> 'b TlsConnectorBuilder \<Rightarrow>
   ('b TlsConnectorBuilder, anyhow) result" where
  "add_root_certificate os cert self =
     result_bind (os_store_add_cert os (cert_inner cert) (cb_inner self)) (\<lambda>b.
       Inr (self\<lparr>cb_inner := b\<rparr>))"

definition with_identity ::
  "('x, 'k, 'p) pkcs_api \<Rightarrow> ('b, 'c, 'g, 'm, 'x, 'k, 's, 'e) openssl_api \<Rightarrow> IdentityBuilder \<Rightarrow>
   'b TlsConnectorBuilder \<Rightarrow> ('b TlsConnectorBuilder, anyhow) result" where
  "with_identity pk os builder self =
     result_bind (with_context_msg ''failed to build identity'' (IdentityBuilder_build pk builder))
       (\<lambda>identity.
     result_bind (os_set_certificate os (Identity_cert identity) (cb_inner self)) (\<lambda>b1.
     result_bind (os_set_private_key os (Identity_pkey identity) b1) (\<lambda>b2.
     result_bind (try_fold (os_add_extra_chain_cert os) (rev (Identity_chain identity)) b2) (\<lambda>b3.
     Inr (self\<lparr>cb_inner := b3\<rparr>)))))"

definition TlsConnectorBuilder_build ::
  "('b, 'c, 'g, 'm, 'x, 'k, 's, 'e) openssl_api \<Rightarrow> 'b TlsConnectorBuilder \<Rightarrow> 'c TlsConnector" where
  "TlsConnectorBuilder_build os self =
     \<lparr>tc_inner = os_build os (cb_inner self), tc_verify_hostname = cb_verify_hostname self,
      tc_allow_partial = cb_allow_partial self\<rparr>"

section \<open>The certificate of the peer\<close>

text \<open>The library keeps the certificate the peer presented in the handshake, if it did.\<close>

definition peer_certificate ::
  "(('s, 'e) SslStream \<Rightarrow> 'x option) \<Rightarrow> ('s, 'e) TlsStream \<Rightarrow> 'x Certificate option" where
  "peer_certificate ssl_peer self = map_option (\<lambda>x. \<lparr>cert_inner = x\<rparr>) (ssl_peer (tls self))"

section \<open>Awaiting a handshake\<close>

text \<open>
  The result of \<open>.await\<close> on the handshake future, with the error of the bindings turned into an
  \<open>anyhow\<close> one by its display: \<open>None\<close> while the wake-ups given have not been enough.
\<close>

definition await_handshake ::
  "('s, 'e) ssl_api \<Rightarrow> (('s, 'e) HandshakeError \<Rightarrow> string) \<Rightarrow> usize list \<Rightarrow>
   ('s AsyncToSyncWrapper \<Rightarrow> (('s, 'e) SslStream, ('s, 'e) HandshakeError) result exec) \<Rightarrow> 's \<Rightarrow>
   (('s, 'e) TlsStream, anyhow) result exec option" where
  "await_handshake ssl display cxs start stream =
     (case fst (handshake_await ssl cxs (Hs_Initial start (wrapper_new stream))) of
        None \<Rightarrow> None
      | Some r \<Rightarrow> Some (exec_bind r (\<lambda>res. Returned (map_err (\<lambda>e. anyhow_msg (display e)) res))))"

section \<open>TlsConnector\<close>

definition client_configuration ::
  "('b, 'c, 'g, 'm, 'x, 'k, 's, 'e) openssl_api \<Rightarrow> 'c TlsConnector \<Rightarrow> ('g, anyhow) result" where
  "client_configuration os self =
     result_bind (os_configure os (tc_inner self)) (\<lambda>g0.
       let g = os_verify_hostname os (tc_verify_hostname self) g0 in
       if tc_allow_partial self then os_set_partial_chain os g else Inr g)"

definition TlsConnector_connect ::
  "('b, 'c, 'g, 'm, 'x, 'k, 's, 'e) openssl_api \<Rightarrow> ('s, 'e) ssl_api \<Rightarrow>
   (('s, 'e) HandshakeError \<Rightarrow> string) \<Rightarrow> usize list \<Rightarrow> 'c TlsConnector \<Rightarrow> string \<Rightarrow> 's \<Rightarrow>
   (('s, 'e) TlsStream, anyhow) result exec option" where
  "TlsConnector_connect os ssl display cxs self domain stream =
     (case client_configuration os self of
        Inl e \<Rightarrow> Some (Returned (Inl e))
      | Inr g \<Rightarrow> await_handshake ssl display cxs (os_connect os g domain) stream)"

section \<open>TlsAcceptor\<close>

record 'b TlsAcceptorBuilder =
  ab_inner :: 'b

record 'c TlsAcceptor =
  ta_inner :: 'c

definition TlsAcceptor_builder ::
  "('b, 'c, 'g, 'm, 'x, 'k, 's, 'e) openssl_api \<Rightarrow> ('b TlsAcceptorBuilder, anyhow) result" where
  "TlsAcceptor_builder os = result_bind (os_acceptor_builder os) (\<lambda>inner. Inr \<lparr>ab_inner = inner\<rparr>)"

definition TlsAcceptor_accept ::
  "('b, 'c, 'g, 'm, 'x, 'k, 's, 'e) openssl_api \<Rightarrow> ('s, 'e) ssl_api \<Rightarrow>
   (('s, 'e) HandshakeError \<Rightarrow> string) \<Rightarrow> usize list \<Rightarrow> 'c TlsAcceptor \<Rightarrow> 's \<Rightarrow>
   (('s, 'e) TlsStream, anyhow) result exec option" where
  "TlsAcceptor_accept os ssl display cxs self stream =
     await_handshake ssl display cxs (os_accept os (ta_inner self)) stream"

definition acceptor_with_pem_files ::
  "('b, 'c, 'g, 'm, 'x, 'k, 's, 'e) openssl_api \<Rightarrow> string \<Rightarrow> string \<Rightarrow> 'b TlsAcceptorBuilder \<Rightarrow>
   ('b TlsAcceptorBuilder, anyhow) result" where
  "acceptor_with_pem_files os cert_file key_file self =
     result_bind (os_set_certificate_file os cert_file (ab_inner self)) (\<lambda>b1.
     result_bind (os_set_private_key_file os key_file b1) (\<lambda>b2. Inr (self\<lparr>ab_inner := b2\<rparr>)))"

definition acceptor_with_certificate_and_key ::
  "('b, 'c, 'g, 'm, 'x, 'k, 's, 'e) openssl_api \<Rightarrow> 'x Certificate \<Rightarrow> 'k PrivateKey \<Rightarrow>
   'b TlsAcceptorBuilder \<Rightarrow>
   ('b TlsAcceptorBuilder, anyhow) result" where
  "acceptor_with_certificate_and_key os cert key self =
     result_bind (os_set_certificate os (cert_inner cert) (ab_inner self)) (\<lambda>b1.
     result_bind (os_set_private_key os (private_key key) b1) (\<lambda>b2. Inr (self\<lparr>ab_inner := b2\<rparr>)))"

definition acceptor_with_chain ::
  "('b, 'c, 'g, 'm, 'x, 'k, 's, 'e) openssl_api \<Rightarrow> 'x Certificate list \<Rightarrow> 'b TlsAcceptorBuilder \<Rightarrow>
   ('b TlsAcceptorBuilder, anyhow) result" where
  "acceptor_with_chain os chain self =
     try_fold (\<lambda>cert a. result_bind (os_add_extra_chain_cert os (cert_inner cert) (ab_inner a))
       (\<lambda>b. Inr (a\<lparr>ab_inner := b\<rparr>))) chain self"

definition acceptor_with_ca_file ::
  "('b, 'c, 'g, 'm, 'x, 'k, 's, 'e) openssl_api \<Rightarrow> string \<Rightarrow> 'b TlsAcceptorBuilder \<Rightarrow>
   ('b TlsAcceptorBuilder, anyhow) result" where
  "acceptor_with_ca_file os ca_file self =
     result_bind (os_set_ca_file os ca_file (ab_inner self)) (\<lambda>b. Inr (self\<lparr>ab_inner := b\<rparr>))"

definition acceptor_with_verify_mode ::
  "('b, 'c, 'g, 'm, 'x, 'k, 's, 'e) openssl_api \<Rightarrow> 'm \<Rightarrow> 'b TlsAcceptorBuilder \<Rightarrow>
   'b TlsAcceptorBuilder" where
  "acceptor_with_verify_mode os mode self = self\<lparr>ab_inner := os_set_verify os mode (ab_inner self)\<rparr>"

definition TlsAcceptorBuilder_build ::
  "('b, 'c, 'g, 'm, 'x, 'k, 's, 'e) openssl_api \<Rightarrow> 'b TlsAcceptorBuilder \<Rightarrow> 'c TlsAcceptor" where
  "TlsAcceptorBuilder_build os self = \<lparr>ta_inner = os_build os (ab_inner self)\<rparr>"

section \<open>Sequences of builder calls\<close>

datatype 'x connector_builder_op =
    CB_No_Hostname | CB_No_Certificate | CB_Pem_Files string string | CB_Ca_File string
  | CB_Root "'x Certificate" | CB_Identity IdentityBuilder

definition connector_builder_step ::
  "('x, 'k, 'p) pkcs_api \<Rightarrow> ('b, 'c, 'g, 'm, 'x, 'k, 's, 'e) openssl_api \<Rightarrow>
   'x connector_builder_op \<Rightarrow> 'b TlsConnectorBuilder \<Rightarrow> ('b TlsConnectorBuilder, anyhow) result" where
  "connector_builder_step pk os op b =
     (case op of
        CB_No_Hostname \<Rightarrow> with_hostname_verification_disabled b
      | CB_No_Certificate \<Rightarrow> with_certificate_verification_disabled os b
      | CB_Pem_Files c k \<Rightarrow> connector_with_pem_files os c k b
      | CB_Ca_File f \<Rightarrow> connector_with_ca_file os f b
      | CB_Root c \<Rightarrow> add_root_certificate os c b
      | CB_Identity i \<Rightarrow> with_identity pk os i b)"

text \<open>
  What is relied on of the bindings. A new connector builder verifies the certificate of its peer, the
  mode \<open>NONE\<close> switches that off, and no other call of the builder does (\<open>peer\<close> is the builder's setting);
  a configuration takes it over (\<open>checks_peer\<close>), and has the host name check that was set on it
  (\<open>checks_host\<close>).
\<close>

definition verify_contract ::
  "('b \<Rightarrow> bool) \<Rightarrow> ('g \<Rightarrow> bool) \<Rightarrow> ('g \<Rightarrow> bool) \<Rightarrow> ('b, 'c, 'g, 'm, 'x, 'k, 's, 'e) openssl_api \<Rightarrow> bool" where
  "verify_contract peer checks_peer checks_host os \<longleftrightarrow>
     (\<forall>b. os_connector_builder os = Inr b \<longrightarrow> peer b) \<and>
     (\<forall>b. \<not> peer (os_set_verify os (os_verify_none os) b)) \<and>
     (\<forall>f b b'. os_set_certificate_file os f b = Inr b' \<longrightarrow> peer b' = peer b) \<and>
     (\<forall>f b b'. os_set_private_key_file os f b = Inr b' \<longrightarrow> peer b' = peer b) \<and>
     (\<forall>f b b'. os_set_ca_file os f b = Inr b' \<longrightarrow> peer b' = peer b) \<and>
     (\<forall>x b b'. os_store_add_cert os x b = Inr b' \<longrightarrow> peer b' = peer b) \<and>
     (\<forall>x b b'. os_set_certificate os x b = Inr b' \<longrightarrow> peer b' = peer b) \<and>
     (\<forall>k b b'. os_set_private_key os k b = Inr b' \<longrightarrow> peer b' = peer b) \<and>
     (\<forall>x b b'. os_add_extra_chain_cert os x b = Inr b' \<longrightarrow> peer b' = peer b) \<and>
     (\<forall>b g. os_configure os (os_build os b) = Inr g \<longrightarrow> checks_peer g = peer b) \<and>
     (\<forall>v g. checks_peer (os_verify_hostname os v g) = checks_peer g \<and> checks_host (os_verify_hostname os v g) = v) \<and>
     (\<forall>g g'. os_set_partial_chain os g = Inr g' \<longrightarrow> checks_peer g' = checks_peer g \<and> checks_host g' = checks_host g)"

text \<open>
  A handshake begun with a configuration for a domain stays \<open>pending\<close> for them over its \<open>WouldBlock\<close>s. A
  call that completes it has found what the configuration asks for: with peer verification a trusted
  certificate, and with the host name check too a certificate for the domain.
\<close>

definition peer_checked ::
  "('g \<Rightarrow> bool) \<Rightarrow> ('g \<Rightarrow> bool) \<Rightarrow> ('e \<Rightarrow> bool) \<Rightarrow> (string \<Rightarrow> 'e \<Rightarrow> bool) \<Rightarrow> 'g \<Rightarrow> string \<Rightarrow> 'e \<Rightarrow> bool" where
  "peer_checked checks_peer checks_host trusted named g d e \<longleftrightarrow>
     (checks_peer g \<longrightarrow> trusted e \<and> (checks_host g \<longrightarrow> named d e))"

definition answer_checked ::
  "('e \<Rightarrow> bool) \<Rightarrow> ('e \<Rightarrow> bool) \<Rightarrow> (('s, 'e) SslStream, ('s, 'e) HandshakeError) result exec \<Rightarrow> bool" where
  "answer_checked waiting checked a \<longleftrightarrow> (case a of
      Returned (Inr s) \<Rightarrow> checked (ssl_engine s)
    | Returned (Inl (Hs_WouldBlock s)) \<Rightarrow> waiting (ssl_engine s)
    | _ \<Rightarrow> True)"

definition session_contract ::
  "('g \<Rightarrow> string \<Rightarrow> 'e \<Rightarrow> bool) \<Rightarrow> ('g \<Rightarrow> string \<Rightarrow> 'e \<Rightarrow> bool) \<Rightarrow>
   ('b, 'c, 'g, 'm, 'x, 'k, 's, 'e) openssl_api \<Rightarrow> ('s, 'e) ssl_api \<Rightarrow> bool" where
  "session_contract waiting checked os ssl \<longleftrightarrow>
     (\<forall>g d w. answer_checked (waiting g d) (checked g d) (os_connect os g d w)) \<and>
     (\<forall>g d s. waiting g d (ssl_engine s) \<longrightarrow>
        answer_checked (waiting g d) (checked g d) (ssl_handshake ssl s))"

text \<open>
  For the witnesses: builders that log the calls made on them, over the library that passes
  everything through; a connection's configuration is the log with its two flags.
\<close>

definition log_openssl ::
  "'s async_stream \<Rightarrow> (string list, string list, string list, bool, u8, u8, 's, nat) openssl_api" where
  "log_openssl st = \<lparr>os_connector_builder = Inr [], os_acceptor_builder = Inr [],
     os_set_verify = (\<lambda>m b. b @ [''verify'']), os_verify_none = False,
     os_set_certificate_file = (\<lambda>f b. Inr (b @ [''cert '' @ f])),
     os_set_private_key_file = (\<lambda>f b. Inr (b @ [''key '' @ f])),
     os_set_ca_file = (\<lambda>f b. Inr (b @ [''ca '' @ f])),
     os_store_add_cert = (\<lambda>x b. Inr (b @ [''root''])),
     os_set_certificate = (\<lambda>x b. Inr (b @ [''cert''])), os_set_private_key = (\<lambda>k b. Inr (b @ [''key''])),
     os_add_extra_chain_cert = (\<lambda>x b. Inr (b @ [''chain''])), os_build = (\<lambda>b. b),
     os_configure = Inr, os_verify_hostname = (\<lambda>v g. if v then g @ [''hostname''] else g),
     os_set_partial_chain = (\<lambda>g. Inr (g @ [''partial''])),
     os_connect = (\<lambda>g d. plain_start st), os_accept = (\<lambda>c. plain_start st)\<rparr>"

section \<open>Lemmas\<close>

lemma builder_step_flags:
  assumes "connector_builder_step pk os op b = Inr b'"
  shows "cb_verify_hostname b' = (cb_verify_hostname b \<and> op \<noteq> CB_No_Hostname) \<and>
     cb_allow_partial b' = cb_allow_partial b"
  using assms
  by (cases op) (auto simp: connector_builder_step_def with_hostname_verification_disabled_def
      with_certificate_verification_disabled_def connector_with_pem_files_def
      connector_with_ca_file_def add_root_certificate_def with_identity_def result_bind_Inr_iff)

lemma builder_run_flags:
  assumes "try_fold (connector_builder_step pk os) ops b = Inr b'"
  shows "cb_verify_hostname b' = (cb_verify_hostname b \<and> CB_No_Hostname \<notin> set ops) \<and>
     cb_allow_partial b' = cb_allow_partial b"
  using assms
proof (induction ops arbitrary: b)
  case (Cons op ops)
  then obtain b1 where "connector_builder_step pk os op b = Inr b1"
    "try_fold (connector_builder_step pk os) ops b1 = Inr b'"
    by (auto simp: result_bind_Inr_iff)
  with Cons.IH builder_step_flags show ?case by fastforce
qed simp

lemma await_handshake_ok:
  assumes "ssl_contract st ssl" and "\<forall>cx \<in> set cxs. cx \<noteq> 0"
    and "\<And>w. answers_by_io_calls st w (start w)"
    and "await_handshake ssl display cxs start stream = Some r"
  shows "\<exists>res. r = Returned res \<and> (\<forall>t. res = Inr t \<longrightarrow> wr_context (ssl_io (tls t)) = 0)"
proof -
  let ?fut = "Hs_Initial start (wrapper_new stream)"
  obtain q f where q: "handshake_await ssl cxs ?fut = (q, f)" by fastforce
  have ok: "case (q, f) of
      (None, f) \<Rightarrow> f \<noteq> Hs_Done
    | (Some Panicked, _) \<Rightarrow> False
    | (Some (Returned (Inr t)), f) \<Rightarrow> f = Hs_Done \<and> wr_context (ssl_io (tls t)) = 0
    | (Some (Returned (Inl e)), f) \<Rightarrow> f = Hs_Done"
    using handshake_await_ok [OF assms(1,2), of ?fut] assms(3) q by (simp add: wrapper_new_def)
  with assms(4) q show ?thesis
    by (auto simp: await_handshake_def split: option.splits exec.splits sum.splits)
qed

lemma log_openssl_calls:
  "answers_by_io_calls st w (os_connect (log_openssl st) g d w)"
  "answers_by_io_calls st w (os_accept (log_openssl st) c w)"
  by (simp_all add: log_openssl_def plain_start_calls)

text \<open>
  The configuration of a handshake: host name verification is set to whether
  \<open>with_hostname_verification_disabled\<close> was absent from the builder's calls, and partial chains are
  allowed; an error of making the configuration is returned before any I/O.
\<close>

lemma connect_configured:
  assumes "TlsConnector_builder os = Inr b"
    and "try_fold (connector_builder_step pk os) ops b = Inr b'"
  shows "TlsConnector_connect os ssl display cxs (TlsConnectorBuilder_build os b') domain stream =
     (case result_bind (os_configure os (os_build os (cb_inner b'))) (\<lambda>g.
        os_set_partial_chain os (os_verify_hostname os (CB_No_Hostname \<notin> set ops) g)) of
        Inl e \<Rightarrow> Some (Returned (Inl e))
      | Inr g \<Rightarrow> await_handshake ssl display cxs (os_connect os g domain) stream)"
proof -
  have "cb_verify_hostname b" "cb_allow_partial b"
    using assms(1) by (auto simp: TlsConnector_builder_def result_bind_Inr_iff)
  with builder_run_flags [OF assms(2)] show ?thesis
    by (simp add: TlsConnector_connect_def client_configuration_def TlsConnectorBuilder_build_def)
qed

lemma builder_step_peer:
  assumes "verify_contract peer checks_peer checks_host os" and "connector_builder_step pk os op b = Inr b'"
  shows "peer (cb_inner b') \<longleftrightarrow> peer (cb_inner b) \<and> op \<noteq> CB_No_Certificate"
proof -
  have chain: "peer b2 = peer b1" if "try_fold (os_add_extra_chain_cert os) xs b1 = Inr b2" for xs b1 b2
    using that
  proof (induction xs arbitrary: b1)
    case (Cons x xs)
    then obtain b where "os_add_extra_chain_cert os x b1 = Inr b" "peer b2 = peer b"
      by (auto simp: result_bind_Inr_iff)
    with assms(1) show ?case by (simp add: verify_contract_def)
  qed simp
  show ?thesis
    using assms chain
    by (cases op) (auto simp: connector_builder_step_def with_hostname_verification_disabled_def
      with_certificate_verification_disabled_def connector_with_pem_files_def
      connector_with_ca_file_def add_root_certificate_def with_identity_def result_bind_Inr_iff verify_contract_def)
qed

lemma builder_run_peer:
  assumes "verify_contract peer checks_peer checks_host os"
    and "try_fold (connector_builder_step pk os) ops b = Inr b'"
  shows "peer (cb_inner b') \<longleftrightarrow> peer (cb_inner b) \<and> CB_No_Certificate \<notin> set ops"
  using assms(2)
proof (induction ops arbitrary: b)
  case (Cons op ops)
  then obtain b1 where "connector_builder_step pk os op b = Inr b1"
    "try_fold (connector_builder_step pk os) ops b1 = Inr b'"
    by (auto simp: result_bind_Inr_iff)
  with Cons.IH builder_step_peer [OF assms(1)] show ?case by fastforce
qed simp

lemma handshake_arm_checked:
  assumes "answer_checked waiting checked a"
  shows "case handshake_arm a of
      (Returned Pending, f) \<Rightarrow> \<exists>m. f = Hs_MidHandshake m \<and> waiting (ssl_engine m)
    | (Returned (Ready (Inr t)), f) \<Rightarrow> checked (ssl_engine (tls t))
    | _ \<Rightarrow> True"
  using assms by (auto simp: handshake_arm_def answer_checked_def split: exec.splits sum.splits HandshakeError.splits)

lemma handshake_await_checked:
  assumes "\<And>s. waiting (ssl_engine s) \<Longrightarrow> answer_checked waiting checked (ssl_handshake ssl s)"
    and "case fut of
        Hs_Initial f w \<Rightarrow> \<forall>v. answer_checked waiting checked (f v)
      | Hs_MidHandshake m \<Rightarrow> waiting (ssl_engine m)
      | Hs_Done \<Rightarrow> True"
    and "fst (handshake_await ssl cxs fut) = Some (Returned (Inr t))"
  shows "checked (ssl_engine (tls t))"
  using assms(2,3)
proof (induction cxs arbitrary: fut)
  case (Cons cx cxs)
  obtain r f' where p: "handshake_poll ssl cx fut = (r, f')" by fastforce
  have ok: "case (r, f') of
      (Returned Pending, f) \<Rightarrow> \<exists>m. f = Hs_MidHandshake m \<and> waiting (ssl_engine m)
    | (Returned (Ready (Inr t)), f) \<Rightarrow> checked (ssl_engine (tls t))
    | _ \<Rightarrow> True"
  proof (cases fut)
    case (Hs_Initial f w)
    then have "answer_checked waiting checked (f v)" for v using Cons.prems(1) by simp
    from handshake_arm_checked [OF this, of "w\<lparr>wr_context := cx\<rparr>"] p Hs_Initial show ?thesis
      by (auto simp: handshake_poll_def set_context_def split: if_splits exec.splits)
  next
    case (Hs_MidHandshake m)
    then have "answer_checked waiting checked (ssl_handshake ssl (m\<lparr>ssl_io := v\<rparr>))" for v
      using Cons.prems(1) assms(1) [of "m\<lparr>ssl_io := v\<rparr>"] by simp
    from handshake_arm_checked [OF this, of "(ssl_io m)\<lparr>wr_context := cx\<rparr>"] p Hs_MidHandshake show ?thesis
      by (auto simp: handshake_poll_def set_context_def split: if_splits exec.splits)
  qed (use p in \<open>auto simp: handshake_poll_def\<close>)
  show ?case
  proof (cases "r = Returned Pending")
    case True
    with ok obtain m where "f' = Hs_MidHandshake m" "waiting (ssl_engine m)" by auto
    with Cons.IH [of f'] Cons.prems(2) p True show ?thesis by simp
  next
    case False
    with ok p Cons.prems(2) show ?thesis by (auto split: exec.splits poll.splits sum.splits)
  qed
qed simp

lemma await_handshake_checked:
  assumes "session_contract waiting checked os ssl"
    and "await_handshake ssl display cxs (os_connect os g d) stream = Some (Returned (Inr t))"
  shows "checked g d (ssl_engine (tls t))"
proof (rule handshake_await_checked)
  show "answer_checked (waiting g d) (checked g d) (ssl_handshake ssl s)" if "waiting g d (ssl_engine s)" for s
    using assms(1) that by (auto simp: session_contract_def)
  show "case Hs_Initial (os_connect os g d) (wrapper_new stream) of
        Hs_Initial f w \<Rightarrow> \<forall>v. answer_checked (waiting g d) (checked g d) (f v)
      | Hs_MidHandshake m \<Rightarrow> waiting g d (ssl_engine m)
      | Hs_Done \<Rightarrow> True"
    using assms(1) by (simp add: session_contract_def)
  show "fst (handshake_await ssl cxs (Hs_Initial (os_connect os g d) (wrapper_new stream))) =
      Some (Returned (Inr t))"
    using assms(2)
    by (auto simp: await_handshake_def split: option.splits exec.splits elim!: exec_bind.elims elim: map_err.elims [OF sym])
qed

section \<open>Properties\<close>

text \<open>
  C6. Connecting and accepting never panic, and a stream they return works: over any wake-ups, when
  the handshake ends it ends with an error or with a stream on which every later sequence of polls
  runs without a failed assertion.
\<close>

theorem tls_session_never_panics:
  assumes "ssl_contract st ssl" and "\<forall>cx \<in> set cxs. cx \<noteq> 0"
    and "\<And>g d w. answers_by_io_calls st w (os_connect os g d w)"
    and "\<And>c w. answers_by_io_calls st w (os_accept os c w)"
    and "TlsConnector_connect os ssl display cxs connector domain stream = Some r \<or>
       TlsAcceptor_accept os ssl display cxs acceptor stream = Some r"
    and "\<forall>c \<in> set ops. fst c \<noteq> 0"
  shows "\<exists>res. r = Returned res \<and>
     (\<forall>t. res = Inr t \<longrightarrow> fst (io_run (tls_call ssl) ops t) = Returned ())"
proof -
  have "\<exists>res. r = Returned res \<and> (\<forall>t. res = Inr t \<longrightarrow> wr_context (ssl_io (tls t)) = 0)"
    using assms(5)
  proof
    assume "TlsConnector_connect os ssl display cxs connector domain stream = Some r"
    then show ?thesis
      using await_handshake_ok [OF assms(1,2) assms(3)]
      by (auto simp: TlsConnector_connect_def split: sum.splits)
  next
    assume "TlsAcceptor_accept os ssl display cxs acceptor stream = Some r"
    then show ?thesis
      using await_handshake_ok [OF assms(1,2) assms(4)] by (simp add: TlsAcceptor_accept_def)
  qed
  then show ?thesis using tls_run_ok [OF assms(1) _ assms(6)] by blast
qed

theorem tls_session_never_panics_witness:
  "\<exists>t. TlsAcceptor_accept (log_openssl blinker) (plain_ssl blinker) (\<lambda>_. ''failed'') [8, 16]
       \<lparr>ta_inner = []\<rparr> False = Some (Returned (Inr t)) \<and>
     fst (io_run (tls_call (plain_ssl blinker)) [(8, Tls_Write [1]), (16, Tls_Close)] t) = Returned ()"
proof -
  let ?ops = "[(8, Tls_Write [1]), (16, Tls_Close)] :: (usize \<times> tls_op) list"
  obtain t where t: "TlsAcceptor_accept (log_openssl blinker) (plain_ssl blinker) (\<lambda>_. ''failed'') [8, 16]
      \<lparr>ta_inner = []\<rparr> False = Some (Returned (Inr t))"
    by (simp add: TlsAcceptor_accept_def await_handshake_def log_openssl_def handshake_poll_def
        handshake_arm_def plain_start_def plain_ssl_def blinker_def wrapper_new_def set_context_def
        unset_context_def wrapper_write_def wrapper_with_context_def)
  have "\<forall>cx \<in> set [8, 16]. cx \<noteq> (0 :: usize)" "\<forall>c \<in> set ?ops. fst c \<noteq> 0" by simp_all
  from tls_session_never_panics [OF plain_ssl_contract this(1) log_openssl_calls disjI2 [OF t] this(2)] t
  show ?thesis by blast
qed

end
