(* ===== verification/Tls_Connectors.thy ===== *)
theory Tls_Connectors
  imports Openssl_Tls
begin

text \<open>
  The connectors with TLS: the modules \<open>connector\<close> of \<open>src/src/rust_tls.rs\<close> and
  \<open>src/src/native_tls.rs\<close>, and the connectors of \<open>src/src/openssl/connector.rs\<close>. The Rustls and
  native-tls packages are the record \<open>tls_api\<close> of their connect call, with the display of its errors,
  and of the split of its stream; parsing a server name is a parameter of the Rustls connectors. The
  OpenSSL connectors call \<open>TlsConnector_connect\<close> of \<open>Openssl_Tls\<close>. All six connectors interpret the locale
  of the trait; the lemmas give the domain a connection is verified against, the kinds of errors,
  and the addresses that the Rustls anonymous connector cannot connect to.
\<close>

section \<open>The TLS libraries\<close>

text \<open>
  \<open>'c\<close> is a configured library connector, \<open>'n\<close> the name it verifies, \<open>'x\<close> its stream and \<open>'w\<close>, \<open>'r\<close>
  the halves of it. \<open>tls_display\<close> is the text of an error.
\<close>

record ('s, 't, 'c, 'n, 'x, 'e, 'w, 'r) tls_api =
  tls_connect :: "'c \<Rightarrow> 'n \<Rightarrow> 't \<Rightarrow> 's \<Rightarrow> ('x, 'e) result \<times> 's"
  tls_split :: "'x \<Rightarrow> 'r \<times> 'w"
  tls_display :: "'e \<Rightarrow> string"

text \<open>\<open>split_connection\<close>: the library gives the reading half first.\<close>

definition tls_split_connection ::
  "('s, 't, 'c, 'n, 'x, 'e, 'w, 'r) tls_api \<Rightarrow> 'x \<Rightarrow> 'w \<times> 'r" where
  "tls_split_connection lib x = (let (read, write) = tls_split lib x in (write, read))"

text \<open>The same for the streams of \<open>native_tls\<close>.\<close>

definition native_split_connection ::
  "('s, 't, 'c, 'n, 'x, 'e, 'w, 'r) tls_api \<Rightarrow> 'x \<Rightarrow> 'w \<times> 'r" where
  "native_split_connection lib x = (let (read, write) = tls_split lib x in (write, read))"

text \<open>The stream of the OpenSSL connectors is split by a package too, which is a parameter of theirs.\<close>

definition openssl_split_connection :: "('x \<Rightarrow> 'r \<times> 'w) \<Rightarrow> 'x \<Rightarrow> 'w \<times> 'r" where
  "openssl_split_connection split x = (let (read, write) = split x in (write, read))"

section \<open>Rustls\<close>

record 'c RustlsAnonymousConnector =
  ra_inner :: 'c

definition rustls_anonymous_from :: "'c \<Rightarrow> 'c RustlsAnonymousConnector" where
  "rustls_anonymous_from connector = \<lparr>ra_inner = connector\<rparr>"

definition rustls_anonymous_connect ::
  "('s, 't, 'k) net_api \<Rightarrow> ('s, 't, 'c, 'n, 'x, io_error, 'w, 'r) tls_api \<Rightarrow>
   (string \<Rightarrow> ('n, string) result) \<Rightarrow> 'c RustlsAnonymousConnector \<Rightarrow> string \<Rightarrow> 's \<Rightarrow>
   ('w \<times> 'r \<times> RawFd, io_error) result \<times> 's" where
  "rustls_anonymous_connect net lib try_from self domain s =
     (case tcp_stream net domain s of
        (Inl e, s1) \<Rightarrow> (Inl e, s1)
      | (Inr t, s1) \<Rightarrow>
          (let fd = as_connection_fd net t in
           case map_err (\<lambda>err. IoError InvalidInput (''Invalid Dns Name: '' @ err)) (try_from domain) of
             Inl e \<Rightarrow> (Inl e, s1)
           | Inr server_name \<Rightarrow>
               (case tls_connect lib (ra_inner self) server_name t s1 of
                  (Inl e, s2) \<Rightarrow> (Inl e, s2)
                | (Inr x, s2) \<Rightarrow>
                    (let (write, read) = tls_split_connection lib x in (Inr (write, read, fd), s2)))))"

definition rustls_anonymous_new_domain ::
  "'c RustlsAnonymousConnector \<Rightarrow> string \<Rightarrow> 'c RustlsAnonymousConnector" where
  "rustls_anonymous_new_domain self d = self"

definition rustls_anonymous_domain :: "'c RustlsAnonymousConnector \<Rightarrow> string" where
  "rustls_anonymous_domain self = ''localhost''"

definition rustls_anonymous_clone_box ::
  "'c RustlsAnonymousConnector \<Rightarrow> 'c RustlsAnonymousConnector" where
  "rustls_anonymous_clone_box self = self"

record 'c RustlsDomainConnector =
  rd_domain :: string
  rd_connector :: 'c

definition rustls_domain_new :: "'c \<Rightarrow> string \<Rightarrow> 'c RustlsDomainConnector" where
  "rustls_domain_new connector d = \<lparr>rd_domain = d, rd_connector = connector\<rparr>"

definition rustls_domain_connect ::
  "('s, 't, 'k) net_api \<Rightarrow> ('s, 't, 'c, 'n, 'x, io_error, 'w, 'r) tls_api \<Rightarrow>
   (string \<Rightarrow> ('n, string) result) \<Rightarrow> 'c RustlsDomainConnector \<Rightarrow> string \<Rightarrow> 's \<Rightarrow>
   ('w \<times> 'r \<times> RawFd, io_error) result \<times> 's" where
  "rustls_domain_connect net lib try_from self addr s =
     (case tcp_stream net addr s of
        (Inl e, s1) \<Rightarrow> (Inl e, s1)
      | (Inr t, s1) \<Rightarrow>
          (let fd = as_connection_fd net t in
           case map_err (\<lambda>err. IoError InvalidInput (''Invalid Dns Name: '' @ err))
               (try_from (rd_domain self)) of
             Inl e \<Rightarrow> (Inl e, s1)
           | Inr server_name \<Rightarrow>
               (case tls_connect lib (rd_connector self) server_name t s1 of
                  (Inl e, s2) \<Rightarrow> (Inl e, s2)
                | (Inr x, s2) \<Rightarrow>
                    (let (write, read) = tls_split_connection lib x in (Inr (write, read, fd), s2)))))"

definition rustls_domain_new_domain ::
  "'c RustlsDomainConnector \<Rightarrow> string \<Rightarrow> 'c RustlsDomainConnector" where
  "rustls_domain_new_domain self d = self\<lparr>rd_domain := d\<rparr>"

definition rustls_domain_domain :: "'c RustlsDomainConnector \<Rightarrow> string" where
  "rustls_domain_domain self = rd_domain self"

definition rustls_domain_clone_box :: "'c RustlsDomainConnector \<Rightarrow> 'c RustlsDomainConnector" where
  "rustls_domain_clone_box self = self"

section \<open>Native TLS\<close>

text \<open>The error of a failed TLS handshake in the native connectors.\<close>

definition refused :: "('s, 't, 'c, 'n, 'x, 'e, 'w, 'r) tls_api \<Rightarrow> 'e \<Rightarrow> io_error" where
  "refused lib e = IoError ConnectionRefused (''failed to connect: '' @ tls_display lib e)"

record 'c NativeAnonymousConnector =
  na_inner :: 'c

definition native_anonymous_from :: "'c \<Rightarrow> 'c NativeAnonymousConnector" where
  "native_anonymous_from connector = \<lparr>na_inner = connector\<rparr>"

definition native_anonymous_connect ::
  "('s, 't, 'k) net_api \<Rightarrow> ('s, 't, 'c, string, 'x, 'e, 'w, 'r) tls_api \<Rightarrow> 'c NativeAnonymousConnector \<Rightarrow>
   string \<Rightarrow> 's \<Rightarrow> ('w \<times> 'r \<times> RawFd, io_error) result \<times> 's" where
  "native_anonymous_connect net lib self domain s =
     (case tcp_stream net domain s of
        (Inl e, s1) \<Rightarrow> (Inl e, s1)
      | (Inr t, s1) \<Rightarrow>
          (let fd = as_connection_fd net t; (res, s2) = tls_connect lib (na_inner self) domain t s1 in
           case map_err (refused lib) res of
             Inl e \<Rightarrow> (Inl e, s2)
           | Inr x \<Rightarrow> (let (write, read) = native_split_connection lib x in (Inr (write, read, fd), s2))))"

definition native_anonymous_new_domain ::
  "'c NativeAnonymousConnector \<Rightarrow> string \<Rightarrow> 'c NativeAnonymousConnector" where
  "native_anonymous_new_domain self d = self"

definition native_anonymous_domain :: "'c NativeAnonymousConnector \<Rightarrow> string" where
  "native_anonymous_domain self = ''localhost''"

definition native_anonymous_clone_box ::
  "'c NativeAnonymousConnector \<Rightarrow> 'c NativeAnonymousConnector" where
  "native_anonymous_clone_box self = self"

record 'c NativeDomainConnector =
  nd_domain :: string
  nd_connector :: 'c

definition native_domain_new :: "'c \<Rightarrow> string \<Rightarrow> 'c NativeDomainConnector" where
  "native_domain_new connector d = \<lparr>nd_domain = d, nd_connector = connector\<rparr>"

definition native_domain_connector :: "'c NativeDomainConnector \<Rightarrow> 'c" where
  "native_domain_connector self = nd_connector self"

definition native_domain_connect ::
  "('s, 't, 'k) net_api \<Rightarrow> ('s, 't, 'c, string, 'x, 'e, 'w, 'r) tls_api \<Rightarrow> 'c NativeDomainConnector \<Rightarrow>
   string \<Rightarrow> 's \<Rightarrow> ('w \<times> 'r \<times> RawFd, io_error) result \<times> 's" where
  "native_domain_connect net lib self addr s =
     (case stream_with_opts net addr
         (Some \<lparr>nodelay = Some True, keepalive = Some KeepaliveOpts_default\<rparr>) s of
        (Inl e, s1) \<Rightarrow> (Inl e, s1)
      | (Inr t, s1) \<Rightarrow>
          (let fd = as_connection_fd net t;
               (res, s2) = tls_connect lib (nd_connector self) (nd_domain self) t s1 in
           case map_err (refused lib) res of
             Inl e \<Rightarrow> (Inl e, s2)
           | Inr x \<Rightarrow> (let (write, read) = native_split_connection lib x in (Inr (write, read, fd), s2))))"

definition native_domain_new_domain ::
  "'c NativeDomainConnector \<Rightarrow> string \<Rightarrow> 'c NativeDomainConnector" where
  "native_domain_new_domain self d = self\<lparr>nd_domain := d\<rparr>"

definition native_domain_domain :: "'c NativeDomainConnector \<Rightarrow> string" where
  "native_domain_domain self = nd_domain self"

definition native_domain_clone_box :: "'c NativeDomainConnector \<Rightarrow> 'c NativeDomainConnector" where
  "native_domain_clone_box self = self"

section \<open>OpenSSL\<close>

record 'c OpensslAnonymousConnector =
  oa_inner :: "'c TlsConnector"

definition openssl_anonymous_from :: "'c TlsConnector \<Rightarrow> 'c OpensslAnonymousConnector" where
  "openssl_anonymous_from connector = \<lparr>oa_inner = connector\<rparr>"

text \<open>
  Both connectors end in the same way: the awaited handshake, its error with the kind
  \<open>ConnectionRefused\<close>, and the split of the stream. \<open>None\<close> is a handshake that is still pending.
\<close>

definition openssl_finish ::
  "('x \<Rightarrow> 'r \<times> 'w) \<Rightarrow> RawFd \<Rightarrow> ('x, anyhow) result exec option \<Rightarrow> 's \<Rightarrow>
   (('w \<times> 'r \<times> RawFd, io_error) result exec \<times> 's) option" where
  "openssl_finish split fd awaited s = (case awaited of
      None \<Rightarrow> None
    | Some Panicked \<Rightarrow> Some (Panicked, s)
    | Some (Returned (Inl e)) \<Rightarrow>
        Some (Returned (Inl (IoError ConnectionRefused (''failed to connect: '' @ anyhow_display e))), s)
    | Some (Returned (Inr x)) \<Rightarrow>
        (let (write, read) = openssl_split_connection split x in Some (Returned (Inr (write, read, fd)), s)))"

definition openssl_anonymous_connect ::
  "('s, 't, 'k) net_api \<Rightarrow> ('b, 'c, 'g, 'm, 'x, 'p, 't, 'e) openssl_api \<Rightarrow> ('t, 'e) ssl_api \<Rightarrow>
   (('t, 'e) HandshakeError \<Rightarrow> string) \<Rightarrow> usize list \<Rightarrow> (('t, 'e) TlsStream \<Rightarrow> 'r \<times> 'w) \<Rightarrow>
   'c OpensslAnonymousConnector \<Rightarrow> string \<Rightarrow> 's \<Rightarrow>
   (('w \<times> 'r \<times> RawFd, io_error) result exec \<times> 's) option" where
  "openssl_anonymous_connect net os ssl display cxs split self domain s =
     (case stream_with_opts net domain
         (Some \<lparr>nodelay = Some True, keepalive = Some KeepaliveOpts_default\<rparr>) s of
        (Inl e, s1) \<Rightarrow> Some (Returned (Inl e), s1)
      | (Inr t, s1) \<Rightarrow>
          openssl_finish split (as_connection_fd net t)
            (TlsConnector_connect os ssl display cxs (oa_inner self) domain t) s1)"

definition openssl_anonymous_new_domain ::
  "'c OpensslAnonymousConnector \<Rightarrow> string \<Rightarrow> 'c OpensslAnonymousConnector" where
  "openssl_anonymous_new_domain self d = self"

definition openssl_anonymous_domain :: "'c OpensslAnonymousConnector \<Rightarrow> string" where
  "openssl_anonymous_domain self = ''localhost''"

definition openssl_anonymous_clone_box ::
  "'c OpensslAnonymousConnector \<Rightarrow> 'c OpensslAnonymousConnector" where
  "openssl_anonymous_clone_box self = self"

record 'c OpensslDomainConnector =
  od_domain :: string
  od_connector :: "'c TlsConnector"

definition openssl_domain_new :: "'c TlsConnector \<Rightarrow> string \<Rightarrow> 'c OpensslDomainConnector" where
  "openssl_domain_new connector d = \<lparr>od_domain = d, od_connector = connector\<rparr>"

definition openssl_domain_connect ::
  "('s, 't, 'k) net_api \<Rightarrow> ('b, 'c, 'g, 'm, 'x, 'p, 't, 'e) openssl_api \<Rightarrow> ('t, 'e) ssl_api \<Rightarrow>
   (('t, 'e) HandshakeError \<Rightarrow> string) \<Rightarrow> usize list \<Rightarrow> (('t, 'e) TlsStream \<Rightarrow> 'r \<times> 'w) \<Rightarrow>
   'c OpensslDomainConnector \<Rightarrow> string \<Rightarrow> 's \<Rightarrow>
   (('w \<times> 'r \<times> RawFd, io_error) result exec \<times> 's) option" where
  "openssl_domain_connect net os ssl display cxs split self addr s =
     (case tcp_stream net addr s of
        (Inl e, s1) \<Rightarrow> Some (Returned (Inl e), s1)
      | (Inr t, s1) \<Rightarrow>
          openssl_finish split (as_connection_fd net t)
            (TlsConnector_connect os ssl display cxs (od_connector self) (od_domain self) t) s1)"

definition openssl_domain_new_domain ::
  "'c OpensslDomainConnector \<Rightarrow> string \<Rightarrow> 'c OpensslDomainConnector" where
  "openssl_domain_new_domain self d = self\<lparr>od_domain := d\<rparr>"

definition openssl_domain_domain :: "'c OpensslDomainConnector \<Rightarrow> string" where
  "openssl_domain_domain self = od_domain self"

definition openssl_domain_clone_box :: "'c OpensslDomainConnector \<Rightarrow> 'c OpensslDomainConnector" where
  "openssl_domain_clone_box self = self"

section \<open>Addresses and server names\<close>

text \<open>
  What the textual forms have in common with an IPv6 address: two colons at least, and nothing but
  hexadecimal digits, colons and dots.
\<close>

definition ipv6_text :: "string \<Rightarrow> bool" where
  "ipv6_text a \<longleftrightarrow> 2 \<le> count_list a CHR '':'' \<and> set a \<subseteq> set ''0123456789abcdefABCDEF:.''"

text \<open>
  For the witnesses: a network that needs a colon in an address, names with a colon only for IPv6
  addresses, and a library that returns the name it was asked to verify.
\<close>

definition echo_tls :: "(toy_net_state, nat, nat, string, nat \<times> string,
    io_error, string, string) tls_api" where
  "echo_tls = \<lparr>tls_connect = (\<lambda>k n t s. (Inr (t, n), s)),
     tls_split = (\<lambda>(t, n). (''r'' @ n, ''w'' @ n)), tls_display = message\<rparr>"

definition strict_net :: "(toy_net_state, nat, KeepaliveOpts) net_api" where
  "strict_net = toy_net\<lparr>tcp_connect := (\<lambda>addr s.
     if CHR '':'' \<in> set addr then tcp_connect toy_net addr s
     else (Inl (IoError InvalidInput ''address''), s))\<rparr>"

definition strict_name :: "string \<Rightarrow> (string, string) result" where
  "strict_name n = (if CHR '':'' \<in> set n \<longrightarrow> ipv6_text n then Inr n else Inl ''not a name'')"

section \<open>The trait, interpreted\<close>

lemmas rustls_defs = rustls_anonymous_new_domain_def rustls_anonymous_clone_box_def
  rustls_domain_new_domain_def rustls_domain_clone_box_def rustls_domain_domain_def
lemmas native_defs = native_anonymous_new_domain_def native_anonymous_clone_box_def
  native_domain_new_domain_def native_domain_clone_box_def native_domain_domain_def
lemmas openssl_defs = openssl_anonymous_new_domain_def openssl_anonymous_clone_box_def
  openssl_domain_new_domain_def openssl_domain_clone_box_def openssl_domain_domain_def

interpretation rustls_anonymous:
  fixed_domain_connector "rustls_anonymous_connect net lib try_from" rustls_anonymous_new_domain
    rustls_anonymous_domain rustls_anonymous_clone_box for net lib try_from
  by unfold_locales (simp_all add: rustls_defs)

interpretation native_anonymous:
  fixed_domain_connector "native_anonymous_connect net lib" native_anonymous_new_domain
    native_anonymous_domain native_anonymous_clone_box for net lib
  by unfold_locales (simp_all add: native_defs)

interpretation openssl_anonymous:
  fixed_domain_connector "openssl_anonymous_connect net os ssl display cxs split" openssl_anonymous_new_domain
    openssl_anonymous_domain openssl_anonymous_clone_box for net os ssl display cxs split
  by unfold_locales (simp_all add: openssl_defs)

interpretation rustls_domain:
  stored_domain_connector "rustls_domain_connect net lib try_from" rustls_domain_new_domain
    rustls_domain_domain rustls_domain_clone_box for net lib try_from
  by unfold_locales (simp_all add: rustls_defs)

interpretation native_domain:
  stored_domain_connector "native_domain_connect net lib" native_domain_new_domain
    native_domain_domain native_domain_clone_box for net lib
  by unfold_locales (simp_all add: native_defs)

interpretation openssl_domain:
  stored_domain_connector "openssl_domain_connect net os ssl display cxs split" openssl_domain_new_domain
    openssl_domain_domain openssl_domain_clone_box for net os ssl display cxs split
  by unfold_locales (simp_all add: openssl_defs)

section \<open>Lemmas\<close>

lemma host_port_not_ipv6:
  "CHR '':'' \<notin> set host \<Longrightarrow> CHR '':'' \<notin> set port \<Longrightarrow> \<not> ipv6_text (host @ '':'' @ port)"
  by (simp add: ipv6_text_def count_list_append count_list_0_iff)

lemma bracketed_not_ipv6: "\<not> ipv6_text (''['' @ rest)"
  by (simp add: ipv6_text_def)

lemma tcp_stream_connects:
  assumes "tcp_stream net addr s = (Inr t, s')"
  shows "\<exists>s1. tcp_connect net addr s = (Inr t, s1)"
  using assms by (auto simp: tcp_stream_def stream_with_opts_def split: prod.splits sum.splits)

lemma strict_net_addresses: "tcp_connect strict_net addr s = (Inr t, s') \<Longrightarrow> CHR '':'' \<in> set addr"
  by (simp add: strict_net_def split: if_splits)

lemma strict_name_names: "strict_name n = Inr x \<Longrightarrow> CHR '':'' \<in> set n \<Longrightarrow> ipv6_text n"
  by (simp add: strict_name_def split: if_splits)

lemma anonymous_connectors_ignore_new_domain:
  "default_domain (connector_run default_new_domain default_clone_box ops c0) = ''localhost'' \<and>
   default_connect net0 (connector_run default_new_domain default_clone_box ops c0) =
     default_connect net0 c0 \<and>
   rustls_anonymous_domain (connector_run rustls_anonymous_new_domain rustls_anonymous_clone_box ops c1)
     = ''localhost'' \<and>
   rustls_anonymous_connect net1 lib1 try_from (connector_run rustls_anonymous_new_domain
       rustls_anonymous_clone_box ops c1) = rustls_anonymous_connect net1 lib1 try_from c1 \<and>
   native_anonymous_domain (connector_run native_anonymous_new_domain native_anonymous_clone_box ops c2)
     = ''localhost'' \<and>
   native_anonymous_connect net2 lib2 (connector_run native_anonymous_new_domain
       native_anonymous_clone_box ops c2) = native_anonymous_connect net2 lib2 c2 \<and>
   openssl_anonymous_domain (connector_run openssl_anonymous_new_domain openssl_anonymous_clone_box
       ops c3) = ''localhost'' \<and>
   openssl_anonymous_connect net3 os ssl display cxs split (connector_run openssl_anonymous_new_domain
       openssl_anonymous_clone_box ops c3) = openssl_anonymous_connect net3 os ssl display cxs split c3"
  by (simp add: default_connector.run_connect default_domain_def rustls_anonymous.run_connect
      rustls_anonymous_domain_def native_anonymous.run_connect native_anonymous_domain_def
      openssl_anonymous.run_connect openssl_anonymous_domain_def)

lemma case_map_err:
  "(case map_err f r of Inl e \<Rightarrow> a e | Inr x \<Rightarrow> b x) = (case r of Inl e \<Rightarrow> a (f e) | Inr x \<Rightarrow> b x)"
  by (cases r) simp_all

text \<open>
  What connecting gives, for the three domain connectors: success is exactly a TCP connection to the
  address, a TLS session over it for the connector's own domain and configuration, and the halves of
  that session with the descriptor of the connection.
\<close>

lemma rustls_domain_connect_ok:
  "rustls_domain_connect net lib try_from (rustls_domain_new k d) addr s = (Inr (w, r, fd), s') \<longleftrightarrow>
     (\<exists>t s1 name x. tcp_stream net addr s = (Inr t, s1) \<and> try_from d = Inr name \<and>
        tls_connect lib k name t s1 = (Inr x, s') \<and> tls_split lib x = (r, w) \<and> fd = as_raw_fd net t)"
  by (auto simp: rustls_domain_connect_def rustls_domain_new_def tls_split_connection_def as_connection_fd_def
      Let_def case_map_err split: prod.splits sum.splits)

lemma native_domain_connect_ok:
  "native_domain_connect net lib (native_domain_new k d) addr s = (Inr (w, r, fd), s') \<longleftrightarrow>
     (\<exists>t s1 x. stream_with_opts net addr
          (Some \<lparr>nodelay = Some True, keepalive = Some KeepaliveOpts_default\<rparr>) s = (Inr t, s1) \<and>
        tls_connect lib k d t s1 = (Inr x, s') \<and> tls_split lib x = (r, w) \<and> fd = as_raw_fd net t)"
  by (auto simp: native_domain_connect_def native_domain_new_def native_split_connection_def as_connection_fd_def
      Let_def case_map_err split: prod.splits sum.splits)

lemma openssl_domain_connect_ok:
  "openssl_domain_connect net os ssl display cxs split (openssl_domain_new k d) addr s =
       Some (Returned (Inr (w, r, fd)), s') \<longleftrightarrow>
     (\<exists>t x. tcp_stream net addr s = (Inr t, s') \<and>
        TlsConnector_connect os ssl display cxs k d t = Some (Returned (Inr x)) \<and>
        split x = (r, w) \<and> fd = as_raw_fd net t)"
  by (auto simp: openssl_domain_connect_def openssl_domain_new_def openssl_finish_def openssl_split_connection_def
      as_connection_fd_def Let_def split: prod.splits sum.splits option.splits exec.splits)

section \<open>Properties\<close>

text \<open>
  C33. A domain connector verifies its peer against the domain it was given last, whatever the
  address: after any sequence of \<open>new_domain\<close> and clones, each of the three domain connectors reports
  that domain, and it returns a connection exactly when the TCP connection to the address is made and
  the TLS library, with the configuration the connector was made with, accepts a session over it for
  that domain; the halves returned are those of the session and the descriptor is that of the
  TCP connection.
\<close>

theorem domain_connectors_follow_new_domain:
  "rustls_domain_domain (connector_run rustls_domain_new_domain rustls_domain_clone_box ops
       (rustls_domain_new k d)) = last_domain d ops \<and>
   (rustls_domain_connect net1 lib1 try_from (connector_run rustls_domain_new_domain
       rustls_domain_clone_box ops (rustls_domain_new k d)) addr s1 = (Inr (w1, r1, fd1), t1) \<longleftrightarrow>
     (\<exists>t z name x. tcp_stream net1 addr s1 = (Inr t, z) \<and> try_from (last_domain d ops) = Inr name \<and>
        tls_connect lib1 k name t z = (Inr x, t1) \<and> tls_split lib1 x = (r1, w1) \<and> fd1 = as_raw_fd net1 t)) \<and>
   native_domain_domain (connector_run native_domain_new_domain native_domain_clone_box ops
       (native_domain_new k d)) = last_domain d ops \<and>
   (native_domain_connect net2 lib2 (connector_run native_domain_new_domain native_domain_clone_box ops
       (native_domain_new k d)) addr s2 = (Inr (w2, r2, fd2), t2) \<longleftrightarrow>
     (\<exists>t z x. stream_with_opts net2 addr
          (Some \<lparr>nodelay = Some True, keepalive = Some KeepaliveOpts_default\<rparr>) s2 = (Inr t, z) \<and>
        tls_connect lib2 k (last_domain d ops) t z = (Inr x, t2) \<and> tls_split lib2 x = (r2, w2) \<and>
        fd2 = as_raw_fd net2 t)) \<and>
   openssl_domain_domain (connector_run openssl_domain_new_domain openssl_domain_clone_box ops
       (openssl_domain_new c d)) = last_domain d ops \<and>
   (openssl_domain_connect net3 os ssl display cxs split (connector_run openssl_domain_new_domain
       openssl_domain_clone_box ops (openssl_domain_new c d)) addr s3 = Some (Returned (Inr (w3, r3, fd3)), t3) \<longleftrightarrow>
     (\<exists>t x. tcp_stream net3 addr s3 = (Inr t, t3) \<and>
        TlsConnector_connect os ssl display cxs c (last_domain d ops) t = Some (Returned (Inr x)) \<and>
        split x = (r3, w3) \<and> fd3 = as_raw_fd net3 t))"
proof -
  have runs: "connector_run rustls_domain_new_domain rustls_domain_clone_box ops (rustls_domain_new k d) =
      rustls_domain_new k (last_domain d ops)"
    "connector_run native_domain_new_domain native_domain_clone_box ops (native_domain_new k d) =
      native_domain_new k (last_domain d ops)"
    "connector_run openssl_domain_new_domain openssl_domain_clone_box ops (openssl_domain_new c d) =
      openssl_domain_new c (last_domain d ops)"
    by (simp_all add: rustls_domain.run_is_new_domain native_domain.run_is_new_domain
        openssl_domain.run_is_new_domain rustls_defs native_defs openssl_defs rustls_domain_new_def
        native_domain_new_def openssl_domain_new_def)
  show ?thesis
    unfolding runs rustls_domain_connect_ok native_domain_connect_ok openssl_domain_connect_ok
    by (simp add: rustls_defs native_defs openssl_defs rustls_domain_new_def native_domain_new_def
        openssl_domain_new_def)
qed

text \<open>
  C39. The Rustls anonymous connector uses its one argument both as the socket address and as the
  server name. Where an address needs a colon before its port and a server name has a colon only when
  it is an IPv6 address, it can connect only to a text that looks like a bare IPv6 address: every call
  with \<open>name:port\<close>, \<open>ipv4:port\<close> or \<open>[ipv6]:port\<close> fails, with \<open>InvalidInput\<close> after the TCP connection has
  been made.
\<close>

theorem rustls_anonymous_needs_ipv6_text:
  assumes "\<And>a s t s'. tcp_connect net a s = (Inr t, s') \<Longrightarrow> CHR '':'' \<in> set a"
    and "\<And>n x. try_from n = Inr x \<Longrightarrow> CHR '':'' \<in> set n \<Longrightarrow> ipv6_text n"
    and "(\<exists>host port. addr = host @ '':'' @ port \<and> CHR '':'' \<notin> set host \<and> CHR '':'' \<notin> set port) \<or>
      (\<exists>rest. addr = ''['' @ rest) \<or> \<not> ipv6_text addr"
  shows "\<exists>e s'. rustls_anonymous_connect net lib try_from c addr s = (Inl e, s') \<and>
     ((\<exists>t. tcp_stream net addr s = (Inr t, s')) \<longrightarrow> kind e = InvalidInput)"
proof -
  have no: "\<not> ipv6_text addr" using assms(3) host_port_not_ipv6 bracketed_not_ipv6 by blast
  obtain q s1 where q: "tcp_stream net addr s = (q, s1)" by fastforce
  show ?thesis
  proof (cases q)
    case (Inl e)
    with q show ?thesis by (simp add: rustls_anonymous_connect_def)
  next
    case (Inr t)
    with q tcp_stream_connects assms(1) have "CHR '':'' \<in> set addr" by metis
    with assms(2) [of addr] no obtain err where "try_from addr = Inl err" by (cases "try_from addr") auto
    with q Inr show ?thesis by (simp add: rustls_anonymous_connect_def)
  qed
qed

theorem rustls_anonymous_needs_ipv6_text_witness:
  "\<exists>e s'. rustls_anonymous_connect strict_net echo_tls strict_name (rustls_anonymous_from 0) ''host:443''
       (\<lambda>_. False, \<lambda>_. None) = (Inl e, s') \<and> kind e = InvalidInput"
proof -
  let ?s = "(\<lambda>_. False, \<lambda>_. None)"
  have form: "(\<exists>host port. ''host:443'' = host @ '':'' @ port \<and> CHR '':'' \<notin> set host \<and> CHR '':'' \<notin> set port) \<or>
      (\<exists>rest. ''host:443'' = ''['' @ rest) \<or> \<not> ipv6_text ''host:443''"
    by (intro disjI1 exI [of _ "''host''"] exI [of _ "''443''"]) simp
  have tcp: "\<exists>t. tcp_stream strict_net ''host:443'' ?s = (Inr t, snd (tcp_stream strict_net ''host:443'' ?s))"
    by (simp add: tcp_stream_def stream_with_opts_def strict_net_def toy_net_def SocketOpts_default_def)
  have "\<exists>e s'. rustls_anonymous_connect strict_net echo_tls strict_name (rustls_anonymous_from 0) ''host:443'' ?s
      = (Inl e, s') \<and> ((\<exists>t. tcp_stream strict_net ''host:443'' ?s = (Inr t, s')) \<longrightarrow> kind e = InvalidInput)"
    by (rule rustls_anonymous_needs_ipv6_text [OF _ _ form])
      (erule strict_net_addresses strict_name_names, assumption?)+
  then obtain e s' where r: "rustls_anonymous_connect strict_net echo_tls strict_name
      (rustls_anonymous_from 0) ''host:443'' ?s = (Inl e, s')"
    "(\<exists>t. tcp_stream strict_net ''host:443'' ?s = (Inr t, s')) \<longrightarrow> kind e = InvalidInput"
    by blast
  moreover from r(1) have "s' = snd (tcp_stream strict_net ''host:443'' ?s)"
    by (auto simp: rustls_anonymous_connect_def strict_name_def ipv6_text_def split: prod.splits sum.splits)
  ultimately show ?thesis using tcp by blast
qed

text \<open>A bare IPv6 address with a port is such a text: the port is then read as a part of the name.\<close>

lemma rustls_anonymous_ipv6_connects:
  "\<exists>s'. rustls_anonymous_connect strict_net echo_tls strict_name (rustls_anonymous_from 0) ''::1:443''
     (\<lambda>_. False, \<lambda>_. None) = (Inr (''w::1:443'', ''r::1:443'', as_connection_fd strict_net 7), s')"
  by (simp add: rustls_anonymous_connect_def tcp_stream_def stream_with_opts_def strict_net_def toy_net_def
      SocketOpts_default_def strict_name_def ipv6_text_def echo_tls_def tls_split_connection_def
      rustls_anonymous_from_def as_connection_fd_def)

end
