(* ===== verification/Rust_Tls.thy ===== *)
theory Rust_Tls
  imports Rust_Prelude
begin

text \<open>
  \<open>src/src/rust_tls.rs\<close>, modules \<open>cert\<close> and \<open>builder\<close>: loading certificates and keys from PEM readers,
  and the typed builders of connectors and acceptors. The PEM parser (\<open>rustls_pemfile\<close>), the
  certificate store and the configuration builders of Rustls are parameters; the reading loop is a
  \<open>partial_function\<close>, shown to return on every reader that holds finitely many sections. The lemmas
  say which keys are returned, when loading panics, and that paths and byte buffers are treated
  alike.
\<close>

section \<open>PEM items and keys\<close>

datatype PrivateKeyDer = Key_Pkcs1 "u8 list" | Key_Sec1 "u8 list" | Key_Pkcs8 "u8 list"

text \<open>\<open>rustls_pemfile::Item\<close>; the kinds that the sources do not name are one constructor.\<close>

datatype pem_item =
    Item_X509Certificate "u8 list" | Item_Pkcs1Key "u8 list" | Item_Pkcs8Key "u8 list"
  | Item_Sec1Key "u8 list" | Item_Other "u8 list"

text \<open>
  The file system and the parser: opening a file, a reader over bytes in memory, \<open>read_one\<close>, and the
  iterator \<open>certs\<close> as the list of what it yields.
\<close>

record 'rd pem_api =
  pf_open :: "string \<Rightarrow> ('rd, io_error) result"
  pf_cursor :: "u8 list \<Rightarrow> 'rd"
  pf_read_one :: "'rd \<Rightarrow> (pem_item option, io_error) result \<times> 'rd"
  pf_certs :: "'rd \<Rightarrow> (u8 list, io_error) result list"

section \<open>Module cert\<close>

definition load_certs_from_reader :: "'rd pem_api \<Rightarrow> 'rd \<Rightarrow> (u8 list list, anyhow) result" where
  "load_certs_from_reader pem rd =
     collect_results (map (\<lambda>r. with_context_msg ''invalid cert'' (map_err anyhow_io r)) (pf_certs pem rd))"

definition load_certs :: "'rd pem_api \<Rightarrow> string \<Rightarrow> (u8 list list, anyhow) result" where
  "load_certs pem path =
     result_bind (map_err anyhow_io (pf_open pem path)) (load_certs_from_reader pem)"

text \<open>
  The loop over \<open>iter::from_fn(|| read_one(rd).transpose())\<close>: it ends at \<open>Ok(None)\<close>, an error is
  unwrapped and panics, keys are pushed and other items skipped.
\<close>

partial_function (option) load_keys_loop ::
  "('rd \<Rightarrow> (pem_item option, io_error) result \<times> 'rd) \<Rightarrow> PrivateKeyDer list \<Rightarrow> 'rd \<Rightarrow>
   PrivateKeyDer list exec option" where
  "load_keys_loop read_one keys rd =
     (case read_one rd of
        (Inr None, rd') \<Rightarrow> Some (Returned keys)
      | (Inl e, rd') \<Rightarrow> Some Panicked
      | (Inr (Some item), rd') \<Rightarrow>
          load_keys_loop read_one
            (case item of
               Item_Pkcs1Key k \<Rightarrow> keys @ [Key_Pkcs1 k]
             | Item_Pkcs8Key k \<Rightarrow> keys @ [Key_Pkcs8 k]
             | Item_Sec1Key k \<Rightarrow> keys @ [Key_Sec1 k]
             | _ \<Rightarrow> keys) rd')"

definition load_keys_from_reader ::
  "'rd pem_api \<Rightarrow> 'rd \<Rightarrow> (PrivateKeyDer list, anyhow) result exec option" where
  "load_keys_from_reader pem rd =
     (case load_keys_loop (pf_read_one pem) [] rd of
        None \<Rightarrow> None
      | Some r \<Rightarrow> Some (exec_bind r (\<lambda>keys. Returned (Inr keys))))"

text \<open>A step that fails before the reader is used returns its error.\<close>

definition open_then ::
  "'rd pem_api \<Rightarrow> string \<Rightarrow> ('rd \<Rightarrow> ('a, anyhow) result exec option) \<Rightarrow> ('a, anyhow) result exec option"
  where
  "open_then pem path k =
     (case map_err anyhow_io (pf_open pem path) of
        Inl e \<Rightarrow> Some (Returned (Inl e))
      | Inr rd \<Rightarrow> k rd)"

definition load_keys :: "'rd pem_api \<Rightarrow> string \<Rightarrow> (PrivateKeyDer list, anyhow) result exec option" where
  "load_keys pem path = open_then pem path (load_keys_from_reader pem)"

definition load_first_key_from_reader ::
  "'rd pem_api \<Rightarrow> 'rd \<Rightarrow> (PrivateKeyDer, anyhow) result exec option" where
  "load_first_key_from_reader pem rd =
     (case load_keys_from_reader pem rd of
        None \<Rightarrow> None
      | Some r \<Rightarrow> Some (exec_bind r (\<lambda>res. Returned (result_bind res (\<lambda>keys.
          case keys of [] \<Rightarrow> Inl (anyhow_msg ''no keys found'') | k # _ \<Rightarrow> Inr k)))))"

definition load_first_key :: "'rd pem_api \<Rightarrow> string \<Rightarrow> (PrivateKeyDer, anyhow) result exec option" where
  "load_first_key pem path = open_then pem path (load_first_key_from_reader pem)"

text \<open>\<open>root_store.add\<close> is a parameter, its error already displayable.\<close>

definition add_root_certs ::
  "(u8 list \<Rightarrow> 'st \<Rightarrow> ('st, anyhow) result) \<Rightarrow> u8 list list \<Rightarrow> 'st \<Rightarrow> ('st, anyhow) result" where
  "add_root_certs add certs store =
     try_fold (\<lambda>c st. with_context_msg ''invalid ca crt'' (add c st)) certs store"

definition load_root_ca ::
  "'rd pem_api \<Rightarrow> (u8 list \<Rightarrow> 'st \<Rightarrow> ('st, anyhow) result) \<Rightarrow> 'st \<Rightarrow> string \<Rightarrow> ('st, anyhow) result" where
  "load_root_ca pem add empty_store path =
     result_bind (map_err (add_context ''invalid ca crt'') (load_certs pem path))
       (\<lambda>certs. add_root_certs add certs empty_store)"

section \<open>Module builder\<close>

text \<open>
  The configuration builders of Rustls: \<open>'v\<close> wants a verifier, \<open>'k\<close> the client's own certificate,
  \<open>'q\<close> the server's; \<open>'f\<close> and \<open>'g\<close> are the finished client and server configurations.
\<close>

datatype NoCertificateVerification = NoCertificateVerification

record ('st, 'v, 'k, 'f, 'w, 'q, 'g) rustls_api =
  rt_client_builder :: 'v
  rt_empty_store :: 'st
  rt_store_add :: "u8 list \<Rightarrow> 'st \<Rightarrow> ('st, anyhow) result"
  rt_with_root :: "'v \<Rightarrow> 'st \<Rightarrow> 'k"
  rt_with_verifier :: "'v \<Rightarrow> NoCertificateVerification \<Rightarrow> 'k"
  rt_client_auth :: "'k \<Rightarrow> u8 list list \<Rightarrow> PrivateKeyDer \<Rightarrow> ('f, anyhow) result"
  rt_no_client_auth :: "'k \<Rightarrow> 'f"
  rt_server_builder :: 'w
  rt_server_no_auth :: "'w \<Rightarrow> 'q"
  rt_server_verifier :: "'w \<Rightarrow> 'st \<Rightarrow> ('q, anyhow) result"
  rt_server_cert :: "'q \<Rightarrow> u8 list list \<Rightarrow> PrivateKeyDer \<Rightarrow> ('g, anyhow) result"

definition connector_with_safe_defaults :: "('st, 'v, 'k, 'f, 'w, 'q, 'g) rustls_api \<Rightarrow> 'v" where
  "connector_with_safe_defaults rt = rt_client_builder rt"

definition connector_with_root_certificates ::
  "('st, 'v, 'k, 'f, 'w, 'q, 'g) rustls_api \<Rightarrow> 'v \<Rightarrow> u8 list list \<Rightarrow> ('k, anyhow) result" where
  "connector_with_root_certificates rt self certs =
     result_bind (add_root_certs (rt_store_add rt) certs (rt_empty_store rt))
       (\<lambda>root_store. Inr (rt_with_root rt self root_store))"

definition load_ca_cert ::
  "'rd pem_api \<Rightarrow> ('st, 'v, 'k, 'f, 'w, 'q, 'g) rustls_api \<Rightarrow> 'v \<Rightarrow> string \<Rightarrow> ('k, anyhow) result" where
  "load_ca_cert pem rt self path =
     result_bind (load_certs pem path) (connector_with_root_certificates rt self)"

definition load_ca_cert_from_bytes ::
  "'rd pem_api \<Rightarrow> ('st, 'v, 'k, 'f, 'w, 'q, 'g) rustls_api \<Rightarrow> 'v \<Rightarrow> u8 list \<Rightarrow> ('k, anyhow) result" where
  "load_ca_cert_from_bytes pem rt self buffer =
     result_bind (load_certs_from_reader pem (pf_cursor pem buffer))
       (connector_with_root_certificates rt self)"

definition connector_no_cert_verification :: "('st, 'v, 'k, 'f, 'w, 'q, 'g) rustls_api \<Rightarrow> 'v \<Rightarrow> 'f" where
  "connector_no_cert_verification rt self =
     rt_no_client_auth rt (rt_with_verifier rt self NoCertificateVerification)"

definition connector_with_single_cert ::
  "('st, 'v, 'k, 'f, 'w, 'q, 'g) rustls_api \<Rightarrow> 'k \<Rightarrow> u8 list list \<Rightarrow> PrivateKeyDer \<Rightarrow>
   ('f, anyhow) result" where
  "connector_with_single_cert rt self certs key =
     with_context_msg ''invalid cert'' (rt_client_auth rt self certs key)"

text \<open>Loading the key may run forever or panic, and comes after the certificates.\<close>

definition certs_then_key ::
  "('c, anyhow) result \<Rightarrow> (PrivateKeyDer, anyhow) result exec option \<Rightarrow>
   ('c \<Rightarrow> PrivateKeyDer \<Rightarrow> ('f, anyhow) result) \<Rightarrow> ('f, anyhow) result exec option" where
  "certs_then_key certs key k =
     (case certs of
        Inl e \<Rightarrow> Some (Returned (Inl e))
      | Inr cs \<Rightarrow>
          (case key of
             None \<Rightarrow> None
           | Some r \<Rightarrow> Some (exec_bind r (\<lambda>res. Returned (result_bind res (k cs))))))"

definition load_client_certs ::
  "'rd pem_api \<Rightarrow> ('st, 'v, 'k, 'f, 'w, 'q, 'g) rustls_api \<Rightarrow> 'k \<Rightarrow> string \<Rightarrow> string \<Rightarrow>
   ('f, anyhow) result exec option" where
  "load_client_certs pem rt self cert_path key_path =
     certs_then_key (load_certs pem cert_path) (load_first_key pem key_path)
       (connector_with_single_cert rt self)"

definition load_client_certs_from_bytes ::
  "'rd pem_api \<Rightarrow> ('st, 'v, 'k, 'f, 'w, 'q, 'g) rustls_api \<Rightarrow> 'k \<Rightarrow> u8 list \<Rightarrow> u8 list \<Rightarrow>
   ('f, anyhow) result exec option" where
  "load_client_certs_from_bytes pem rt self cert_buf key_buf =
     certs_then_key (load_certs_from_reader pem (pf_cursor pem cert_buf))
       (load_first_key_from_reader pem (pf_cursor pem key_buf))
       (connector_with_single_cert rt self)"

definition connector_no_client_auth :: "('st, 'v, 'k, 'f, 'w, 'q, 'g) rustls_api \<Rightarrow> 'k \<Rightarrow> 'f" where
  "connector_no_client_auth rt self = rt_no_client_auth rt self"

definition acceptor_with_safe_defaults :: "('st, 'v, 'k, 'f, 'w, 'q, 'g) rustls_api \<Rightarrow> 'w" where
  "acceptor_with_safe_defaults rt = rt_server_builder rt"

definition no_client_authentication :: "('st, 'v, 'k, 'f, 'w, 'q, 'g) rustls_api \<Rightarrow> 'w \<Rightarrow> 'q" where
  "no_client_authentication rt self = rt_server_no_auth rt self"

definition client_authenticate ::
  "'rd pem_api \<Rightarrow> ('st, 'v, 'k, 'f, 'w, 'q, 'g) rustls_api \<Rightarrow> 'w \<Rightarrow> string \<Rightarrow> ('q, anyhow) result" where
  "client_authenticate pem rt self path =
     result_bind (load_root_ca pem (rt_store_add rt) (rt_empty_store rt) path)
       (\<lambda>root_store. with_context_msg ''invalid verifier'' (rt_server_verifier rt self root_store))"

definition load_server_certs ::
  "'rd pem_api \<Rightarrow> ('st, 'v, 'k, 'f, 'w, 'q, 'g) rustls_api \<Rightarrow> 'q \<Rightarrow> string \<Rightarrow> string \<Rightarrow>
   ('g, anyhow) result exec option" where
  "load_server_certs pem rt self cert_path key_path =
     certs_then_key (load_certs pem cert_path) (load_first_key pem key_path)
       (\<lambda>certs key. with_context_msg ''invalid cert'' (rt_server_cert rt self certs key))"

text \<open>\<open>NoCertificateVerification\<close>: its three checks accept every certificate and signature.\<close>

definition verify_server_cert ::
  "NoCertificateVerification \<Rightarrow> 'c \<Rightarrow> 'i \<Rightarrow> 'n \<Rightarrow> 'o \<Rightarrow> 't \<Rightarrow> (unit, 'e) result" where
  "verify_server_cert self end_entity intermediates server_name ocsp now = Inr ()"

definition verify_tls12_signature ::
  "NoCertificateVerification \<Rightarrow> 'm \<Rightarrow> 'c \<Rightarrow> 'd \<Rightarrow> (unit, 'e) result" where
  "verify_tls12_signature self msg cert dss = Inr ()"

definition verify_tls13_signature ::
  "NoCertificateVerification \<Rightarrow> 'm \<Rightarrow> 'c \<Rightarrow> 'd \<Rightarrow> (unit, 'e) result" where
  "verify_tls13_signature self msg cert dss = Inr ()"

section \<open>Specification\<close>

text \<open>
  A reader holds a list of sections, the ones that parse and the errors of those that do not;
  \<open>read_one\<close> takes them in order.
\<close>

definition reads_sections ::
  "('rd \<Rightarrow> (pem_item, io_error) result list) \<Rightarrow> ('rd \<Rightarrow> (pem_item option, io_error) result \<times> 'rd) \<Rightarrow> bool"
  where
  "reads_sections sections read_one \<longleftrightarrow>
     (\<forall>rd. case sections rd of
        [] \<Rightarrow> fst (read_one rd) = Inr None
      | x # xs \<Rightarrow> fst (read_one rd) = (case x of Inl e \<Rightarrow> Inl e | Inr i \<Rightarrow> Inr (Some i)) \<and>
          sections (snd (read_one rd)) = xs)"

fun key_of :: "pem_item \<Rightarrow> PrivateKeyDer list" where
  "key_of (Item_Pkcs1Key k) = [Key_Pkcs1 k]"
| "key_of (Item_Pkcs8Key k) = [Key_Pkcs8 k]"
| "key_of (Item_Sec1Key k) = [Key_Sec1 k]"
| "key_of (Item_X509Certificate c) = []"
| "key_of (Item_Other c) = []"

definition keys_spec :: "(pem_item, io_error) result list \<Rightarrow> PrivateKeyDer list exec" where
  "keys_spec xs =
     (case collect_results xs of Inl _ \<Rightarrow> Panicked | Inr items \<Rightarrow> Returned (concat (map key_of items)))"

text \<open>For the witnesses: a reader that is its list of sections, and files that are such readers.\<close>

definition list_pem :: "(string \<Rightarrow> (pem_item, io_error) result list option) \<Rightarrow>
    (pem_item, io_error) result list pem_api" where
  "list_pem files = \<lparr>
     pf_open = (\<lambda>p. case files p of None \<Rightarrow> Inl (IoError NotFound ''no file'') | Some x \<Rightarrow> Inr x),
     pf_cursor = (\<lambda>bs. map (\<lambda>b. Inr (Item_Pkcs8Key [b])) bs),
     pf_read_one = (\<lambda>rd. case rd of [] \<Rightarrow> (Inr None, [])
        | Inl e # xs \<Rightarrow> (Inl e, xs) | Inr i # xs \<Rightarrow> (Inr (Some i), xs)),
     pf_certs = (\<lambda>rd. [])\<rparr>"

section \<open>Lemmas\<close>

lemma load_keys_loop_spec:
  assumes "reads_sections sections read_one"
  shows "load_keys_loop read_one keys rd =
     Some (exec_bind (keys_spec (sections rd)) (\<lambda>ks. Returned (keys @ ks)))"
proof (induction "sections rd" arbitrary: keys rd)
  case Nil
  then have "fst (read_one rd) = Inr None"
    using assms by (auto simp: reads_sections_def dest: spec [of _ rd])
  then show ?case using Nil
    by (subst load_keys_loop.simps) (auto simp: keys_spec_def split: prod.split)
next
  case (Cons x xs)
  have r: "fst (read_one rd) = (case x of Inl e \<Rightarrow> Inl e | Inr i \<Rightarrow> Inr (Some i))"
    "sections (snd (read_one rd)) = xs"
    using assms Cons.hyps(2) [symmetric] by (auto simp: reads_sections_def dest: spec [of _ rd])
  show ?case
  proof (cases x)
    case (Inl e)
    with r Cons.hyps(2) [symmetric] show ?thesis
      by (subst load_keys_loop.simps) (auto simp: keys_spec_def split: prod.split)
  next
    case (Inr i)
    have "load_keys_loop read_one keys rd = load_keys_loop read_one (keys @ key_of i) (snd (read_one rd))"
      using r(1) Inr by (subst load_keys_loop.simps) (auto split: prod.split pem_item.split)
    also have "\<dots> = Some (exec_bind (keys_spec xs) (\<lambda>ks. Returned ((keys @ key_of i) @ ks)))"
      using Cons.hyps(1) [of "snd (read_one rd)"] r(2) by simp
    finally show ?thesis
      using Inr Cons.hyps(2) [symmetric]
      by (cases "collect_results xs") (simp_all add: keys_spec_def)
  qed
qed

lemma list_pem_reads: "reads_sections (\<lambda>rd. rd) (pf_read_one (list_pem files))"
  by (auto simp: reads_sections_def list_pem_def split: list.split sum.split)

lemma try_fold_Inr_iff:
  "add_root_certs add certs st = Inr st' \<longleftrightarrow> try_fold add certs st = Inr st'"
  by (induction certs arbitrary: st)
    (auto simp: add_root_certs_def result_bind_Inr_iff)

section \<open>Properties\<close>

text \<open>
  C36. Loading keys returns on every reader with finitely many sections, and gives exactly the keys of
  the three formats in the order of the file; a section that does not parse makes it panic, it is
  never reported as an error. \<open>load_first_key_from_reader\<close> gives the first of them, or the error
  that there is none.
\<close>

theorem load_keys_in_order:
  assumes "reads_sections sections (pf_read_one pem)"
  shows "load_keys_from_reader pem rd =
       Some (exec_bind (keys_spec (sections rd)) (\<lambda>ks. Returned (Inr ks))) \<and>
     load_first_key_from_reader pem rd =
       Some (exec_bind (keys_spec (sections rd)) (\<lambda>ks.
         Returned (if ks = [] then Inl (anyhow_msg ''no keys found'') else Inr (hd ks))))"
  by (cases "keys_spec (sections rd)")
    (auto simp: load_keys_from_reader_def load_first_key_from_reader_def
      load_keys_loop_spec [OF assms] split: list.split)

theorem load_keys_in_order_witness:
  "load_first_key_from_reader (list_pem (\<lambda>_. None))
       [Inr (Item_X509Certificate [1]), Inr (Item_Sec1Key [2]), Inr (Item_Pkcs8Key [3])]
     = Some (Returned (Inr (Key_Sec1 [2]))) \<and>
   load_keys_from_reader (list_pem (\<lambda>_. None))
       [Inr (Item_Sec1Key [2]), Inl (IoError OtherError ''bad base64'')] = Some Panicked"
  using load_keys_in_order [OF list_pem_reads [of "\<lambda>_. None"]] by (simp add: keys_spec_def)

text \<open>
  A root store is loaded completely or not at all: \<open>load_root_ca\<close> succeeds exactly when the file
  opens, every certificate in it parses and the store takes each of them, and then the store is the
  result of adding them in the order of the file; \<open>load_ca_cert\<close> hands that same store to the
  connector's configuration.
\<close>

lemma root_store_complete:
  "(load_root_ca pem (rt_store_add rt) (rt_empty_store rt) path = Inr store \<longleftrightarrow>
      (\<exists>rd certs. pf_open pem path = Inr rd \<and> pf_certs pem rd = map Inr certs \<and>
         try_fold (rt_store_add rt) certs (rt_empty_store rt) = Inr store)) \<and>
   (load_ca_cert pem rt self path = Inr k \<longleftrightarrow>
      (\<exists>store. load_root_ca pem (rt_store_add rt) (rt_empty_store rt) path = Inr store \<and>
         k = rt_with_root rt self store))"
proof
  have "map (\<lambda>r. with_context_msg ''invalid cert'' (map_err anyhow_io r)) rs = map Inr cs
      \<longleftrightarrow> rs = map Inr cs" for rs :: "(u8 list, io_error) result list" and cs
    by (auto simp: list_eq_iff_nth_eq)
  then have certs: "load_certs pem path = Inr cs \<longleftrightarrow>
      (\<exists>rd. pf_open pem path = Inr rd \<and> pf_certs pem rd = map Inr cs)" for cs
    by (auto simp: load_certs_def load_certs_from_reader_def result_bind_Inr_iff
        collect_results_Inr_iff)
  show "load_root_ca pem (rt_store_add rt) (rt_empty_store rt) path = Inr store \<longleftrightarrow>
      (\<exists>rd certs. pf_open pem path = Inr rd \<and> pf_certs pem rd = map Inr certs \<and>
         try_fold (rt_store_add rt) certs (rt_empty_store rt) = Inr store)"
    by (auto simp: load_root_ca_def result_bind_Inr_iff certs try_fold_Inr_iff)
  show "load_ca_cert pem rt self path = Inr k \<longleftrightarrow>
      (\<exists>store. load_root_ca pem (rt_store_add rt) (rt_empty_store rt) path = Inr store \<and>
         k = rt_with_root rt self store)"
    by (auto simp: load_ca_cert_def load_root_ca_def connector_with_root_certificates_def
        result_bind_Inr_iff try_fold_Inr_iff)
qed

end
