(* ===== verification/Rust_Tls_Builder.thy ===== *)
theory Rust_Tls_Builder
  imports Rust_Tls
begin

text \<open>
  The builders of \<open>src/src/rust_tls.rs\<close> as a whole: the calls a program can chain on
  \<open>ConnectorBuilder\<close> and \<open>AcceptorBuilder\<close>, the stages that the types \<open>ConnectorBuilderStage\<close> and
  \<open>AcceptorBuilderStage\<close> carry, and the last calls \<open>build\<close>. A chain is run with the \<open>?\<close> operator after
  every fallible call. The lemmas are preservation and progress for the stages, and what a chain
  that type checks can build.
\<close>

section \<open>The last calls\<close>

text \<open>The conversion of a shared configuration into a connector or an acceptor is the package's.\<close>

definition ConnectorBuilderWithConfig_build :: "('f \<Rightarrow> 'c) \<Rightarrow> 'f \<Rightarrow> 'c" where
  "ConnectorBuilderWithConfig_build from_arc self = from_arc self"

definition AcceptorBuilderWithConfig_build :: "('g \<Rightarrow> 'a) \<Rightarrow> 'g \<Rightarrow> 'a" where
  "AcceptorBuilderWithConfig_build from_arc self = from_arc self"

text \<open>The schemes of the package's default cryptography provider.\<close>

definition supported_verify_schemes ::
  "'p \<Rightarrow> ('p \<Rightarrow> 'x list) \<Rightarrow> NoCertificateVerification \<Rightarrow> 'x list" where
  "supported_verify_schemes default_provider supported_schemes self = supported_schemes default_provider"

section \<open>Chains of calls\<close>

text \<open>The stages of the two builders; the arguments are the values the stages wrap.\<close>

datatype ('v, 'k, 'f, 'c) ConnectorBuilderStage =
    Wants_Verifier 'v | Wants_Client_Cert 'k | Connector_Config 'f | Built_Connector 'c

datatype ('w, 'q, 'g, 'a) AcceptorBuilderStage =
    Server_Wants_Verifier 'w | Wants_Server_Cert 'q | Acceptor_Config 'g | Built_Acceptor 'a

datatype connector_call =
    Load_Ca_Cert string | Load_Ca_Cert_Bytes "u8 list" | No_Cert_Verification
  | Load_Client_Certs string string | Load_Client_Certs_Bytes "u8 list" "u8 list" | No_Client_Auth
  | Build_Connector

datatype acceptor_call =
    No_Client_Authentication | Client_Authenticate string | Load_Server_Certs string string
  | Build_Acceptor

type_synonym 'x fallible = "('x, anyhow) result exec option"

text \<open>\<open>None\<close> stands for a method that the stage does not have.\<close>

fun connector_method ::
  "'rd pem_api \<Rightarrow> ('st, 'v, 'k, 'f, 'w, 'q, 'g) rustls_api \<Rightarrow> ('f \<Rightarrow> 'c) \<Rightarrow> connector_call \<Rightarrow>
   ('v, 'k, 'f, 'c) ConnectorBuilderStage \<Rightarrow> ('v, 'k, 'f, 'c) ConnectorBuilderStage fallible option" where
  "connector_method pem rt from_arc (Load_Ca_Cert path) (Wants_Verifier v) =
     Some (Some (Returned (map_sum id Wants_Client_Cert (load_ca_cert pem rt v path))))"
| "connector_method pem rt from_arc (Load_Ca_Cert_Bytes buffer) (Wants_Verifier v) =
     Some (Some (Returned (map_sum id Wants_Client_Cert (load_ca_cert_from_bytes pem rt v buffer))))"
| "connector_method pem rt from_arc No_Cert_Verification (Wants_Verifier v) =
     Some (Some (Returned (Inr (Connector_Config (connector_no_cert_verification rt v)))))"
| "connector_method pem rt from_arc (Load_Client_Certs cert_path key_path) (Wants_Client_Cert k) =
     Some (map_option (map_exec (map_sum id Connector_Config)) (load_client_certs pem rt k cert_path key_path))"
| "connector_method pem rt from_arc (Load_Client_Certs_Bytes cert_buf key_buf) (Wants_Client_Cert k) =
     Some (map_option (map_exec (map_sum id Connector_Config))
       (load_client_certs_from_bytes pem rt k cert_buf key_buf))"
| "connector_method pem rt from_arc No_Client_Auth (Wants_Client_Cert k) =
     Some (Some (Returned (Inr (Connector_Config (connector_no_client_auth rt k)))))"
| "connector_method pem rt from_arc Build_Connector (Connector_Config f) =
     Some (Some (Returned (Inr (Built_Connector (ConnectorBuilderWithConfig_build from_arc f)))))"
| "connector_method pem rt from_arc _ _ = None"

fun acceptor_method ::
  "'rd pem_api \<Rightarrow> ('st, 'v, 'k, 'f, 'w, 'q, 'g) rustls_api \<Rightarrow> ('g \<Rightarrow> 'a) \<Rightarrow> acceptor_call \<Rightarrow>
   ('w, 'q, 'g, 'a) AcceptorBuilderStage \<Rightarrow> ('w, 'q, 'g, 'a) AcceptorBuilderStage fallible option" where
  "acceptor_method pem rt from_arc No_Client_Authentication (Server_Wants_Verifier w) =
     Some (Some (Returned (Inr (Wants_Server_Cert (no_client_authentication rt w)))))"
| "acceptor_method pem rt from_arc (Client_Authenticate path) (Server_Wants_Verifier w) =
     Some (Some (Returned (map_sum id Wants_Server_Cert (client_authenticate pem rt w path))))"
| "acceptor_method pem rt from_arc (Load_Server_Certs cert_path key_path) (Wants_Server_Cert q) =
     Some (map_option (map_exec (map_sum id Acceptor_Config)) (load_server_certs pem rt q cert_path key_path))"
| "acceptor_method pem rt from_arc Build_Acceptor (Acceptor_Config g) =
     Some (Some (Returned (Inr (Built_Acceptor (AcceptorBuilderWithConfig_build from_arc g)))))"
| "acceptor_method pem rt from_arc _ _ = None"

text \<open>
  A chain stops at the first error or panic. Its value is \<open>None\<close> when a method is missing, then
  \<open>None\<close> when loading a key does not end.
\<close>

fun call_chain :: "('m \<Rightarrow> 'g \<Rightarrow> 'g fallible option) \<Rightarrow> 'm list \<Rightarrow> 'g \<Rightarrow> 'g fallible option" where
  "call_chain call [] g = Some (Some (Returned (Inr g)))"
| "call_chain call (m # ms) g = (case call m g of
      None \<Rightarrow> None
    | Some (Some (Returned (Inr g'))) \<Rightarrow> call_chain call ms g'
    | Some r \<Rightarrow> Some r)"

section \<open>Typing\<close>

datatype stage_type = Ty_Verifier | Ty_Cert | Ty_Config | Ty_Built

fun connector_stage_type :: "('v, 'k, 'f, 'c) ConnectorBuilderStage \<Rightarrow> stage_type" where
  "connector_stage_type (Wants_Verifier v) = Ty_Verifier"
| "connector_stage_type (Wants_Client_Cert k) = Ty_Cert"
| "connector_stage_type (Connector_Config f) = Ty_Config"
| "connector_stage_type (Built_Connector c) = Ty_Built"

fun acceptor_stage_type :: "('w, 'q, 'g, 'a) AcceptorBuilderStage \<Rightarrow> stage_type" where
  "acceptor_stage_type (Server_Wants_Verifier w) = Ty_Verifier"
| "acceptor_stage_type (Wants_Server_Cert q) = Ty_Cert"
| "acceptor_stage_type (Acceptor_Config g) = Ty_Config"
| "acceptor_stage_type (Built_Acceptor a) = Ty_Built"

text \<open>The signatures of the methods: the stage of \<open>self\<close> and the stage of the result.\<close>

fun connector_call_type :: "connector_call \<Rightarrow> stage_type \<Rightarrow> stage_type option" where
  "connector_call_type (Load_Ca_Cert path) Ty_Verifier = Some Ty_Cert"
| "connector_call_type (Load_Ca_Cert_Bytes buffer) Ty_Verifier = Some Ty_Cert"
| "connector_call_type No_Cert_Verification Ty_Verifier = Some Ty_Config"
| "connector_call_type (Load_Client_Certs cert_path key_path) Ty_Cert = Some Ty_Config"
| "connector_call_type (Load_Client_Certs_Bytes cert_buf key_buf) Ty_Cert = Some Ty_Config"
| "connector_call_type No_Client_Auth Ty_Cert = Some Ty_Config"
| "connector_call_type Build_Connector Ty_Config = Some Ty_Built"
| "connector_call_type _ _ = None"

fun acceptor_call_type :: "acceptor_call \<Rightarrow> stage_type \<Rightarrow> stage_type option" where
  "acceptor_call_type No_Client_Authentication Ty_Verifier = Some Ty_Cert"
| "acceptor_call_type (Client_Authenticate path) Ty_Verifier = Some Ty_Cert"
| "acceptor_call_type (Load_Server_Certs cert_path key_path) Ty_Cert = Some Ty_Config"
| "acceptor_call_type Build_Acceptor Ty_Config = Some Ty_Built"
| "acceptor_call_type _ _ = None"

fun chain_type :: "('m \<Rightarrow> stage_type \<Rightarrow> stage_type option) \<Rightarrow> 'm list \<Rightarrow> stage_type \<Rightarrow> stage_type option" where
  "chain_type ty [] t = Some t"
| "chain_type ty (m # ms) t = (case ty m t of None \<Rightarrow> None | Some t' \<Rightarrow> chain_type ty ms t')"

text \<open>
  A typed builder: a call has its method exactly when its signature fits the stage, and its result
  has the stage that the signature says.
\<close>

locale staged_builder =
  fixes call :: "'m \<Rightarrow> 'g \<Rightarrow> 'g fallible option"
    and ty :: "'m \<Rightarrow> stage_type \<Rightarrow> stage_type option"
    and stage :: "'g \<Rightarrow> stage_type"
  assumes call_typed: "call m g = None \<longleftrightarrow> ty m (stage g) = None"
    and call_stage: "call m g = Some (Some (Returned (Inr g'))) \<Longrightarrow> ty m (stage g) = Some (stage g')"
begin

lemma chain_preservation:
  "call_chain call ms g = Some (Some (Returned (Inr g'))) \<Longrightarrow> chain_type ty ms (stage g) = Some (stage g')"
proof (induction ms arbitrary: g)
  case (Cons m ms)
  then obtain g1 where "call m g = Some (Some (Returned (Inr g1)))"
    "call_chain call ms g1 = Some (Some (Returned (Inr g')))"
    by (auto split: option.splits exec.splits sum.splits)
  with Cons.IH [of g1] call_stage [of m g g1] show ?case by simp
qed simp

lemma chain_progress:
  assumes ends: "\<And>m g. call m g \<noteq> Some None"
  shows "chain_type ty ms (stage g) = Some t \<Longrightarrow> \<exists>r. call_chain call ms g = Some (Some r)"
proof (induction ms arbitrary: g)
  case (Cons m ms)
  then obtain t' where t': "ty m (stage g) = Some t'" "chain_type ty ms t' = Some t"
    by (auto split: option.splits)
  then obtain r where r: "call m g = Some (Some r)" using call_typed [of m g] ends [of m g] by auto
  show ?case
  proof (cases "\<exists>g'. r = Returned (Inr g')")
    case True
    then obtain g' where g': "r = Returned (Inr g')" by blast
    then have "stage g' = t'" using call_stage r t'(1) by auto
    with Cons.IH [of g'] t'(2) r g' show ?thesis by simp
  next
    case False
    with r show ?thesis by (auto split: exec.split sum.split)
  qed
qed simp

end

lemma connector_method_typed:
  "connector_method pem rt from_arc m g = None \<longleftrightarrow> connector_call_type m (connector_stage_type g) = None"
  by (cases m; cases g) simp_all

lemma map_sum_Inr_iff:
  "map_sum id f x = Inr y \<longleftrightarrow> (\<exists>z. x = Inr z \<and> y = f z)"
  "Inr y = map_sum id f x \<longleftrightarrow> (\<exists>z. x = Inr z \<and> y = f z)"
  by (cases x; auto)+

lemma map_exec_Returned_iff: "map_exec f x = Returned y \<longleftrightarrow> (\<exists>z. x = Returned z \<and> y = f z)"
  by (cases x) auto

lemmas method_result_iffs = map_sum_Inr_iff map_exec_Returned_iff

lemma connector_method_stage:
  assumes "connector_method pem rt from_arc m g = Some (Some (Returned (Inr g')))"
  shows "connector_call_type m (connector_stage_type g) = Some (connector_stage_type g')"
  using assms by (cases m; cases g) (auto simp: method_result_iffs)

lemma acceptor_method_typed:
  "acceptor_method pem rt from_arc m g = None \<longleftrightarrow> acceptor_call_type m (acceptor_stage_type g) = None"
  by (cases m; cases g) simp_all

lemma acceptor_method_stage:
  assumes "acceptor_method pem rt from_arc m g = Some (Some (Returned (Inr g')))"
  shows "acceptor_call_type m (acceptor_stage_type g) = Some (acceptor_stage_type g')"
  using assms by (cases m; cases g) (auto simp: method_result_iffs)

interpretation connector_builder:
  staged_builder "connector_method pem rt from_arc" connector_call_type connector_stage_type
  for pem rt from_arc
  by unfold_locales (rule connector_method_typed, rule connector_method_stage)

interpretation acceptor_builder:
  staged_builder "acceptor_method pem rt from_arc" acceptor_call_type acceptor_stage_type
  for pem rt from_arc
  by unfold_locales (rule acceptor_method_typed, rule acceptor_method_stage)

section \<open>What is trusted\<close>

text \<open>
  The configurations of the package: views of the roots that a server certificate is checked against,
  where \<open>None\<close> means that \<open>NoCertificateVerification\<close> is in charge. Client authentication and the
  conversion into a connector keep them.
\<close>

definition rustls_contract ::
  "('k \<Rightarrow> 'st option) \<Rightarrow> ('f \<Rightarrow> 'st option) \<Rightarrow> ('c \<Rightarrow> 'st option) \<Rightarrow> ('f \<Rightarrow> 'c) \<Rightarrow>
   ('st, 'v, 'k, 'f, 'w, 'q, 'g) rustls_api \<Rightarrow> bool" where
  "rustls_contract kroots froots croots from_arc rt \<longleftrightarrow>
     (\<forall>v st. kroots (rt_with_root rt v st) = Some st) \<and>
     (\<forall>v. kroots (rt_with_verifier rt v NoCertificateVerification) = None) \<and>
     (\<forall>k certs key f. rt_client_auth rt k certs key = Inr f \<longrightarrow> froots f = kroots k) \<and>
     (\<forall>k. froots (rt_no_client_auth rt k) = kroots k) \<and>
     (\<forall>f. croots (from_arc f) = froots f)"

text \<open>The certificates that a call of the first stage reads.\<close>

fun ca_certs :: "'rd pem_api \<Rightarrow> connector_call \<Rightarrow> (u8 list list, anyhow) result option" where
  "ca_certs pem (Load_Ca_Cert path) = Some (load_certs pem path)"
| "ca_certs pem (Load_Ca_Cert_Bytes buffer) = Some (load_certs_from_reader pem (pf_cursor pem buffer))"
| "ca_certs pem _ = None"

text \<open>For the witness: configurations that are their root certificates, or nothing.\<close>

definition toy_rustls ::
  "(u8 list list, unit, u8 list list option, u8 list list option, unit, unit, unit) rustls_api" where
  "toy_rustls = \<lparr>rt_client_builder = (), rt_empty_store = [],
     rt_store_add = (\<lambda>c st. if c = [] then Inl (Anyhow [''empty'']) else Inr (st @ [c])),
     rt_with_root = (\<lambda>_ st. Some st), rt_with_verifier = (\<lambda>_ _. None),
     rt_client_auth = (\<lambda>k certs key. Inr k), rt_no_client_auth = (\<lambda>k. k),
     rt_server_builder = (), rt_server_no_auth = (\<lambda>_. ()), rt_server_verifier = (\<lambda>_ _. Inr ()),
     rt_server_cert = (\<lambda>_ _ _. Inr ())\<rparr>"

lemma toy_rustls_contract: "rustls_contract (\<lambda>k. k) (\<lambda>f. f) (\<lambda>c. c) (\<lambda>f. f) toy_rustls"
  by (simp add: rustls_contract_def toy_rustls_def)

section \<open>Lemmas\<close>

text \<open>Loading keys ends, so every call does.\<close>

lemma load_first_key_ends:
  assumes "reads_sections sections (pf_read_one pem)"
  shows "load_first_key_from_reader pem rd \<noteq> None" and "load_first_key pem path \<noteq> None"
  by (auto simp: load_first_key_from_reader_def load_first_key_def open_then_def load_keys_from_reader_def
      load_keys_loop_spec [OF assms] split: sum.split)

lemma certs_then_key_ends: "key \<noteq> None \<Longrightarrow> certs_then_key certs key k \<noteq> None"
  by (auto simp: certs_then_key_def split: sum.split)

lemma connector_method_ends:
  assumes "reads_sections sections (pf_read_one pem)"
  shows "connector_method pem rt from_arc m g \<noteq> Some None"
  using load_first_key_ends [OF assms]
  by (cases m; cases g) (simp_all add: load_client_certs_def load_client_certs_from_bytes_def certs_then_key_ends)

lemma acceptor_chain_ends:
  assumes "reads_sections sections (pf_read_one pem)"
    and "chain_type acceptor_call_type calls (acceptor_stage_type g) = Some t"
  shows "\<exists>r. call_chain (acceptor_method pem rt from_arc) calls g = Some (Some r)"
proof (rule acceptor_builder.chain_progress [OF _ assms(2)])
  fix m g
  show "acceptor_method pem rt from_arc m g \<noteq> Some None"
    using load_first_key_ends [OF assms(1)]
    by (cases m; cases g) (simp_all add: load_server_certs_def certs_then_key_ends)
qed

text \<open>The two shapes of a chain that builds a connector.\<close>

lemma connector_chain_shapes:
  assumes "chain_type connector_call_type calls Ty_Verifier = Some Ty_Built"
  obtains "calls = [No_Cert_Verification, Build_Connector]"
    | ca auth where "calls = [ca, auth, Build_Connector]" and "ca_certs pem ca \<noteq> None"
      and "connector_call_type auth Ty_Cert = Some Ty_Config"
proof -
  have built: "chain_type connector_call_type ms Ty_Built = Some Ty_Built \<Longrightarrow> ms = []" for ms
    by (cases ms; cases "hd ms") auto
  have config: "chain_type connector_call_type ms Ty_Config = Some Ty_Built \<Longrightarrow> ms = [Build_Connector]" for ms
    using built by (cases ms; cases "hd ms") auto
  have cert: "chain_type connector_call_type ms Ty_Cert = Some Ty_Built \<Longrightarrow>
      \<exists>auth. ms = [auth, Build_Connector] \<and> connector_call_type auth Ty_Cert = Some Ty_Config" for ms
    using config by (cases ms; cases "hd ms") auto
  obtain m ms where calls: "calls = m # ms" using assms by (cases calls) auto
  show thesis
    using assms calls config [of ms] cert [of ms] that by (cases m) auto
qed

lemma ca_call_roots:
  assumes "rustls_contract kroots froots croots from_arc rt" and "ca_certs pem ca \<noteq> None"
    and "connector_method pem rt from_arc ca (Wants_Verifier v) = Some (Some (Returned (Inr g)))"
  shows "\<exists>k certs store. g = Wants_Client_Cert k \<and> kroots k = Some store \<and> ca_certs pem ca = Some (Inr certs) \<and>
     try_fold (rt_store_add rt) certs (rt_empty_store rt) = Inr store"
  using assms
  by (cases ca) (auto simp: rustls_contract_def load_ca_cert_def load_ca_cert_from_bytes_def
      connector_with_root_certificates_def method_result_iffs result_bind_Inr_iff try_fold_Inr_iff)

lemma auth_call_roots:
  assumes "rustls_contract kroots froots croots from_arc rt"
    and "connector_method pem rt from_arc auth (Wants_Client_Cert k) = Some (Some (Returned (Inr g)))"
  shows "\<exists>f. g = Connector_Config f \<and> froots f = kroots k"
  using assms
  by (cases auth) (auto simp: rustls_contract_def load_client_certs_def load_client_certs_from_bytes_def
      connector_no_client_auth_def connector_with_single_cert_def certs_then_key_def method_result_iffs
      result_bind_Inr_iff exec_simps split: sum.splits option.splits)

section \<open>Properties\<close>

text \<open>
  C10. A chain of builder calls that type checks and ends in a connector runs to a result: a connector,
  the first error, or the panic of an unreadable key file. A connector it builds trusts exactly the
  certificates of the one file or buffer the chain named, all of them in order, and checks no
  certificate exactly when \<open>no_cert_verification\<close> was called.
\<close>

theorem connector_builder_sound:
  assumes "reads_sections sections (pf_read_one pem)"
    and "rustls_contract kroots froots croots from_arc rt"
    and "chain_type connector_call_type calls Ty_Verifier = Some Ty_Built"
  shows "\<exists>r. call_chain (connector_method pem rt from_arc) calls
       (Wants_Verifier (connector_with_safe_defaults rt)) = Some (Some r) \<and>
     (\<forall>g. r = Returned (Inr g) \<longrightarrow> (\<exists>c. g = Built_Connector c \<and>
        (croots c = None \<longleftrightarrow> No_Cert_Verification \<in> set calls) \<and>
        (\<forall>store. croots c = Some store \<longrightarrow> (\<exists>certs. ca_certs pem (hd calls) = Some (Inr certs) \<and>
           try_fold (rt_store_add rt) certs (rt_empty_store rt) = Inr store))))"
proof -
  let ?v = "Wants_Verifier (connector_with_safe_defaults rt)"
  let ?call = "connector_method pem rt from_arc"
  obtain r where r: "call_chain ?call calls ?v = Some (Some r)"
    using connector_builder.chain_progress [OF connector_method_ends [OF assms(1)], of calls ?v Ty_Built] assms(3)
    by auto
  have "\<exists>c. g = Built_Connector c \<and> (croots c = None \<longleftrightarrow> No_Cert_Verification \<in> set calls) \<and>
      (\<forall>store. croots c = Some store \<longrightarrow> (\<exists>certs. ca_certs pem (hd calls) = Some (Inr certs) \<and>
         try_fold (rt_store_add rt) certs (rt_empty_store rt) = Inr store))"
    if g: "r = Returned (Inr g)" for g
    using assms(3)
  proof (cases rule: connector_chain_shapes [where pem = pem])
    case 1
    with r g assms(2) show ?thesis
      by (auto simp: rustls_contract_def connector_no_cert_verification_def
          ConnectorBuilderWithConfig_build_def)
  next
    case (2 ca auth)
    from r g 2(1) obtain g1 g2 where g1: "?call ca ?v = Some (Some (Returned (Inr g1)))"
      "?call auth g1 = Some (Some (Returned (Inr g2)))" "?call Build_Connector g2 = Some (Some (Returned (Inr g)))"
      by (auto split: option.splits exec.splits sum.splits)
    obtain k certs store where k: "g1 = Wants_Client_Cert k" "kroots k = Some store"
      "ca_certs pem ca = Some (Inr certs)" "try_fold (rt_store_add rt) certs (rt_empty_store rt) = Inr store"
      using ca_call_roots [OF assms(2) 2(2) g1(1)] by blast
    obtain f where f: "g2 = Connector_Config f" "froots f = Some store"
      using auth_call_roots [OF assms(2)] g1(2) k by metis
    have "No_Cert_Verification \<notin> set calls" using 2 by auto
    with f g1(3) k assms(2) 2(1) show ?thesis
      by (auto simp: rustls_contract_def ConnectorBuilderWithConfig_build_def)
  qed
  with r show ?thesis by blast
qed

theorem connector_builder_sound_witness:
  "\<exists>r. call_chain (connector_method (list_pem (\<lambda>_. Some [])) toy_rustls (\<lambda>f. f))
       [Load_Ca_Cert ''ca'', No_Client_Auth, Build_Connector] (Wants_Verifier ()) = Some (Some r)"
  using connector_builder_sound [OF list_pem_reads toy_rustls_contract,
      of "[Load_Ca_Cert ''ca'', No_Client_Auth, Build_Connector]" "\<lambda>_. Some []"]
  by (auto simp: connector_with_safe_defaults_def toy_rustls_def)

end
