(* ===== verification/Native_Tls.thy ===== *)
theory Native_Tls
  imports Openssl_Certs
begin

text \<open>
  \<open>src/src/native_tls.rs\<close>, modules \<open>cert\<close> and \<open>builder\<close>. The certificate builders are a copy of the
  OpenSSL ones over the same bindings, with the identity and the certificate type of the
  \<open>native_tls\<close> package; the package's connector, of type \<open>'c\<close>, and its acceptor are parameters. The
  lemmas follow the connector's settings through any sequence of builder calls.
\<close>

section \<open>Module cert\<close>

record NativeX509PemBuilder =
  nx_bytes :: "u8 list"

definition native_x509_new :: "u8 list \<Rightarrow> NativeX509PemBuilder" where
  "native_x509_new bytes = \<lparr>nx_bytes = bytes\<rparr>"

definition native_x509_build ::
  "('x, 'k, 'p) pkcs_api \<Rightarrow> NativeX509PemBuilder \<Rightarrow> ('x, anyhow) result" where
  "native_x509_build pk self = with_context_msg ''invalid cert'' (pk_x509_from_pem pk (nx_bytes self))"

definition native_x509_build_native ::
  "(u8 list \<Rightarrow> ('n, anyhow) result) \<Rightarrow> NativeX509PemBuilder \<Rightarrow> ('n, anyhow) result" where
  "native_x509_build_native from_pem self = with_context_msg ''invalid pem file'' (from_pem (nx_bytes self))"

record NativePrivateKeyBuilder =
  nk_bytes :: "u8 list"

definition native_key_new :: "u8 list \<Rightarrow> NativePrivateKeyBuilder" where
  "native_key_new bytes = \<lparr>nk_bytes = bytes\<rparr>"

definition native_key_build ::
  "('x, 'k, 'p) pkcs_api \<Rightarrow> NativePrivateKeyBuilder \<Rightarrow> ('k, anyhow) result" where
  "native_key_build pk self = with_context_msg ''invalid key'' (pk_key_from_pem pk (nk_bytes self))"

definition NATIVE_PASSWORD :: string where
  "NATIVE_PASSWORD = ''test''"

record NativeIdentityBuilder =
  ni_bytes :: "u8 list"

definition native_identity_new :: "u8 list \<Rightarrow> NativeIdentityBuilder" where
  "native_identity_new bytes = \<lparr>ni_bytes = bytes\<rparr>"

definition native_identity_from_x509 ::
  "('x, 'k, 'p) pkcs_api \<Rightarrow> NativeX509PemBuilder \<Rightarrow> NativePrivateKeyBuilder \<Rightarrow>
   (NativeIdentityBuilder, anyhow) result" where
  "native_identity_from_x509 pk x509 key =
     result_bind (native_key_build pk key) (\<lambda>server_key.
     result_bind (native_x509_build pk x509) (\<lambda>server_crt.
     result_bind (with_context_msg ''Failed to create Pkcs12''
       (pk_build2 pk [] server_key server_crt NATIVE_PASSWORD)) (\<lambda>p12.
     result_bind (pk_to_der pk p12) (\<lambda>der. Inr \<lparr>ni_bytes = der\<rparr>))))"

definition native_identity_build ::
  "(u8 list \<Rightarrow> string \<Rightarrow> ('i, anyhow) result) \<Rightarrow> NativeIdentityBuilder \<Rightarrow> ('i, anyhow) result" where
  "native_identity_build from_pkcs12 self =
     with_context_msg ''Failed to load der'' (from_pkcs12 (ni_bytes self) NATIVE_PASSWORD)"

section \<open>Module builder\<close>

text \<open>
  The connector of the package with the setters that the builder calls; \<open>'i\<close> is its identity, \<open>'n\<close> its
  certificate.
\<close>

record ('c, 'i, 'n) native_api =
  nt_new :: 'c
  nt_identity :: "'i \<Rightarrow> 'c \<Rightarrow> 'c"
  nt_accept_invalid_certs :: "bool \<Rightarrow> 'c \<Rightarrow> 'c"
  nt_accept_invalid_hostnames :: "bool \<Rightarrow> 'c \<Rightarrow> 'c"
  nt_use_sni :: "bool \<Rightarrow> 'c \<Rightarrow> 'c"
  nt_add_root :: "'n \<Rightarrow> 'c \<Rightarrow> 'c"
  nt_from_pkcs12 :: "u8 list \<Rightarrow> string \<Rightarrow> ('i, anyhow) result"
  nt_cert_from_pem :: "u8 list \<Rightarrow> ('n, anyhow) result"

record 'c NativeConnectorBuilder =
  ncb_inner :: 'c

definition connector_identity ::
  "('c, 'i, 'n) native_api \<Rightarrow> NativeIdentityBuilder \<Rightarrow> ('c NativeConnectorBuilder, anyhow) result" where
  "connector_identity nt builder =
     result_bind (native_identity_build (nt_from_pkcs12 nt) builder) (\<lambda>identity.
       Inr \<lparr>ncb_inner = nt_identity nt identity (nt_new nt)\<rparr>)"

definition connector_anonymous :: "('c, 'i, 'n) native_api \<Rightarrow> 'c NativeConnectorBuilder" where
  "connector_anonymous nt =
     \<lparr>ncb_inner = nt_accept_invalid_hostnames nt True (nt_accept_invalid_certs nt True (nt_new nt))\<rparr>"

definition connector_no_verification ::
  "('c, 'i, 'n) native_api \<Rightarrow> 'c NativeConnectorBuilder \<Rightarrow> 'c NativeConnectorBuilder" where
  "connector_no_verification nt self = \<lparr>ncb_inner = nt_accept_invalid_certs nt True (ncb_inner self)\<rparr>"

definition connector_accept_invalid_hostnames ::
  "('c, 'i, 'n) native_api \<Rightarrow> 'c NativeConnectorBuilder \<Rightarrow> 'c NativeConnectorBuilder" where
  "connector_accept_invalid_hostnames nt self =
     \<lparr>ncb_inner = nt_accept_invalid_hostnames nt True (ncb_inner self)\<rparr>"

definition connector_use_sni ::
  "('c, 'i, 'n) native_api \<Rightarrow> bool \<Rightarrow> 'c NativeConnectorBuilder \<Rightarrow> 'c NativeConnectorBuilder" where
  "connector_use_sni nt use_sni self = \<lparr>ncb_inner = nt_use_sni nt use_sni (ncb_inner self)\<rparr>"

definition connector_add_root_certificate ::
  "('c, 'i, 'n) native_api \<Rightarrow> NativeX509PemBuilder \<Rightarrow> 'c NativeConnectorBuilder \<Rightarrow>
   ('c NativeConnectorBuilder, anyhow) result" where
  "connector_add_root_certificate nt builder self =
     result_bind (native_x509_build_native (nt_cert_from_pem nt) builder) (\<lambda>certificate.
       Inr \<lparr>ncb_inner = nt_add_root nt certificate (ncb_inner self)\<rparr>)"

definition connector_build :: "'c NativeConnectorBuilder \<Rightarrow> 'c" where
  "connector_build self = ncb_inner self"

definition acceptor_identity ::
  "(u8 list \<Rightarrow> string \<Rightarrow> ('i, anyhow) result) \<Rightarrow> NativeIdentityBuilder \<Rightarrow> ('i, anyhow) result" where
  "acceptor_identity from_pkcs12 builder = native_identity_build from_pkcs12 builder"

definition acceptor_build :: "('i \<Rightarrow> ('a, anyhow) result) \<Rightarrow> 'i \<Rightarrow> ('a, anyhow) result" where
  "acceptor_build acceptor_new self = with_context_msg ''invalid cert'' (acceptor_new self)"

section \<open>The trait CertBuilder, interpreted\<close>

interpretation native_x509: cert_builder native_x509_new nx_bytes
  by unfold_locales (simp add: native_x509_new_def)

interpretation native_key: cert_builder native_key_new nk_bytes
  by unfold_locales (simp add: native_key_new_def)

interpretation native_identity: cert_builder native_identity_new ni_bytes
  by unfold_locales (simp add: native_identity_new_def)

section \<open>Sequences of builder calls\<close>

datatype native_op =
    N_No_Cert_Verification | N_Accept_Invalid_Hostnames | N_Use_Sni bool
  | N_Add_Root NativeX509PemBuilder

definition native_step ::
  "('c, 'i, 'n) native_api \<Rightarrow> native_op \<Rightarrow> 'c NativeConnectorBuilder \<Rightarrow>
   ('c NativeConnectorBuilder, anyhow) result" where
  "native_step nt op b =
     (case op of
        N_No_Cert_Verification \<Rightarrow> Inr (connector_no_verification nt b)
      | N_Accept_Invalid_Hostnames \<Rightarrow> Inr (connector_accept_invalid_hostnames nt b)
      | N_Use_Sni u \<Rightarrow> Inr (connector_use_sni nt u b)
      | N_Add_Root x \<Rightarrow> connector_add_root_certificate nt x b)"

fun root_bytes :: "native_op list \<Rightarrow> u8 list list" where
  "root_bytes [] = []"
| "root_bytes (N_Add_Root x # ops) = nx_bytes x # root_bytes ops"
| "root_bytes (_ # ops) = root_bytes ops"

text \<open>
  The settings a connector has, and what is relied on: a new one verifies everything, uses SNI and
  has neither identity nor roots, and each setter changes its own setting.
\<close>

record ('i, 'n) native_settings =
  ns_identity :: "'i option"
  ns_invalid_certs :: bool
  ns_invalid_hostnames :: bool
  ns_sni :: bool
  ns_roots :: "'n list"

definition native_contract ::
  "('c \<Rightarrow> ('i, 'n) native_settings) \<Rightarrow> ('c, 'i, 'n) native_api \<Rightarrow> bool" where
  "native_contract view nt \<longleftrightarrow>
     view (nt_new nt) = \<lparr>ns_identity = None, ns_invalid_certs = False, ns_invalid_hostnames = False,
       ns_sni = True, ns_roots = []\<rparr> \<and>
     (\<forall>i c. view (nt_identity nt i c) = (view c)\<lparr>ns_identity := Some i\<rparr>) \<and>
     (\<forall>b c. view (nt_accept_invalid_certs nt b c) = (view c)\<lparr>ns_invalid_certs := b\<rparr>) \<and>
     (\<forall>b c. view (nt_accept_invalid_hostnames nt b c) = (view c)\<lparr>ns_invalid_hostnames := b\<rparr>) \<and>
     (\<forall>b c. view (nt_use_sni nt b c) = (view c)\<lparr>ns_sni := b\<rparr>) \<and>
     (\<forall>n c. view (nt_add_root nt n c) = (view c)\<lparr>ns_roots := ns_roots (view c) @ [n]\<rparr>)"

text \<open>For the witnesses: a connector that is its settings.\<close>

definition toy_native :: "((nat, u8) native_settings, nat, u8) native_api" where
  "toy_native = \<lparr>nt_new = \<lparr>ns_identity = None, ns_invalid_certs = False, ns_invalid_hostnames = False,
       ns_sni = True, ns_roots = []\<rparr>,
     nt_identity = (\<lambda>i c. c\<lparr>ns_identity := Some i\<rparr>),
     nt_accept_invalid_certs = (\<lambda>b c. c\<lparr>ns_invalid_certs := b\<rparr>),
     nt_accept_invalid_hostnames = (\<lambda>b c. c\<lparr>ns_invalid_hostnames := b\<rparr>),
     nt_use_sni = (\<lambda>b c. c\<lparr>ns_sni := b\<rparr>), nt_add_root = (\<lambda>n c. c\<lparr>ns_roots := ns_roots c @ [n]\<rparr>),
     nt_from_pkcs12 = (\<lambda>bs pw. Inr (length bs)), nt_cert_from_pem = pk_x509_from_pem toy_pkcs\<rparr>"

lemma toy_native_contract: "native_contract (\<lambda>c. c) toy_native"
  by (simp add: native_contract_def toy_native_def)

lemma native_run_settings:
  assumes c: "native_contract view nt" and "try_fold (native_step nt) ops b = Inr b'"
  shows "let old = view (ncb_inner b); new = view (ncb_inner b') in
     ns_identity new = ns_identity old \<and>
     (ns_invalid_certs new \<longleftrightarrow> ns_invalid_certs old \<or> N_No_Cert_Verification \<in> set ops) \<and>
     (ns_invalid_hostnames new \<longleftrightarrow> ns_invalid_hostnames old \<or> N_Accept_Invalid_Hostnames \<in> set ops) \<and>
     (\<exists>roots. ns_roots new = ns_roots old @ roots \<and>
        map (nt_cert_from_pem nt) (root_bytes ops) = map Inr roots)"
  using assms(2)
proof (induction ops arbitrary: b)
  case (Cons op ops)
  then obtain b1 where b1: "native_step nt op b = Inr b1"
    and rest: "try_fold (native_step nt) ops b1 = Inr b'"
    by (auto simp: result_bind_Inr_iff)
  note ih = Cons.IH [OF rest]
  show ?case
  proof (cases op)
    case (N_Add_Root x)
    with b1 obtain r where r: "nt_cert_from_pem nt (nx_bytes x) = Inr r"
      "b1 = \<lparr>ncb_inner = nt_add_root nt r (ncb_inner b)\<rparr>"
      by (auto simp: native_step_def connector_add_root_certificate_def native_x509_build_native_def
          result_bind_Inr_iff)
    with c have "view (ncb_inner b1) = (view (ncb_inner b))\<lparr>ns_roots := ns_roots (view (ncb_inner b)) @ [r]\<rparr>"
      by (simp add: native_contract_def)
    with ih r N_Add_Root show ?thesis by (auto simp: Let_def intro: exI [of _ "r # _"])
  qed (use b1 ih c in \<open>auto simp: native_step_def connector_no_verification_def native_contract_def
      connector_accept_invalid_hostnames_def connector_use_sni_def Let_def\<close>)
qed (simp add: Let_def)

section \<open>Properties\<close>

text \<open>
  C34. Verification is on unless it is switched off by name: a connector built from an identity, after
  any sequence of builder calls that succeeds, accepts invalid certificates exactly when
  \<open>no_cert_verification\<close> was called and invalid host names exactly when
  \<open>danger_accept_invalid_hostnames\<close> was; it has the identity it was given and, in order, the
  certificates that the added roots parse to. The anonymous connector accepts both.
\<close>

theorem native_connector_settings:
  assumes "native_contract view nt" and "connector_identity nt builder = Inr b"
    and "try_fold (native_step nt) ops b = Inr b'"
  shows "(ns_invalid_certs (view (connector_build b')) \<longleftrightarrow> N_No_Cert_Verification \<in> set ops) \<and>
     (ns_invalid_hostnames (view (connector_build b')) \<longleftrightarrow> N_Accept_Invalid_Hostnames \<in> set ops) \<and>
     (\<exists>i. nt_from_pkcs12 nt (ni_bytes builder) ''test'' = Inr i \<and>
        ns_identity (view (connector_build b')) = Some i) \<and>
     map (nt_cert_from_pem nt) (root_bytes ops) = map Inr (ns_roots (view (connector_build b'))) \<and>
     ns_invalid_certs (view (connector_build (connector_anonymous nt))) \<and>
     ns_invalid_hostnames (view (connector_build (connector_anonymous nt)))"
proof -
  from assms(2) obtain i where i: "nt_from_pkcs12 nt (ni_bytes builder) ''test'' = Inr i"
    "b = \<lparr>ncb_inner = nt_identity nt i (nt_new nt)\<rparr>"
    by (auto simp: connector_identity_def native_identity_build_def NATIVE_PASSWORD_def
        result_bind_Inr_iff)
  with native_run_settings [OF assms(1,3)] assms(1) show ?thesis
    by (auto simp: native_contract_def connector_build_def connector_anonymous_def Let_def)
qed

theorem native_connector_settings_witness:
  "\<exists>b'. try_fold (native_step toy_native) [N_Add_Root \<lparr>nx_bytes = [5]\<rparr>, N_Use_Sni False]
       \<lparr>ncb_inner = nt_identity toy_native 1 (nt_new toy_native)\<rparr> = Inr b' \<and>
     \<not> ns_invalid_certs (connector_build b') \<and> ns_roots (connector_build b') = [5]"
proof -
  let ?b = "\<lparr>ncb_inner = nt_identity toy_native 1 (nt_new toy_native)\<rparr>"
  let ?ops = "[N_Add_Root \<lparr>nx_bytes = [5]\<rparr>, N_Use_Sni False]"
  have i: "connector_identity toy_native \<lparr>ni_bytes = [1]\<rparr> = Inr ?b"
    by (simp add: connector_identity_def native_identity_build_def with_context_msg_def toy_native_def)
  obtain b' where r: "try_fold (native_step toy_native) ?ops ?b = Inr b'"
    by (simp add: native_step_def connector_add_root_certificate_def native_x509_build_native_def
        toy_pkcs_def toy_native_def with_context_msg_def connector_use_sni_def)
  from native_connector_settings [OF toy_native_contract i r] r show ?thesis
    by (auto simp: toy_native_def toy_pkcs_def Cons_eq_map_conv)
qed

end
