(* ===== verification/Wakeups.thy ===== *)
theory Wakeups
  imports Openssl_Stream
begin

text \<open>
  Wake-ups of tasks that use the TLS stream of \<open>src/src/openssl/\<close>. A task that gets \<open>Pending\<close> is run
  again only if its context was handed to something that will wake it. Here the context does not go
  down as an argument: it is stored in the adapter as a number while the synchronous library runs,
  and \<open>Pending\<close> comes back as an error. The lemmas show that the context of the poll reaches the inner
  stream whenever the answer is \<open>Pending\<close>, so that no wake-up is lost on this way.
\<close>

section \<open>What is relied on\<close>

text \<open>
  The inner stream: a poll that answers \<open>Pending\<close> leaves the stream waiting for the given task, and
  \<open>WouldBlock\<close> is not used as an error.
\<close>

definition wakes_answer :: "('s \<Rightarrow> usize \<Rightarrow> bool) \<Rightarrow> usize \<Rightarrow> ('a, io_error) result poll \<Rightarrow> 's \<Rightarrow> bool" where
  "wakes_answer waits cx r s =
     (case r of
        Pending \<Rightarrow> waits s cx
      | Ready (Inl e) \<Rightarrow> kind e \<noteq> WouldBlock
      | Ready (Inr _) \<Rightarrow> True)"

definition wakes_contract :: "('s \<Rightarrow> usize \<Rightarrow> bool) \<Rightarrow> 's async_stream \<Rightarrow> bool" where
  "wakes_contract waits st \<longleftrightarrow>
     (\<forall>cx buf s. case st_poll_read st cx buf s of (r, _, s') \<Rightarrow> wakes_answer waits cx r s') \<and>
     (\<forall>cx buf s. case st_poll_write st cx buf s of (r, s') \<Rightarrow> wakes_answer waits cx r s') \<and>
     (\<forall>cx s. case st_poll_flush st cx s of (r, s') \<Rightarrow> wakes_answer waits cx r s')"

text \<open>A call on the adapter that reports that it would block.\<close>

definition is_block :: "('a, io_error) result \<Rightarrow> bool" where
  "is_block r = (case r of Inl e \<Rightarrow> kind e = WouldBlock | Inr _ \<Rightarrow> False)"

fun call_blocks :: "'s async_stream \<Rightarrow> io_call \<Rightarrow> 's AsyncToSyncWrapper \<Rightarrow> bool" where
  "call_blocks st (Call_Read buf) w =
     (case fst (wrapper_read st buf w) of Panicked \<Rightarrow> False | Returned (r, b) \<Rightarrow> is_block r)"
| "call_blocks st (Call_Write buf) w =
     (case fst (wrapper_write st buf w) of Panicked \<Rightarrow> False | Returned r \<Rightarrow> is_block r)"
| "call_blocks st Call_Flush w =
     (case fst (wrapper_flush st w) of Panicked \<Rightarrow> False | Returned r \<Rightarrow> is_block r)"

text \<open>
  The library reports \<open>WouldBlock\<close> only because the adapter did: the last call it made on the adapter
  reported it.
\<close>

definition blocked_at :: "'s async_stream \<Rightarrow> 's AsyncToSyncWrapper \<Rightarrow> 's AsyncToSyncWrapper \<Rightarrow> bool" where
  "blocked_at st w w' \<longleftrightarrow>
     (\<exists>cs c. call_blocks st c (snd (io_run (wrapper_call st) cs w)) \<and>
        w' = snd (wrapper_call st c (snd (io_run (wrapper_call st) cs w))))"

definition handshake_blocks ::
  "'s async_stream \<Rightarrow> 's AsyncToSyncWrapper \<Rightarrow>
   (('s, 'e) SslStream, ('s, 'e) HandshakeError) result exec \<Rightarrow> bool" where
  "handshake_blocks st w a =
     (\<forall>m. a = Returned (Inl (Hs_WouldBlock m)) \<longrightarrow> blocked_at st w (ssl_io m))"

definition blocking_contract :: "'s async_stream \<Rightarrow> ('s, 'e) ssl_api \<Rightarrow> bool" where
  "blocking_contract st api \<longleftrightarrow>
     (\<forall>buf s r b s'. ssl_read api buf s = (Returned (r, b), s') \<longrightarrow> is_block r \<longrightarrow>
        blocked_at st (ssl_io s) (ssl_io s')) \<and>
     (\<forall>buf s r s'. ssl_write api buf s = (Returned r, s') \<longrightarrow> is_block r \<longrightarrow>
        blocked_at st (ssl_io s) (ssl_io s')) \<and>
     (\<forall>s r s'. ssl_flush api s = (Returned r, s') \<longrightarrow> is_block r \<longrightarrow>
        blocked_at st (ssl_io s) (ssl_io s')) \<and>
     (\<forall>s. handshake_blocks st (ssl_io s) (ssl_handshake api s))"

section \<open>Lemmas\<close>

lemma wrapper_with_context_Returned:
  assumes "wrapper_with_context f w = (Returned r, w')"
  shows "f (wr_context w) (wr_inner w) = (r, wr_inner w')"
  using assms by (auto simp: wrapper_with_context_def split: if_splits prod.splits)

lemma wakes_contractD:
  assumes "wakes_contract waits st"
  shows "st_poll_read st cx buf s = (r, b, s') \<Longrightarrow> wakes_answer waits cx r s'"
    and "st_poll_write st cx buf s = (r', s') \<Longrightarrow> wakes_answer waits cx r' s'"
    and "st_poll_flush st cx s = (r'', s') \<Longrightarrow> wakes_answer waits cx r'' s'"
  using assms [unfolded wakes_contract_def, THEN conjunct1, rule_format, of cx buf s]
    assms [unfolded wakes_contract_def, THEN conjunct2, THEN conjunct1, rule_format, of cx buf s]
    assms [unfolded wakes_contract_def, THEN conjunct2, THEN conjunct2, rule_format, of cx s]
  by simp_all

lemma call_blocks_waits:
  assumes c: "wakes_contract waits st" and "call_blocks st c w"
  shows "waits (wr_inner (snd (wrapper_call st c w))) (wr_context w)"
proof (cases c)
  case (Call_Read buf)
  obtain q w' where q: "wrapper_read st buf w = (q, w')" by fastforce
  obtain r b s where p: "st_poll_read st (wr_context w) buf (wr_inner w) = (r, b, s)" by (metis prod_cases3)
  have "wakes_answer waits (wr_context w) r s" using p by (rule wakes_contractD [OF c])
  with assms(2) Call_Read q p show ?thesis
    by (auto simp: wrapper_call_def wrapper_read_def wrapper_with_context_def wakes_answer_def is_block_def
        split: if_splits poll.splits sum.splits)
next
  case (Call_Write buf)
  obtain r s where p: "st_poll_write st (wr_context w) buf (wr_inner w) = (r, s)" by fastforce
  have "wakes_answer waits (wr_context w) r s" using p by (rule wakes_contractD [OF c])
  with assms(2) Call_Write p show ?thesis
    by (auto simp: wrapper_call_def wrapper_write_def wrapper_with_context_def wakes_answer_def is_block_def
        split: if_splits poll.splits sum.splits)
next
  case Call_Flush
  obtain r s where p: "st_poll_flush st (wr_context w) (wr_inner w) = (r, s)" by fastforce
  have "wakes_answer waits (wr_context w) r s" using p by (rule wakes_contractD [OF c])
  with assms(2) Call_Flush p show ?thesis
    by (auto simp: wrapper_call_def wrapper_flush_def wrapper_with_context_def wakes_answer_def is_block_def
        split: if_splits poll.splits sum.splits)
qed

lemma blocked_at_waits:
  assumes "wakes_contract waits st" and "blocked_at st w w'"
  shows "waits (wr_inner w') (wr_context w)"
  using assms call_blocks_waits [OF assms(1)] wrapper.run_keeps [of st _ w]
  unfolding blocked_at_def by metis

lemma result_to_poll_Pending: "result_to_poll r = Pending \<longleftrightarrow> is_block r"
  by (auto simp: result_to_poll_def is_block_def split: sum.split)

lemma tls_with_context_waits:
  assumes "wakes_contract waits st"
    and "\<And>s r d s'. f s = (Returned (r, d), s') \<Longrightarrow> is_block r \<Longrightarrow> blocked_at st (ssl_io s) (ssl_io s')"
    and "tls_with_context cx f self = (Returned (Pending, d), self')"
  shows "waits (wr_inner (ssl_io (tls self'))) cx"
proof -
  from assms(3) obtain w r s w' where w: "set_context cx (ssl_io (tls self)) = Returned w"
    and f: "f ((tls self)\<lparr>ssl_io := w\<rparr>) = (Returned (r, d), s)" and r: "result_to_poll r = Pending"
    and u: "unset_context (ssl_io s) = Returned w'" and self': "self' = self\<lparr>tls := s\<lparr>ssl_io := w'\<rparr>\<rparr>"
    by (auto simp: tls_with_context_def split: exec.splits prod.splits)
  from assms(2) [OF f] r have "blocked_at st w (ssl_io s)" by (simp add: result_to_poll_Pending)
  from blocked_at_waits [OF assms(1) this] w u self' show ?thesis
    by (auto simp: set_context_def unset_context_def split: if_splits)
qed

lemma no_data_Returned: "no_data p = (Returned (r, d), z) \<longleftrightarrow> p = (Returned r, z)"
  by (cases p; cases "fst p") (auto simp: no_data_def)

lemma handshake_arm_waits:
  assumes "wakes_contract waits st" and "handshake_blocks st w a"
    and "handshake_arm a = (Returned Pending, fut)"
  shows "\<exists>m. fut = Hs_MidHandshake m \<and> waits (wr_inner (ssl_io m)) (wr_context w)"
proof -
  from assms(3) obtain m w' where a: "a = Returned (Inl (Hs_WouldBlock m))"
    and u: "unset_context (ssl_io m) = Returned w'" and fut: "fut = Hs_MidHandshake (m\<lparr>ssl_io := w'\<rparr>)"
    by (auto simp: handshake_arm_def split: exec.splits sum.splits HandshakeError.splits)
  from assms(2) a have "blocked_at st w (ssl_io m)" by (simp add: handshake_blocks_def)
  from blocked_at_waits [OF assms(1) this] u fut show ?thesis
    by (auto simp: unset_context_def split: if_splits)
qed

section \<open>Properties\<close>

text \<open>For the witness: a stream that is ready for writing at every second poll and keeps its waker.\<close>

definition waker_stream :: "(bool \<times> usize) async_stream" where
  "waker_stream = \<lparr>st_poll_read = (\<lambda>cx buf (b, _). (Pending, buf, (b, cx))),
     st_poll_write = (\<lambda>cx buf (b, wk). if b then (Ready (Inr (of_nat (length buf))), (False, wk)) else (Pending, (True, cx))),
     st_poll_flush = (\<lambda>_ s. (Ready (Inr ()), s))\<rparr>"

lemma waker_stream_wakes: "wakes_contract (\<lambda>s cx. snd s = cx) waker_stream"
  by (auto simp: wakes_contract_def wakes_answer_def waker_stream_def)

lemma blocked_at_call:
  assumes "call_blocks st c w" and "w' = snd (wrapper_call st c w)"
  shows "blocked_at st w w'"
  unfolding blocked_at_def using assms by (intro exI [of _ "[]"] exI [of _ c]) simp

lemma plain_waker_blocks: "blocking_contract waker_stream (plain_ssl waker_stream)"
  unfolding blocking_contract_def
proof (intro conjI allI impI)
  fix buf s r b and s' :: "(bool \<times> usize, nat) SslStream"
  assume "ssl_read (plain_ssl waker_stream) buf s = (Returned (r, b), s')" "is_block r"
  then show "blocked_at waker_stream (ssl_io s) (ssl_io s')"
    by (intro blocked_at_call [of _ "Call_Read buf"])
      (auto simp: plain_ssl_def wrapper_call_def apsnd_def map_prod_def split: prod.splits)
next
  fix buf s r and s' :: "(bool \<times> usize, nat) SslStream"
  assume "ssl_write (plain_ssl waker_stream) buf s = (Returned r, s')" "is_block r"
  then show "blocked_at waker_stream (ssl_io s) (ssl_io s')"
    by (intro blocked_at_call [of _ "Call_Write buf"])
      (auto simp: plain_ssl_def wrapper_call_def apsnd_def map_prod_def split: prod.splits)
next
  fix s r and s' :: "(bool \<times> usize, nat) SslStream"
  assume "ssl_flush (plain_ssl waker_stream) s = (Returned r, s')" "is_block r"
  then show "blocked_at waker_stream (ssl_io s) (ssl_io s')"
    by (intro blocked_at_call [of _ Call_Flush])
      (auto simp: plain_ssl_def wrapper_call_def apsnd_def map_prod_def split: prod.splits)
next
  fix s :: "(bool \<times> usize, nat) SslStream"
  show "handshake_blocks waker_stream (ssl_io s) (ssl_handshake (plain_ssl waker_stream) s)"
    unfolding handshake_blocks_def
  proof (intro allI impI)
    fix m
    assume "ssl_handshake (plain_ssl waker_stream) s = Returned (Inl (Hs_WouldBlock m))"
    then show "blocked_at waker_stream (ssl_io s) (ssl_io m)"
      by (intro blocked_at_call [of _ "Call_Write [0]"])
        (auto simp: plain_ssl_def wrapper_call_def wrapper_write_def wrapper_with_context_def waker_stream_def
          is_block_def would_block_def split: prod.splits exec.splits sum.splits if_splits)
  qed
qed

text \<open>
  C16. No wake-up is lost on the way through the synchronous library: a read, write or flush of the TLS
  stream, or a poll of the handshake, that answers \<open>Pending\<close> leaves the inner stream waiting for the
  very task that polled.
\<close>

theorem tls_pending_is_woken:
  assumes "wakes_contract waits st" and "blocking_contract st api"
  shows "(tls_poll_read api cx buf self = (Returned (Pending, d), self') \<longrightarrow>
       waits (wr_inner (ssl_io (tls self'))) cx) \<and>
     (tls_poll_write api cx buf self = (Returned (Pending, u), self') \<longrightarrow>
       waits (wr_inner (ssl_io (tls self'))) cx) \<and>
     (tls_poll_flush api cx self = (Returned (Pending, u), self') \<longrightarrow>
       waits (wr_inner (ssl_io (tls self'))) cx) \<and>
     ((\<forall>f w. fut = Hs_Initial f w \<longrightarrow> (\<forall>v. handshake_blocks st v (f v))) \<longrightarrow>
       handshake_poll api cx fut = (Returned Pending, fut') \<longrightarrow>
       (\<exists>m. fut' = Hs_MidHandshake m \<and> waits (wr_inner (ssl_io m)) cx))"
proof (intro conjI impI)
  assume "tls_poll_read api cx buf self = (Returned (Pending, d), self')"
  from tls_with_context_waits [OF assms(1) _ this [unfolded tls_poll_read_def]] assms(2)
  show "waits (wr_inner (ssl_io (tls self'))) cx" by (auto simp: blocking_contract_def)
next
  assume "tls_poll_write api cx buf self = (Returned (Pending, u), self')"
  from tls_with_context_waits [OF assms(1) _ this [unfolded tls_poll_write_def]] assms(2)
  show "waits (wr_inner (ssl_io (tls self'))) cx" by (auto simp: blocking_contract_def no_data_Returned)
next
  assume "tls_poll_flush api cx self = (Returned (Pending, u), self')"
  from tls_with_context_waits [OF assms(1) _ this [unfolded tls_poll_flush_def]] assms(2)
  show "waits (wr_inner (ssl_io (tls self'))) cx" by (auto simp: blocking_contract_def no_data_Returned)
next
  assume init: "\<forall>f w. fut = Hs_Initial f w \<longrightarrow> (\<forall>v. handshake_blocks st v (f v))"
    and p: "handshake_poll api cx fut = (Returned Pending, fut')"
  show "\<exists>m. fut' = Hs_MidHandshake m \<and> waits (wr_inner (ssl_io m)) cx"
  proof (cases fut)
    case (Hs_Initial f w)
    with p obtain w1 where "set_context cx w = Returned w1" "handshake_arm (f w1) = (Returned Pending, fut')"
      by (auto simp: handshake_poll_def split: exec.splits)
    with handshake_arm_waits [OF assms(1), of w1 "f w1"] init Hs_Initial show ?thesis
      by (auto simp: set_context_def split: if_splits)
  next
    case (Hs_MidHandshake m)
    with p obtain w1 where w1: "set_context cx (ssl_io m) = Returned w1"
      "handshake_arm (ssl_handshake api (m\<lparr>ssl_io := w1\<rparr>)) = (Returned Pending, fut')"
      by (auto simp: handshake_poll_def split: exec.splits)
    have "handshake_blocks st (ssl_io (m\<lparr>ssl_io := w1\<rparr>)) (ssl_handshake api (m\<lparr>ssl_io := w1\<rparr>))"
      using assms(2) by (simp only: blocking_contract_def)
    with handshake_arm_waits [OF assms(1), of w1] w1 show ?thesis
      by (auto simp: set_context_def split: if_splits)
  qed (use p in \<open>simp add: handshake_poll_def\<close>)
qed

theorem tls_pending_is_woken_witness:
  "\<exists>self'. tls_poll_write (plain_ssl waker_stream) 7 [1]
       \<lparr>tls = \<lparr>ssl_engine = 0, ssl_io = wrapper_new (False, 0)\<rparr>\<rparr> = (Returned (Pending, ()), self') \<and>
     snd (wr_inner (ssl_io (tls self'))) = 7"
proof -
  let ?self = "\<lparr>tls = \<lparr>ssl_engine = 0 :: nat, ssl_io = wrapper_new (False, 0)\<rparr>\<rparr>"
  obtain r self' where p: "tls_poll_write (plain_ssl waker_stream) 7 [1] ?self = (r, self')" by fastforce
  then have "r = Returned (Pending, ())"
    by (auto simp: tls_poll_write_def tls_with_context_def set_context_def unset_context_def wrapper_new_def
        plain_ssl_def wrapper_write_def wrapper_with_context_def waker_stream_def no_data_def
        result_to_poll_def would_block_def)
  with p tls_pending_is_woken [OF waker_stream_wakes plain_waker_blocks, of 7 "[1]" ?self _ self' "()"]
  show ?thesis by simp
qed

end
