(* ===== verification/Crate_Root.thy ===== *)
theory Crate_Root
  imports Main
begin

text \<open>
  \<open>src/src/lib.rs\<close>: which modules a build of the crate has, given the target and the features that were
  selected, together with the features that others switch on (\<open>src/Cargo.toml\<close>) and the modules that
  each module names in its source. The conditions on the target are independent flags: a target can be
  both \<open>unix\<close> and \<open>wasm32\<close> (\<open>wasm32-unknown-emscripten\<close>), or neither \<open>unix\<close> nor \<open>windows\<close>. The lemmas say which selections give a crate whose modules find
  each other, and when there is a module \<open>tls\<close>.
\<close>

section \<open>Features and targets\<close>

datatype feature =
    F_task | F_subscriber | F_fixture | F_future | F_io | F_net | F_tls | F_rust_tls | F_native_tls
  | F_openssl_tls | F_timer | F_fs | F_zero_copy | F_mmap | F_retry | F_doomsday | F_attributes
  | Dep_derive

text \<open>
  The table of features: what each of them switches on. Of the optional dependencies only the one on
  \<open>fluvio-future-derive\<close> is kept, since the root of the crate names it.
\<close>

fun implied :: "feature \<Rightarrow> feature list" where
  "implied F_task = [F_timer]"
| "implied F_fixture = [F_subscriber, F_task, Dep_derive]"
| "implied F_tls = [F_rust_tls]"
| "implied F_rust_tls = [F_net]"
| "implied F_native_tls = [F_net]"
| "implied F_openssl_tls = [F_net]"
| "implied F_zero_copy = [F_task]"
| "implied F_mmap = [F_fs, F_task]"
| "implied F_retry = [F_timer]"
| "implied F_doomsday = [F_task]"
| "implied _ = []"

text \<open>A selection closed under the table; every build has one.\<close>

definition closed_selection :: "feature list \<Rightarrow> bool" where
  "closed_selection fs = list_all (\<lambda>f. list_all (\<lambda>g. g \<in> set fs) (implied f)) fs"

text \<open>The conditions on the target that the sources test.\<close>

record platform =
  cfg_unix :: bool
  cfg_windows :: bool
  cfg_wasm32 :: bool

section \<open>Modules\<close>

text \<open>
  A build outside of \<open>cargo test\<close>: a gate of the form \<open>cfg(any(test, ..))\<close> is the rest of its condition.
\<close>

datatype crate_module =
    M_file_slice | M_fs | M_mmap | M_io | M_task | M_timer | M_retry | M_test_util | M_derive_tests
  | M_zero_copy | M_net | M_async_net | M_connection_fd | M_default_connector | M_websocket_connector
  | M_tcp_stream | M_certs | M_rust_tls | M_native_tls | M_tls | M_openssl | M_future
  | M_subscriber | M_doomsday | M_main_async | M_spawn_blocking

fun module_built :: "platform \<Rightarrow> feature list \<Rightarrow> crate_module \<Rightarrow> bool" where
  "module_built p fs M_file_slice \<longleftrightarrow> cfg_unix p"
| "module_built p fs M_fs \<longleftrightarrow> F_fs \<in> set fs \<and> \<not> cfg_wasm32 p"
| "module_built p fs M_mmap \<longleftrightarrow> F_fs \<in> set fs \<and> \<not> cfg_wasm32 p \<and> F_mmap \<in> set fs"
| "module_built p fs M_io \<longleftrightarrow> F_io \<in> set fs \<and> \<not> cfg_wasm32 p"
| "module_built p fs M_task \<longleftrightarrow> F_task \<in> set fs"
| "module_built p fs M_spawn_blocking \<longleftrightarrow> F_task \<in> set fs \<and> \<not> cfg_wasm32 p"
| "module_built p fs M_timer \<longleftrightarrow> F_timer \<in> set fs"
| "module_built p fs M_retry \<longleftrightarrow> F_retry \<in> set fs"
| "module_built p fs M_test_util \<longleftrightarrow> F_fixture \<in> set fs"
| "module_built p fs M_derive_tests \<longleftrightarrow> F_fixture \<in> set fs"
| "module_built p fs M_zero_copy \<longleftrightarrow> cfg_unix p \<and> F_zero_copy \<in> set fs"
| "module_built p fs M_net \<longleftrightarrow> F_net \<in> set fs"
| "module_built p fs M_async_net \<longleftrightarrow> F_net \<in> set fs \<and> \<not> cfg_wasm32 p"
| "module_built p fs M_connection_fd \<longleftrightarrow> F_net \<in> set fs \<and> (cfg_unix p \<or> cfg_windows p)"
| "module_built p fs M_default_connector \<longleftrightarrow> F_net \<in> set fs \<and> \<not> cfg_wasm32 p"
| "module_built p fs M_websocket_connector \<longleftrightarrow> F_net \<in> set fs \<and> cfg_wasm32 p"
| "module_built p fs M_tcp_stream \<longleftrightarrow> F_net \<in> set fs \<and> \<not> cfg_wasm32 p"
| "module_built p fs M_certs \<longleftrightarrow> F_net \<in> set fs \<and> \<not> cfg_wasm32 p"
| "module_built p fs M_rust_tls \<longleftrightarrow> (cfg_unix p \<or> cfg_windows p) \<and> F_rust_tls \<in> set fs"
| "module_built p fs M_native_tls \<longleftrightarrow> (cfg_unix p \<or> cfg_windows p) \<and> F_native_tls \<in> set fs"
| "module_built p fs M_tls \<longleftrightarrow>
     ((cfg_unix p \<or> cfg_windows p) \<and> F_rust_tls \<in> set fs \<and> F_native_tls \<notin> set fs) \<or>
     ((cfg_unix p \<or> cfg_windows p) \<and> F_native_tls \<in> set fs \<and> F_rust_tls \<notin> set fs)"
| "module_built p fs M_openssl \<longleftrightarrow> F_openssl_tls \<in> set fs \<and> \<not> cfg_wasm32 p"
| "module_built p fs M_future \<longleftrightarrow> F_future \<in> set fs"
| "module_built p fs M_subscriber \<longleftrightarrow> F_subscriber \<in> set fs"
| "module_built p fs M_doomsday \<longleftrightarrow> F_doomsday \<in> set fs \<and> \<not> cfg_wasm32 p"
| "module_built p fs M_main_async \<longleftrightarrow> F_attributes \<in> set fs"

section \<open>What the modules name\<close>

text \<open>
  The paths of the crate in the \<open>use\<close> declarations and bodies of the modules, outside of their tests.
  \<open>M_spawn_blocking\<close> stands for the item of that name of module \<open>task\<close>; \<open>M_async_net\<close> for the re-export of
  the package with \<open>TcpStream\<close>, \<open>M_connection_fd\<close> for the trait \<open>AsConnectionFd\<close> with its instance, and the two
  connectors for the modules of \<open>net\<close> that hold them; \<open>M_derive_tests\<close> and \<open>M_main_async\<close> for the re-exports of the
  macro package.
\<close>

definition task_uses :: "crate_module list" where "task_uses = [M_timer]"
definition retry_uses :: "crate_module list" where "retry_uses = [M_timer]"
definition future_uses :: "crate_module list" where "future_uses = [M_timer]"
definition zero_copy_uses :: "crate_module list" where "zero_copy_uses = [M_spawn_blocking, M_file_slice]"
definition mmap_uses :: "crate_module list" where "mmap_uses = [M_spawn_blocking]"
definition doomsday_uses :: "crate_module list" where "doomsday_uses = [M_task, M_timer]"
definition connection_fd_uses :: "crate_module list" where "connection_fd_uses = [M_async_net]"
definition tcp_stream_uses :: "crate_module list" where "tcp_stream_uses = [M_async_net]"
definition default_connector_uses :: "crate_module list" where
  "default_connector_uses = [M_tcp_stream, M_async_net, M_connection_fd]"
definition rust_tls_uses :: "crate_module list" where
  "rust_tls_uses = [M_net, M_async_net, M_connection_fd, M_tcp_stream]"
definition native_tls_uses :: "crate_module list" where
  "native_tls_uses = [M_net, M_async_net, M_certs, M_connection_fd, M_tcp_stream]"
definition openssl_uses :: "crate_module list" where
  "openssl_uses = [M_net, M_connection_fd, M_tcp_stream, M_certs]"

definition module_uses :: "crate_module \<Rightarrow> crate_module list" where
  "module_uses m = (case m of
      M_task \<Rightarrow> task_uses | M_retry \<Rightarrow> retry_uses | M_future \<Rightarrow> future_uses
    | M_zero_copy \<Rightarrow> zero_copy_uses | M_mmap \<Rightarrow> mmap_uses | M_doomsday \<Rightarrow> doomsday_uses
    | M_connection_fd \<Rightarrow> connection_fd_uses | M_tcp_stream \<Rightarrow> tcp_stream_uses
    | M_default_connector \<Rightarrow> default_connector_uses
    | M_rust_tls \<Rightarrow> rust_tls_uses | M_native_tls \<Rightarrow> native_tls_uses | M_openssl \<Rightarrow> openssl_uses
    | _ \<Rightarrow> [])"

text \<open>
  The connector over web sockets returns the address as the descriptor of a connection, which is a
  \<open>String\<close> only where the target is neither \<open>unix\<close> nor \<open>windows\<close>.
\<close>

fun connection_fd_typed :: "platform \<Rightarrow> crate_module \<Rightarrow> bool" where
  "connection_fd_typed p M_websocket_connector \<longleftrightarrow> \<not> (cfg_unix p \<or> cfg_windows p)"
| "connection_fd_typed p _ \<longleftrightarrow> True"

text \<open>The re-exports of the root need the macro package.\<close>

fun needs_derive :: "crate_module \<Rightarrow> bool" where
  "needs_derive M_derive_tests = True"
| "needs_derive M_main_async = True"
| "needs_derive _ = False"

definition module_links :: "platform \<Rightarrow> feature list \<Rightarrow> crate_module \<Rightarrow> bool" where
  "module_links p fs m \<longleftrightarrow> list_all (module_built p fs) (module_uses m) \<and>
     (needs_derive m \<longrightarrow> Dep_derive \<in> set fs) \<and> connection_fd_typed p m"

section \<open>Lemmas\<close>

lemmas module_uses_defs = module_uses_def task_uses_def retry_uses_def future_uses_def zero_copy_uses_def
  mmap_uses_def doomsday_uses_def connection_fd_uses_def tcp_stream_uses_def default_connector_uses_def rust_tls_uses_def native_tls_uses_def openssl_uses_def

lemma closed_selectionD:
  "closed_selection fs \<Longrightarrow> f \<in> set fs \<Longrightarrow> g \<in> set (implied f) \<Longrightarrow> g \<in> set fs"
  by (auto simp: closed_selection_def list_all_iff)

lemma closed_features:
  assumes "closed_selection fs"
  shows "F_task \<in> set fs \<Longrightarrow> F_timer \<in> set fs" "F_retry \<in> set fs \<Longrightarrow> F_timer \<in> set fs"
    "F_zero_copy \<in> set fs \<Longrightarrow> F_task \<in> set fs" "F_mmap \<in> set fs \<Longrightarrow> F_task \<in> set fs"
    "F_doomsday \<in> set fs \<Longrightarrow> F_task \<in> set fs" "F_rust_tls \<in> set fs \<Longrightarrow> F_net \<in> set fs"
    "F_native_tls \<in> set fs \<Longrightarrow> F_net \<in> set fs" "F_openssl_tls \<in> set fs \<Longrightarrow> F_net \<in> set fs"
    "F_fixture \<in> set fs \<Longrightarrow> Dep_derive \<in> set fs" "F_tls \<in> set fs \<Longrightarrow> F_rust_tls \<in> set fs"
  by (rule closed_selectionD [OF assms], assumption, simp)+

section \<open>Properties\<close>

text \<open>
  C28. In a build with any selection of features, on a target with any conditions, a module that is
  compiled finds what it names, with four exceptions: \<open>future\<close> without \<open>timer\<close>; the re-export of
  \<open>main_async\<close> when the macro package is not a dependency; on a \<open>wasm32\<close> target that is \<open>unix\<close> or \<open>windows\<close> as well, the
  zero-copy and TLS modules, the trait \<open>AsConnectionFd\<close> and the web socket connector; and on a target that is none of the three,
  the default connector and \<open>openssl\<close>. So all modules link on a \<open>unix\<close> or \<open>windows\<close> target that is not
  \<open>wasm32\<close> and on a bare \<open>wasm32\<close> one, but for the first two. The feature \<open>tls\<close> gives a module \<open>tls\<close> exactly
  when the target is \<open>unix\<close> or \<open>windows\<close> and \<open>native_tls\<close> is not selected as well.
\<close>

theorem crate_modules_link:
  assumes "closed_selection fs" and "module_built p fs m"
  shows "(module_links p fs m \<longleftrightarrow>
       \<not> (m = M_future \<and> F_timer \<notin> set fs) \<and> \<not> (m = M_main_async \<and> Dep_derive \<notin> set fs) \<and>
       \<not> (cfg_wasm32 p \<and> (cfg_unix p \<or> cfg_windows p) \<and>
          m \<in> {M_zero_copy, M_rust_tls, M_native_tls, M_connection_fd, M_websocket_connector}) \<and>
       \<not> (\<not> cfg_wasm32 p \<and> \<not> cfg_unix p \<and> \<not> cfg_windows p \<and> m \<in> {M_default_connector, M_openssl})) \<and>
     (F_tls \<in> set fs \<longrightarrow>
        (module_built p fs M_tls \<longleftrightarrow> (cfg_unix p \<or> cfg_windows p) \<and> F_native_tls \<notin> set fs))"
  using assms(2) closed_features [OF assms(1)]
  by (cases m) (auto simp: module_links_def module_uses_defs)

theorem crate_modules_link_witness:
  "\<not> module_links \<lparr>cfg_unix = True, cfg_windows = False, cfg_wasm32 = False\<rparr> [F_future] M_future \<and>
   \<not> module_links \<lparr>cfg_unix = True, cfg_windows = False, cfg_wasm32 = True\<rparr> [F_rust_tls, F_net] M_rust_tls \<and>
   module_links \<lparr>cfg_unix = True, cfg_windows = False, cfg_wasm32 = False\<rparr> [F_mmap, F_fs, F_task, F_timer] M_mmap"
  using crate_modules_link [of "[F_future]" "\<lparr>cfg_unix = True, cfg_windows = False, cfg_wasm32 = False\<rparr>" M_future]
    crate_modules_link [of "[F_rust_tls, F_net]" "\<lparr>cfg_unix = True, cfg_windows = False, cfg_wasm32 = True\<rparr>" M_rust_tls]
    crate_modules_link [of "[F_mmap, F_fs, F_task, F_timer]"
      "\<lparr>cfg_unix = True, cfg_windows = False, cfg_wasm32 = False\<rparr>" M_mmap]
  by (simp add: closed_selection_def)

end
