(* ===== verification/Exchange.thy ===== *)
theory Exchange
  imports Rust_Time
begin

text \<open>
  The asynchronous blocks \<open>client_ft\<close> and \<open>server_ft\<close> of the connection tests
  (\<open>src/src/openssl/test.rs\<close>, \<open>src/src/rust_tls.rs\<close>, \<open>src/src/native_tls.rs\<close>,
  \<open>src/src/net/tcp_stream.rs\<close>, \<open>src/src/net/mod.rs\<close>) as trees of what they await, and the part of a
  run in which two of them, joined with \<open>zip\<close>, talk over one connection. A framed stream with the
  plain bytes codec yields what a read of the connection gives, and what that is of the bytes in
  flight is a parameter. The lemmas show that an exchange with replies goes through its four places
  per round in step, whatever the interleaving. How the tests come to a connection is in
  \<open>Connection_Tests\<close>.
\<close>

section \<open>Tasks and connections\<close>

text \<open>
  A block that has returned \<open>Ok\<close> or \<open>Err\<close>, or the future that it awaits and the code after it:
  \<open>sleep(..)\<close> before its first poll and with its deadline, \<open>TcpListener::bind\<close>,
  \<open>incoming.next()\<close>, \<open>stream(&addr)\<close> and the handshake of either side with the outcome, \<open>framed.send\<close>
  with its outcome and \<open>framed.next\<close> with what it yields: a frame, an error, or the end of the stream. The
  code after it panics (\<open>None\<close>) when an \<open>expect\<close> or an assertion fails.
\<close>

datatype frame = Frame "u8 list" | Frame_Error | Frame_End

datatype task =
    Finished
  | Failed
  | Sleep_Then Duration task
  | Sleeping Instant task
  | Bind_Then "bool \<Rightarrow> task option"
  | Incoming_Then "bool \<Rightarrow> task option"
  | Connect_Then "bool \<Rightarrow> task option"
  | Tls_Then "bool \<Rightarrow> task option"
  | Send_Then "u8 list" "bool \<Rightarrow> task option"
  | Next_Then "frame \<Rightarrow> task option"

text \<open>\<open>.expect(..)\<close> and \<open>?\<close> on the outcome of an awaited operation.\<close>

definition expect_ok :: "task \<Rightarrow> bool \<Rightarrow> task option" where
  "expect_ok k ok = (if ok then Some k else None)"

definition try_ok :: "task \<Rightarrow> bool \<Rightarrow> task option" where
  "try_ok k ok = Some (if ok then k else Failed)"

text \<open>Both tasks, the client at \<open>True\<close>, and the bytes in flight to each of them.\<close>

record exchange =
  tasks :: "bool \<Rightarrow> task option"
  inbox :: "bool \<Rightarrow> u8 list"

text \<open>A block that is over has dropped its stream and its listener.\<close>

definition over :: "task option \<Rightarrow> bool" where
  "over t \<longleftrightarrow> t = None \<or> t = Some Finished \<or> t = Some Failed"

text \<open>
  A receive takes the bytes that the connection delivers; once the other side has closed it and
  nothing is left, the stream of frames has ended. A send can fail when the other side has closed the
  connection, and a receive when it closed it with bytes unread; both can fail at any time when the
  connection may break (\<open>breaks\<close>).
\<close>

inductive exchange_step ::
  "bool \<Rightarrow> (u8 list \<Rightarrow> u8 list \<Rightarrow> bool) \<Rightarrow> 'a exchange_scheme \<Rightarrow> 'a exchange_scheme \<Rightarrow> bool"
  for breaks delivers where
  send: "tasks x side = Some (Send_Then bytes k) \<Longrightarrow>
    exchange_step breaks delivers x (x\<lparr>tasks := (tasks x)(side := k True),
      inbox := (inbox x)(\<not> side := inbox x (\<not> side) @ bytes)\<rparr>)"
| send_error: "tasks x side = Some (Send_Then bytes k) \<Longrightarrow> breaks \<or> over (tasks x (\<not> side)) \<Longrightarrow>
    exchange_step breaks delivers x (x\<lparr>tasks := (tasks x)(side := k False)\<rparr>)"
| recv: "tasks x side = Some (Next_Then f) \<Longrightarrow> inbox x side = got @ rest \<Longrightarrow> got \<noteq> [] \<Longrightarrow>
    delivers (inbox x side) got \<Longrightarrow>
    exchange_step breaks delivers x
      (x\<lparr>tasks := (tasks x)(side := f (Frame got)), inbox := (inbox x)(side := rest)\<rparr>)"
| recv_error: "tasks x side = Some (Next_Then f) \<Longrightarrow>
    breaks \<or> over (tasks x (\<not> side)) \<and> inbox x (\<not> side) \<noteq> [] \<Longrightarrow>
    exchange_step breaks delivers x (x\<lparr>tasks := (tasks x)(side := f Frame_Error)\<rparr>)"
| eof: "tasks x side = Some (Next_Then f) \<Longrightarrow> inbox x side = [] \<Longrightarrow> over (tasks x (\<not> side)) \<Longrightarrow>
    exchange_step breaks delivers x (x\<lparr>tasks := (tasks x)(side := f Frame_End)\<rparr>)"

definition all_finished :: "'a exchange_scheme \<Rightarrow> bool" where
  "all_finished x \<longleftrightarrow> tasks x True = Some Finished \<and> tasks x False = Some Finished"

text \<open>What is in flight is delivered together.\<close>

definition whole :: "u8 list \<Rightarrow> u8 list \<Rightarrow> bool" where
  "whole pipe got \<longleftrightarrow> got = pipe"

section \<open>Messages\<close>

definition ascii :: "string \<Rightarrow> u8 list" where
  "ascii s = map (\<lambda>c. of_nat (of_char c)) s"

fun decimal :: "nat \<Rightarrow> string" where
  "decimal n = (if n < 10 then [char_of (48 + n)] else decimal (n div 10) @ [char_of (48 + n mod 10)])"

declare decimal.simps [simp del]

definition message :: "nat \<Rightarrow> u8 list" where
  "message i = ascii (''message'' @ decimal i)"

section \<open>The exchange with replies\<close>

text \<open>The loops of \<open>run_test\<close> (OpenSSL) and \<open>test_rustls\<close>, from round \<open>i\<close> with \<open>n\<close> rounds to go.\<close>

fun reply_server :: "nat \<Rightarrow> nat \<Rightarrow> task" where
  "reply_server i 0 = Finished"
| "reply_server i (Suc n) = Next_Then (\<lambda>receives_bytes. case receives_bytes of
      Frame bytes \<Rightarrow>
        if bytes = message i
        then Some (Send_Then (bytes @ ascii ''reply'') (expect_ok (reply_server (Suc i) n))) else None
    | Frame_Error \<Rightarrow> None
    | Frame_End \<Rightarrow> None)"

fun reply_client :: "nat \<Rightarrow> nat \<Rightarrow> task" where
  "reply_client i 0 = Finished"
| "reply_client i (Suc n) = Send_Then (message i) (expect_ok (Next_Then (\<lambda>reply. case reply of
      Frame bytes \<Rightarrow> if bytes = message i @ ascii ''reply'' then Some (reply_client (Suc i) n) else None
    | Frame_Error \<Rightarrow> None
    | Frame_End \<Rightarrow> None)))"

definition ITER :: nat where
  "ITER = 10"

section \<open>The exchange without replies\<close>

text \<open>
  \<open>test_tls\<close> of \<open>native_tls.rs\<close>: two sends per round with a sleep of a microsecond between them, a
  sleep of a second at the end, and a client that takes each send for one frame.
\<close>

fun frames_server :: "nat \<Rightarrow> task" where
  "frames_server 0 = Sleep_Then (from_secs 1) Finished"
| "frames_server (Suc n) =
     Send_Then [5, 10, 99] (expect_ok (Sleep_Then (from_micros 1)
       (Send_Then [32, 17] (expect_ok (frames_server n)))))"

fun frames_client :: "nat \<Rightarrow> task" where
  "frames_client 0 = Finished"
| "frames_client (Suc n) = Next_Then (\<lambda>value. case value of
      Frame values \<Rightarrow>
        if 3 \<le> length values \<and> values ! 0 = 5 \<and> values ! 1 = 10 \<and> values ! 2 = 99 \<and> length values = 3
        then Some (Next_Then (\<lambda>value2. case value2 of
            Frame values \<Rightarrow> if length values = 2 then Some (frames_client n) else None
          | Frame_Error \<Rightarrow> None
          | Frame_End \<Rightarrow> None))
        else None
    | Frame_Error \<Rightarrow> None
    | Frame_End \<Rightarrow> None)"

text \<open>\<open>test_async_tcp\<close> of \<open>tcp_stream.rs\<close>: one frame of three bytes; an error of a send or of a frame leaves with \<open>?\<close>.\<close>

definition tcp_server :: task where
  "tcp_server = Send_Then [5, 10, 99] (try_ok Finished)"

definition tcp_client :: task where
  "tcp_client = Next_Then (\<lambda>value. case value of
      Frame values \<Rightarrow>
        if length values = 3 \<and> values ! 0 = 5 \<and> values ! 1 = 10 \<and> values ! 2 = 99 then Some Finished else None
    | Frame_Error \<Rightarrow> Some Failed
    | Frame_End \<Rightarrow> None)"

section \<open>Lemmas\<close>

lemma message_nonempty [simp]: "message i \<noteq> []"
  by (simp add: message_def ascii_def)

text \<open>
  The four places of the exchange with replies, in round \<open>i\<close>: nothing in flight, the message in flight,
  the message received, the reply in flight. \<open>left\<close> counts the steps to the end.
\<close>

definition await_reply :: "nat \<Rightarrow> nat \<Rightarrow> task" where
  "await_reply i n = Next_Then (\<lambda>reply. case reply of
      Frame bytes \<Rightarrow> if bytes = message i @ ascii ''reply'' then Some (reply_client (Suc i) n) else None
    | Frame_Error \<Rightarrow> None
    | Frame_End \<Rightarrow> None)"

lemma reply_client_unfold: "reply_client i (Suc n) = Send_Then (message i) (expect_ok (await_reply i n))"
  by (simp add: await_reply_def)

inductive lockstep :: "nat \<Rightarrow> 'a exchange_scheme \<Rightarrow> bool" where
  idle: "tasks x True = Some (reply_client i n) \<Longrightarrow> tasks x False = Some (reply_server i n) \<Longrightarrow>
    inbox x True = [] \<Longrightarrow> inbox x False = [] \<Longrightarrow> lockstep (4 * n) x"
| asked: "tasks x True = Some (await_reply i n) \<Longrightarrow> tasks x False = Some (reply_server i (Suc n)) \<Longrightarrow>
    inbox x True = [] \<Longrightarrow> inbox x False = message i \<Longrightarrow> lockstep (4 * n + 3) x"
| answering: "tasks x True = Some (await_reply i n) \<Longrightarrow>
    tasks x False = Some (Send_Then (message i @ ascii ''reply'') (expect_ok (reply_server (Suc i) n))) \<Longrightarrow>
    inbox x True = [] \<Longrightarrow> inbox x False = [] \<Longrightarrow> lockstep (4 * n + 2) x"
| answered: "tasks x True = Some (await_reply i n) \<Longrightarrow> tasks x False = Some (reply_server (Suc i) n) \<Longrightarrow>
    inbox x True = message i @ ascii ''reply'' \<Longrightarrow> inbox x False = [] \<Longrightarrow> lockstep (4 * n + 1) x"

lemma await_reply_shape [simp]: "await_reply i n \<noteq> Send_Then b k"
  by (simp add: await_reply_def)

lemma reply_server_shape [simp]: "reply_server i n \<noteq> Send_Then b k"
  by (cases n) simp_all

lemma reply_client_shape: "reply_client i n = Send_Then b k \<longleftrightarrow> (\<exists>m. n = Suc m \<and> b = message i \<and> k = expect_ok (await_reply i m))"
  by (cases n) (auto simp: await_reply_def)

lemma lockstep_step:
  assumes "lockstep k x" and "exchange_step False whole x y"
  shows "\<exists>j. k = Suc j \<and> lockstep j y"
  using assms(2)
proof cases
  case (send side bytes k')
  from assms(1) show ?thesis
  proof cases
    case (idle i n)
    with send obtain m where m: "side" "n = Suc m" "bytes = message i" "k' = expect_ok (await_reply i m)"
      by (cases side) (auto simp: reply_client_shape)
    have "lockstep (4 * m + 3) y" by (rule lockstep.asked [of _ i m]) (use send idle m in \<open>simp_all add: expect_ok_def\<close>)
    with idle m show ?thesis by (intro exI [of _ "4 * m + 3"]) simp
  next
    case (asked i n)
    with send show ?thesis by (cases side) simp_all
  next
    case (answering i n)
    with send have s: "\<not> side" by (cases side) simp_all
    have "lockstep (4 * n + 1) y" by (rule lockstep.answered [of _ i n]) (use send answering s in \<open>auto simp: expect_ok_def\<close>)
    with answering show ?thesis by (intro exI [of _ "4 * n + 1"]) simp
  next
    case (answered i n)
    with send show ?thesis by (cases side) simp_all
  qed
next
  case (send_error side bytes k')
  from assms(1) show ?thesis
  proof cases
    case (idle i n)
    with send_error show ?thesis by (cases side; cases n) (simp_all add: over_def)
  qed (use send_error in \<open>cases side; simp add: over_def await_reply_def\<close>)+
next
  case (recv_error side f)
  from assms(1) show ?thesis
  proof cases
    case (idle i n)
    with recv_error show ?thesis by (cases side) simp_all
  next
    case (answered i n)
    with recv_error show ?thesis by (cases side; cases n) (simp_all add: over_def await_reply_def)
  qed (use recv_error in \<open>cases side; simp add: over_def await_reply_def\<close>)+
next
  case (recv side f got rest)
  then have whole: "got = inbox x side" "rest = []" by (auto simp: whole_def)
  from assms(1) show ?thesis
  proof cases
    case (asked i n)
    with recv whole have s: "\<not> side" by (cases side) simp_all
    have "lockstep (4 * n + 2) y" by (rule lockstep.answering [of _ i n]) (use recv whole asked s in auto)
    with asked show ?thesis by (intro exI [of _ "4 * n + 2"]) simp
  next
    case (answered i n)
    with recv whole have s: "side" by (cases side) simp_all
    have "lockstep (4 * n) y"
      by (rule lockstep.idle [of _ "Suc i" n]) (use recv whole answered s in \<open>auto simp: await_reply_def\<close>)
    with answered show ?thesis by (intro exI [of _ "4 * n"]) simp
  qed (use recv whole in \<open>cases side; simp\<close>)+
next
  case (eof side f)
  from assms(1) show ?thesis
  proof cases
    case (idle i n)
    with eof show ?thesis by (cases side; cases n) (simp_all add: over_def)
  qed (use eof in \<open>cases side; simp add: over_def await_reply_def\<close>)+
qed

lemma lockstep_progress:
  assumes "lockstep (Suc k) x"
  shows "\<exists>y. exchange_step False whole x y"
  using assms
proof cases
  case (idle i n)
  then obtain m where "n = Suc m" by (cases n) auto
  with idle(2) show ?thesis by (auto intro: send [of x True])
next
  case (asked i n)
  then show ?thesis using recv [of x False _ "message i" "[]" whole] by (auto simp: whole_def)
next
  case (answering i n)
  then show ?thesis by (blast intro: send)
next
  case (answered i n)
  then show ?thesis using recv [of x True _ "message i @ ascii ''reply''" "[]" whole]
    by (auto simp: whole_def await_reply_def)
qed

lemma lockstep_no_panic: "lockstep k x \<Longrightarrow> tasks x side \<noteq> None"
  by (cases side; auto elim: lockstep.cases)

lemma lockstep_finished: "lockstep k x \<Longrightarrow> all_finished x \<longleftrightarrow> k = 0"
proof (induction rule: lockstep.cases)
  case (idle x i n)
  then show ?case by (cases n) (auto simp: all_finished_def)
qed (auto simp: all_finished_def await_reply_def)

end
