(* ===== verification/Connection_Tests.thy ===== *)
theory Connection_Tests
  imports Exchange
begin

text \<open>
  The connection tests from their first line: \<open>run_test\<close> of \<open>src/src/openssl/test.rs\<close>, \<open>test_rustls\<close> of
  \<open>src/src/rust_tls.rs\<close>, \<open>test_tls\<close> of \<open>src/src/native_tls.rs\<close>, \<open>test_async_tcp\<close> of
  \<open>src/src/net/tcp_stream.rs\<close>, \<open>test_clone\<close> of \<open>src/src/net/mod.rs\<close> and two tests of
  \<open>src/src/zero_copy.rs\<close>. The server binds and accepts,
  the client sleeps 100 ms to give it the chance to come up and then connects; where the test has
  TLS, both take part in a handshake. A run interleaves the steps of both blocks with the clock. What
  is shown of counting down steps and of the common opening is shown once, in two locales, and each
  test adds what follows it: in a run in which the server is bound before the client wakes up, nothing panics, the test is never
  stuck and it ends after a fixed number of steps. The last lemmas say what a late server does.
\<close>

section \<open>The machine\<close>

record net_world = exchange +
  clock :: Instant
  listening :: bool
  backlog :: nat

text \<open>
  What the tests need of their environment: whether a listener gets its address, whether a pending
  connection can be accepted, whether the handshake succeeds for the client (\<open>True\<close>) and the server,
  whether the connection may break, and what a read gives of the bytes in flight.
\<close>

record net_env =
  binds :: bool
  accepts :: bool
  shakes :: "bool \<Rightarrow> bool"
  breaks :: bool
  delivers :: "u8 list \<Rightarrow> u8 list \<Rightarrow> bool"

text \<open>
  A network on which the two sides find each other and keep their connection, and one that besides
  gives with each read all bytes in flight.
\<close>

definition net_up :: "net_env \<Rightarrow> bool" where
  "net_up env \<longleftrightarrow> binds env \<and> accepts env \<and> shakes env True \<and> shakes env False \<and> \<not> breaks env"

definition net_ok :: "net_env \<Rightarrow> bool" where
  "net_ok env \<longleftrightarrow> net_up env \<and> delivers env = whole"

text \<open>The listener lives as long as the server block.\<close>

definition open_listener :: "net_world \<Rightarrow> bool" where
  "open_listener w \<longleftrightarrow> listening w \<and> \<not> over (tasks w False)"

inductive net_step :: "net_env \<Rightarrow> net_world \<Rightarrow> net_world \<Rightarrow> bool" for env where
  start_sleep: "tasks w side = Some (Sleep_Then d k) \<Longrightarrow>
    net_step env w (w\<lparr>tasks := (tasks w)(side := Some (Sleeping (clock w + in_nanos d) k))\<rparr>)"
| wake: "tasks w side = Some (Sleeping t k) \<Longrightarrow> t \<le> clock w \<Longrightarrow>
    net_step env w (w\<lparr>tasks := (tasks w)(side := Some k)\<rparr>)"
| bind: "tasks w False = Some (Bind_Then f) \<Longrightarrow>
    net_step env w (w\<lparr>tasks := (tasks w)(False := f (binds env)), listening := binds env\<rparr>)"
| connect: "tasks w True = Some (Connect_Then f) \<Longrightarrow> open_listener w \<Longrightarrow>
    net_step env w (w\<lparr>tasks := (tasks w)(True := f True), backlog := Suc (backlog w)\<rparr>)"
| refuse: "tasks w True = Some (Connect_Then f) \<Longrightarrow> \<not> open_listener w \<Longrightarrow>
    net_step env w (w\<lparr>tasks := (tasks w)(True := f False)\<rparr>)"
| accept: "tasks w False = Some (Incoming_Then f) \<Longrightarrow> backlog w = Suc b \<Longrightarrow>
    net_step env w (w\<lparr>tasks := (tasks w)(False := f (accepts env)), backlog := b\<rparr>)"
| handshake: "tasks w True = Some (Tls_Then f) \<Longrightarrow> tasks w False = Some (Tls_Then g) \<Longrightarrow>
    net_step env w (w\<lparr>tasks := (tasks w)(True := f (shakes env True), False := g (shakes env False))\<rparr>)"
| talk: "exchange_step (breaks env) (delivers env) w v \<Longrightarrow> net_step env w v"

text \<open>
  Both tasks before their first poll. The clock may move at any time; in a timely run it does not
  reach the end of a sleep before the listener is bound. Only the steps of the tasks are counted.
\<close>

definition opened :: "task \<Rightarrow> task \<Rightarrow> net_world" where
  "opened client server = \<lparr>tasks = (\<lambda>side. Some (if side then client else server)), inbox = (\<lambda>_. []),
     clock = 0, listening = False, backlog = 0\<rparr>"

definition timely :: "net_world \<Rightarrow> Instant \<Rightarrow> bool" where
  "timely w t \<longleftrightarrow> clock w \<le> t \<and>
     (listening w \<or> (\<forall>side d k. tasks w side = Some (Sleeping d k) \<longrightarrow> t < d))"

inductive timely_run :: "net_env \<Rightarrow> nat \<Rightarrow> net_world \<Rightarrow> net_world \<Rightarrow> bool" for env where
  here: "timely_run env 0 w w"
| act: "timely_run env m w v \<Longrightarrow> net_step env v u \<Longrightarrow> timely_run env (Suc m) w u"
| tick: "timely_run env m w v \<Longrightarrow> timely v t \<Longrightarrow> timely_run env m w (v\<lparr>clock := t\<rparr>)"

text \<open>Any run, the clock as it likes.\<close>

inductive net_run :: "net_env \<Rightarrow> net_world \<Rightarrow> net_world \<Rightarrow> bool" for env where
  stay: "net_run env w w"
| step: "net_run env w v \<Longrightarrow> net_step env v u \<Longrightarrow> net_run env w u"
| pass: "net_run env w v \<Longrightarrow> clock v \<le> t \<Longrightarrow> net_run env w (v\<lparr>clock := t\<rparr>)"

section \<open>The tests\<close>

text \<open>\<open>run_test\<close> of the OpenSSL tests.\<close>

definition run_test_server :: "nat \<Rightarrow> task" where
  "run_test_server iter =
     Bind_Then (expect_ok (Incoming_Then (expect_ok (Tls_Then (expect_ok (reply_server 0 iter))))))"

definition run_test_client :: "nat \<Rightarrow> task" where
  "run_test_client iter =
     Sleep_Then (from_millis 100) (Connect_Then (expect_ok (Tls_Then (expect_ok (reply_client 0 iter)))))"

definition run_test :: "nat \<Rightarrow> net_world" where
  "run_test iter = opened (run_test_client iter) (run_test_server iter)"

text \<open>\<open>test_rustls\<close>.\<close>

definition rustls_server :: "nat \<Rightarrow> task" where
  "rustls_server iter =
     Bind_Then (expect_ok (Incoming_Then (expect_ok (Tls_Then (expect_ok (reply_server 0 iter))))))"

definition rustls_client :: "nat \<Rightarrow> task" where
  "rustls_client iter =
     Sleep_Then (from_millis 100) (Connect_Then (expect_ok (Tls_Then (expect_ok (reply_client 0 iter)))))"

definition test_rustls :: "nat \<Rightarrow> net_world" where
  "test_rustls iter = opened (rustls_client iter) (rustls_server iter)"

text \<open>\<open>test_tls\<close> of \<open>native_tls.rs\<close>.\<close>

definition TEST_ITERATION :: nat where
  "TEST_ITERATION = 2"

definition native_server :: task where
  "native_server =
     Bind_Then (expect_ok (Incoming_Then (expect_ok (Tls_Then (expect_ok (frames_server TEST_ITERATION))))))"

definition native_client :: task where
  "native_client =
     Sleep_Then (from_millis 100) (Connect_Then (expect_ok (Tls_Then (expect_ok (frames_client TEST_ITERATION)))))"

definition native_test :: net_world where
  "native_test = opened native_client native_server"

text \<open>\<open>test_async_tcp\<close> of \<open>tcp_stream.rs\<close>.\<close>

definition async_tcp_server :: task where
  "async_tcp_server = Bind_Then (try_ok (Incoming_Then (try_ok tcp_server)))"

definition async_tcp_client :: task where
  "async_tcp_client = Sleep_Then (from_millis 100) (Connect_Then (try_ok tcp_client))"

definition test_async_tcp :: net_world where
  "test_async_tcp = opened async_tcp_client async_tcp_server"

text \<open>\<open>test_clone\<close> of \<open>net/mod.rs\<close>.\<close>

definition clone_server :: task where
  "clone_server = Bind_Then (expect_ok (Incoming_Then (expect_ok (Sleep_Then (from_secs 1) Finished))))"

definition clone_client :: task where
  "clone_client = Sleep_Then (from_millis 100) (Connect_Then (expect_ok Finished))"

definition test_clone :: net_world where
  "test_clone = opened clone_client clone_server"

text \<open>
  \<open>test_zero_copy_simple\<close> and \<open>test_zero_copy_large_slace\<close> of \<open>zero_copy.rs\<close>, which have the same server. The
  client has opened its file; \<open>contents\<close> is what \<open>copy_slice\<close> sends of it (see \<open>Test_Files\<close>). A read fills
  at most the thirty bytes of the buffer, and gives no byte at the end of the stream.
\<close>

definition zero_copy_server :: task where
  "zero_copy_server = Bind_Then (try_ok (Incoming_Then (try_ok (Next_Then (\<lambda>len. case len of
      Frame bytes \<Rightarrow> if min 30 (length bytes) = 30 then Some Finished else None
    | Frame_Error \<Rightarrow> Some Failed
    | Frame_End \<Rightarrow> None)))))"

definition zero_copy_client :: "u8 list \<Rightarrow> task" where
  "zero_copy_client contents = Sleep_Then (from_millis 100) (Connect_Then (try_ok (Send_Then contents (try_ok Finished))))"

definition test_zero_copy :: "u8 list \<Rightarrow> net_world" where
  "test_zero_copy contents = opened (zero_copy_client contents) zero_copy_server"

section \<open>The opening\<close>

text \<open>
  The client is at step \<open>c\<close> of its opening (not yet polled, asleep until \<open>d\<close>, about to connect, with a
  stream) and the server at step \<open>s\<close> of its own (not yet bound, waiting, with a stream).
\<close>

definition dial_at :: "(bool \<Rightarrow> task option) \<Rightarrow> Instant \<Rightarrow> nat \<Rightarrow> task option" where
  "dial_at f d c = (if c = 0 then Some (Sleep_Then (from_millis 100) (Connect_Then f))
     else if c = 1 then Some (Sleeping d (Connect_Then f))
     else if c = 2 then Some (Connect_Then f) else f True)"

definition serve_at :: "(bool \<Rightarrow> task option) \<Rightarrow> (bool \<Rightarrow> task option) \<Rightarrow> nat \<Rightarrow> task option" where
  "serve_at h g s = (if s = 0 then Some (Bind_Then h) else if s = 1 then Some (Incoming_Then g) else g True)"

definition arriving ::
  "(bool \<Rightarrow> task option) \<Rightarrow> (bool \<Rightarrow> task option) \<Rightarrow> (bool \<Rightarrow> task option) \<Rightarrow> nat \<Rightarrow> nat \<Rightarrow> net_world \<Rightarrow> bool" where
  "arriving f h g c s w \<longleftrightarrow> c \<le> 3 \<and> s \<le> 2 \<and> (2 \<le> c \<longrightarrow> 1 \<le> s) \<and> (s = 2 \<longrightarrow> c = 3) \<and>
     (\<exists>d. tasks w True = dial_at f d c \<and> (c = 1 \<and> s = 0 \<longrightarrow> clock w < d)) \<and>
     tasks w False = serve_at h g s \<and> inbox w True = [] \<and> inbox w False = [] \<and>
     (listening w \<longleftrightarrow> 1 \<le> s) \<and> backlog w = (if c = 3 \<and> s = 1 then 1 else 0)"

text \<open>A client that has its stream does nothing before the server has its own.\<close>

definition waiting :: "task option \<Rightarrow> bool" where
  "waiting t \<longleftrightarrow> t = Some Finished \<or> (\<exists>f. t = Some (Next_Then f)) \<or> (\<exists>f. t = Some (Tls_Then f))"

lemma from_millis_100 [simp]: "0 < in_nanos (from_millis 100)"
  by (simp add: in_nanos_def from_millis_def)

lemma net_ok_simps [simp]:
  "net_up env \<Longrightarrow> binds env" "net_up env \<Longrightarrow> accepts env" "net_up env \<Longrightarrow> shakes env side"
  "net_up env \<Longrightarrow> \<not> breaks env" "net_ok env \<Longrightarrow> delivers env = whole" "net_ok env \<Longrightarrow> net_up env"
  by (cases side; simp add: net_ok_def net_up_def)+

lemma dial_at_simps [simp]:
  "dial_at f d 0 = Some (Sleep_Then (from_millis 100) (Connect_Then f))"
  "dial_at f d (Suc 0) = Some (Sleeping d (Connect_Then f))"
  "dial_at f d (Suc (Suc 0)) = Some (Connect_Then f)" "dial_at f d (Suc (Suc (Suc 0))) = f True"
  "dial_at f d 2 = Some (Connect_Then f)" "dial_at f d 3 = f True"
  by (simp_all add: dial_at_def)

lemma serve_at_simps [simp]:
  "serve_at h g 0 = Some (Bind_Then h)" "serve_at h g (Suc 0) = Some (Incoming_Then g)" "serve_at h g 2 = g True"
  "serve_at h g (Suc (Suc 0)) = g True"
  by (simp_all add: serve_at_def)

text \<open>The places of the opening, one by one.\<close>

lemma arriving_cases:
  assumes "arriving f h g c s w" and "c + s < 5"
  obtains "c = 0" "s = 0" | "c = 1" "s = 0" | "c = 0" "s = 1" | "c = 1" "s = 1" | "c = 2" "s = 1" | "c = 3" "s = 1"
proof -
  from assms have "c = 0 \<or> c = 1 \<or> c = 2 \<or> c = 3" "s = 0 \<or> s = 1 \<or> s = 2"
    by (auto simp: arriving_def)
  with assms that show ?thesis by (auto simp: arriving_def)
qed

lemma arriving_step:
  assumes "arriving f h g c s w" and "c + s < 5" and "net_step env w v" and "net_up env"
    and "c = 3 \<longrightarrow> waiting (f True)" and "h True = Some (Incoming_Then g)"
  shows "arriving f h g (Suc c) s v \<or> arriving f h g c (Suc s) v"
  using assms(3)
proof cases
  case (start_sleep side d k)
  with assms show ?thesis
    by (cases rule: arriving_cases [OF assms(1,2)]; cases side) (auto simp: arriving_def waiting_def)
next
  case (wake side t k)
  with assms show ?thesis
    by (cases rule: arriving_cases [OF assms(1,2)]; cases side)
      (auto simp: arriving_def waiting_def numeral_2_eq_2)
next
  case (bind f')
  with assms show ?thesis
    by (cases rule: arriving_cases [OF assms(1,2)]) (auto simp: arriving_def)
next
  case (connect f')
  with assms show ?thesis
    by (cases rule: arriving_cases [OF assms(1,2)])
      (auto simp: arriving_def open_listener_def waiting_def eval_nat_numeral)
next
  case (refuse f')
  with assms show ?thesis
    by (cases rule: arriving_cases [OF assms(1,2)]) (auto simp: arriving_def open_listener_def waiting_def over_def)
next
  case (accept f' b)
  with assms show ?thesis
    by (cases rule: arriving_cases [OF assms(1,2)]) (auto simp: arriving_def numeral_2_eq_2)
next
  case (handshake f' g')
  with assms show ?thesis
    by (cases rule: arriving_cases [OF assms(1,2)]) (auto simp: arriving_def)
next
  case talk
  then show ?thesis
  proof cases
    case (send side bytes k)
    with assms show ?thesis
      by (cases rule: arriving_cases [OF assms(1,2)]; cases side) (auto simp: arriving_def waiting_def)
  next
    case (recv side f' got rest)
    with assms show ?thesis
      by (cases rule: arriving_cases [OF assms(1,2)]; cases side) (auto simp: arriving_def waiting_def)
  next
    case (send_error side bytes k)
    with assms show ?thesis
      by (cases rule: arriving_cases [OF assms(1,2)]; cases side) (auto simp: arriving_def waiting_def)
  next
    case (recv_error side f')
    with assms show ?thesis
      by (cases rule: arriving_cases [OF assms(1,2)]; cases side) (auto simp: arriving_def waiting_def over_def)
  next
    case (eof side f')
    with assms show ?thesis
      by (cases rule: arriving_cases [OF assms(1,2)]; cases side) (auto simp: arriving_def waiting_def over_def)
  qed
qed

lemma arriving_tick:
  assumes "arriving f h g c s w" and "timely w t"
  shows "arriving f h g c s (w\<lparr>clock := t\<rparr>)"
proof -
  from assms(1) obtain d where d: "tasks w True = dial_at f d c" by (auto simp: arriving_def)
  have "t < d" if "c = 1" "s = 0"
  proof -
    from d that have "tasks w True = Some (Sleeping d (Connect_Then f))" by simp
    with assms that show ?thesis unfolding timely_def by (auto simp: arriving_def)
  qed
  with assms(1) d show ?thesis by (auto simp: arriving_def)
qed

lemma arriving_progress:
  assumes "arriving f h g c s w" and "c + s < 5"
  shows "\<exists>t v. timely w t \<and> net_step env (w\<lparr>clock := t\<rparr>) v"
proof -
  from assms(1) obtain d where d: "tasks w True = dial_at f d c" "c = 1 \<and> s = 0 \<longrightarrow> clock w < d"
    by (auto simp: arriving_def)
  have w: "tasks w False = serve_at h g s" "listening w \<longleftrightarrow> 1 \<le> s" "backlog w = (if c = 3 \<and> s = 1 then 1 else 0)"
    using assms(1) by (auto simp: arriving_def)
  have now: ?thesis if "net_step env w v" "timely w (clock w)" for v
    using that by (intro exI [of _ "clock w"] exI [of _ v]) simp
  show ?thesis
  proof (cases rule: arriving_cases [OF assms])
    case 1
    show ?thesis by (rule now [OF start_sleep [of w True]]) (use 1 d w in \<open>auto simp: timely_def all_bool_eq\<close>)
  next
    case 2
    show ?thesis by (rule now [OF bind]) (use 2 d w in \<open>auto simp: timely_def all_bool_eq\<close>)
  next
    case 3
    show ?thesis by (rule now [OF start_sleep [of w True]]) (use 3 d w in \<open>auto simp: timely_def\<close>)
  next
    case 4
    have "timely w (max (clock w) d)" using 4 w by (simp add: timely_def)
    moreover have "net_step env (w\<lparr>clock := max (clock w) d\<rparr>)
        (w\<lparr>clock := max (clock w) d, tasks := (tasks w)(True := Some (Connect_Then f))\<rparr>)"
      using wake [of "w\<lparr>clock := max (clock w) d\<rparr>" True d "Connect_Then f"] 4 d by simp
    ultimately show ?thesis by blast
  next
    case 5
    show ?thesis
      by (rule now [OF connect]) (use 5 d w in \<open>auto simp: timely_def open_listener_def over_def\<close>)
  next
    case 6
    show ?thesis by (rule now [OF accept]) (use 6 d w in \<open>auto simp: timely_def\<close>)
  qed
qed

text \<open>Where the opening ends.\<close>

lemma arriving_start: "h True = Some (Incoming_Then g) \<Longrightarrow>
  arriving f h g 0 0 (opened (Sleep_Then (from_millis 100) (Connect_Then f)) (Bind_Then h))"
  by (simp add: arriving_def opened_def)

lemma arriving_done: "arriving f h g 3 2 w \<longleftrightarrow>
  tasks w True = f True \<and> tasks w False = g True \<and> inbox w True = [] \<and> inbox w False = [] \<and> listening w \<and> backlog w = 0"
  by (auto simp: arriving_def)

lemma arriving_full: "arriving f h g c s w \<Longrightarrow> 5 \<le> c + s \<Longrightarrow> c = 3 \<and> s = 2"
  by (auto simp: arriving_def)

lemma arriving_no_panic:
  assumes "arriving f h g c s w" and "c + s < 5" and "c = 3 \<longrightarrow> waiting (f True)"
  shows "tasks w side \<noteq> None \<and> \<not> all_finished w"
  using assms(1,3)
  by (cases rule: arriving_cases [OF assms(1,2)]; cases side) (auto simp: arriving_def waiting_def all_finished_def)

section \<open>Tests that count down\<close>

text \<open>
  A test whose places are known by the number of steps left: every step takes one off, the clock
  changes nothing as long as it is timely, a step is possible while one is left, possibly after a
  while, no block has panicked, and both have returned exactly when nothing is left.
\<close>

locale counted_test =
  fixes start :: net_world
    and total_steps :: nat
    and togo :: "nat \<Rightarrow> net_world \<Rightarrow> bool"
  assumes togo_start: "togo total_steps start"
    and togo_step: "net_ok env \<Longrightarrow> togo k w \<Longrightarrow> net_step env w v \<Longrightarrow> \<exists>j. k = Suc j \<and> togo j v"
    and togo_tick: "togo k w \<Longrightarrow> timely w t \<Longrightarrow> togo k (w\<lparr>clock := t\<rparr>)"
    and togo_progress: "net_ok env \<Longrightarrow> togo (Suc k) w \<Longrightarrow>
      \<exists>t v. timely w t \<and> net_step env (w\<lparr>clock := t\<rparr>) v"
    and togo_sound: "togo k w \<Longrightarrow> tasks w side \<noteq> None \<and> (all_finished w \<longleftrightarrow> k = 0)"
begin

lemma togo_run:
  assumes "net_ok env" and "timely_run env m x w" and "togo n x"
  shows "m \<le> n \<and> togo (n - m) w"
  using assms(2,3)
proof (induction rule: timely_run.induct)
  case (here w)
  then show ?case by simp
next
  case (act m w v u)
  from togo_step [OF assms(1) _ act.hyps(2)] act.IH act.prems obtain j where "n - m = Suc j" "togo j u" by blast
  moreover from this(1) have "n - Suc m = j" "Suc m \<le> n" by linarith+
  ultimately show ?case by simp
next
  case (tick m w v t)
  then show ?case using togo_tick by blast
qed

theorem test_completes:
  assumes "net_ok env" and "timely_run env m start w"
  shows "(\<forall>side. tasks w side \<noteq> None) \<and> m \<le> total_steps \<and> (all_finished w \<longleftrightarrow> m = total_steps) \<and>
    (m < total_steps \<longrightarrow> (\<exists>t v. timely w t \<and> net_step env (w\<lparr>clock := t\<rparr>) v))"
proof -
  note togo = togo_run [OF assms togo_start]
  have "\<exists>t v. timely w t \<and> net_step env (w\<lparr>clock := t\<rparr>) v" if "m < total_steps"
  proof -
    from that have "total_steps - m = Suc (total_steps - Suc m)" by simp
    with togo have "togo (Suc (total_steps - Suc m)) w" by simp
    then show ?thesis by (rule togo_progress [OF assms(1)])
  qed
  with togo togo_sound [of "total_steps - m" w] show ?thesis by auto
qed

lemma test_can_complete: "net_ok env \<Longrightarrow> m \<le> total_steps \<Longrightarrow> \<exists>w. timely_run env m start w"
proof (induction m)
  case (Suc m)
  then obtain w where "timely_run env m start w" by auto
  with test_completes [of env m w] Suc.prems obtain t v
    where "timely w t" "net_step env (w\<lparr>clock := t\<rparr>) v" by auto
  with \<open>timely_run env m start w\<close> show ?case by (blast intro: act tick)
qed (blast intro: here)

end

section \<open>Tests that are served\<close>

text \<open>
  What a test does once both blocks have a stream: \<open>rest k w\<close> says that \<open>k\<close> steps are left. With the
  opening before it such a test counts down.
\<close>

definition served :: "(bool \<Rightarrow> task option) \<Rightarrow> (bool \<Rightarrow> task option) \<Rightarrow> net_world" where
  "served f h = opened (Sleep_Then (from_millis 100) (Connect_Then f)) (Bind_Then h)"

inductive steps_left ::
  "(bool \<Rightarrow> task option) \<Rightarrow> (bool \<Rightarrow> task option) \<Rightarrow> (bool \<Rightarrow> task option) \<Rightarrow>
   (nat \<Rightarrow> net_world \<Rightarrow> bool) \<Rightarrow> nat \<Rightarrow> nat \<Rightarrow> net_world \<Rightarrow> bool" for f h g rest r where
  arrives: "arriving f h g c s w \<Longrightarrow> c + s < 5 \<Longrightarrow> steps_left f h g rest r (5 - (c + s) + r) w"
| rests: "rest k w \<Longrightarrow> steps_left f h g rest r k w"

locale served_test =
  fixes f h g :: "bool \<Rightarrow> task option"
    and rest :: "nat \<Rightarrow> net_world \<Rightarrow> bool"
    and total_rest :: nat
  assumes client_waits: "waiting (f True)"
    and server_serves: "h True = Some (Incoming_Then g)"
    and rest_begins: "arriving f h g 3 2 w \<Longrightarrow> rest total_rest w"
    and rest_step: "net_ok env \<Longrightarrow> rest k w \<Longrightarrow> net_step env w v \<Longrightarrow> \<exists>j. k = Suc j \<and> rest j v"
    and rest_tick: "rest k w \<Longrightarrow> clock w \<le> t \<Longrightarrow> rest k (w\<lparr>clock := t\<rparr>)"
    and rest_progress: "net_ok env \<Longrightarrow> rest (Suc k) w \<Longrightarrow>
      \<exists>t v. clock w \<le> t \<and> net_step env (w\<lparr>clock := t\<rparr>) v"
    and rest_listening: "rest k w \<Longrightarrow> listening w"
    and rest_no_panic: "rest k w \<Longrightarrow> tasks w side \<noteq> None"
    and rest_finished: "rest k w \<Longrightarrow> all_finished w \<longleftrightarrow> k = 0"
begin

abbreviation left :: "nat \<Rightarrow> net_world \<Rightarrow> bool" where
  "left \<equiv> steps_left f h g rest total_rest"

lemma left_arriving: "arriving f h g c s w \<Longrightarrow> c + s \<le> 5 \<Longrightarrow> left (5 - (c + s) + total_rest) w"
  using arrives rests [of rest total_rest w, OF rest_begins] arriving_full [of f h g c s w] by (cases "c + s < 5") auto

lemma left_step:
  assumes "net_ok env" and "left k w" and "net_step env w v"
  shows "\<exists>j. k = Suc j \<and> left j v"
  using assms(2)
proof cases
  case (arrives c s)
  with arriving_step [OF arrives(2,3) assms(3) net_ok_simps(6) [OF assms(1)] _ server_serves] client_waits
  obtain c' s' where "arriving f h g c' s' v" "c' + s' = Suc (c + s)" by auto
  with left_arriving [of c' s' v] arrives show ?thesis
    by (intro exI [of _ "5 - (c' + s') + total_rest"]) auto
next
  case rests
  with rest_step [OF assms(1) _ assms(3)] show ?thesis by (blast intro: steps_left.rests)
qed

lemma left_tick: "left k w \<Longrightarrow> timely w t \<Longrightarrow> left k (w\<lparr>clock := t\<rparr>)"
proof (erule steps_left.cases)
  fix c s w'
  assume "timely w t" "k = 5 - (c + s) + total_rest" "w = w'" "arriving f h g c s w'" "c + s < 5"
  then show ?thesis using arrives [OF arriving_tick] by blast
next
  fix k' w'
  assume "timely w t" "k = k'" "w = w'" "rest k' w'"
  then show ?thesis by (auto simp: timely_def intro: rests rest_tick)
qed

lemma left_progress:
  assumes "net_ok env" and "left (Suc k) w"
  shows "\<exists>t v. timely w t \<and> net_step env (w\<lparr>clock := t\<rparr>) v"
  using assms(2)
proof cases
  case (arrives c s)
  then show ?thesis by (blast intro: arriving_progress)
next
  case rests
  with rest_progress [OF assms(1)] rest_listening show ?thesis unfolding timely_def by blast
qed

lemma left_sound:
  assumes "left k w"
  shows "tasks w side \<noteq> None \<and> (all_finished w \<longleftrightarrow> k = 0)"
  using assms
proof cases
  case (arrives c s)
  then show ?thesis using arriving_no_panic [of f h g c s w side] client_waits by simp
next
  case rests
  then show ?thesis by (simp add: rest_no_panic rest_finished)
qed

end

sublocale served_test \<subseteq> counted_test "served f h" "total_rest + 5" "steps_left f h g rest total_rest"
proof
  have "arriving f h g 0 0 (served f h)" unfolding served_def by (rule arriving_start) (rule server_serves)
  from left_arriving [OF this] show "left (total_rest + 5) (served f h)" by (simp add: add.commute)
qed (fact left_step left_tick left_progress left_sound)+

section \<open>What each test does with its streams\<close>

text \<open>Blocks that only talk take steps of the exchange only.\<close>

fun talking :: "task option \<Rightarrow> bool" where
  "talking (Some Finished) = True"
| "talking (Some (Send_Then bytes k)) = True"
| "talking (Some (Next_Then f)) = True"
| "talking _ = False"

lemma net_step_talking:
  assumes "net_step env w v" and "talking (tasks w True)" and "talking (tasks w False)"
  shows "exchange_step (breaks env) (delivers env) w v"
  using assms(1)
proof cases
  case (start_sleep side d k)
  with assms(2,3) show ?thesis by (cases side) simp_all
next
  case (wake side t k)
  with assms(2,3) show ?thesis by (cases side) simp_all
qed (use assms(2,3) in simp_all)

lemma exchange_step_listening: "exchange_step b d w v \<Longrightarrow> listening v = listening w"
  by (auto elim: exchange_step.cases)

lemma lockstep_talking: "lockstep k w \<Longrightarrow> talking (tasks w True) \<and> talking (tasks w False)"
proof (induction rule: lockstep.cases)
  case (idle x i n)
  then show ?case by (cases n) simp_all
next
  case (answered x i n)
  then show ?case by (cases n) (simp_all add: await_reply_def)
qed (simp_all add: await_reply_def)

lemma lockstep_tick:
  assumes "lockstep k w"
  shows "lockstep k (w\<lparr>clock := t\<rparr>)"
  using assms
proof cases
  case (idle i n)
  then show ?thesis by (simp add: lockstep.idle)
next
  case (asked i n)
  have "lockstep (4 * n + 3) (w\<lparr>clock := t\<rparr>)" by (rule lockstep.asked [of _ i n]) (use asked in simp_all)
  with asked show ?thesis by simp
next
  case (answering i n)
  have "lockstep (4 * n + 2) (w\<lparr>clock := t\<rparr>)" by (rule lockstep.answering [of _ i n]) (use answering in simp_all)
  with answering show ?thesis by simp
next
  case (answered i n)
  have "lockstep (4 * n + 1) (w\<lparr>clock := t\<rparr>)" by (rule lockstep.answered [of _ i n]) (use answered in simp_all)
  with answered show ?thesis by simp
qed

lemma talk_now:
  assumes "net_ok env" and "exchange_step False whole w v"
  shows "\<exists>t v. clock w \<le> t \<and> net_step env (w\<lparr>clock := t\<rparr>) v"
  using talk [of env w v] assms by (intro exI [of _ "clock w"] exI [of _ v]) simp

text \<open>With replies: the handshake, then four steps per round.\<close>

definition reply_f :: "nat \<Rightarrow> bool \<Rightarrow> task option" where
  "reply_f n = expect_ok (Tls_Then (expect_ok (reply_client 0 n)))"

definition reply_g :: "nat \<Rightarrow> bool \<Rightarrow> task option" where
  "reply_g n = expect_ok (Tls_Then (expect_ok (reply_server 0 n)))"

definition reply_rest :: "nat \<Rightarrow> nat \<Rightarrow> net_world \<Rightarrow> bool" where
  "reply_rest n k w \<longleftrightarrow> listening w \<and> (lockstep k w \<or>
     k = 4 * n + 1 \<and> tasks w True = reply_f n True \<and> tasks w False = reply_g n True \<and>
     inbox w True = [] \<and> inbox w False = [])"

lemma reply_rest_step:
  assumes "net_ok env" and "reply_rest n k w" and "net_step env w v"
  shows "\<exists>j. k = Suc j \<and> reply_rest n j v"
proof (cases "lockstep k w")
  case True
  from net_step_talking [OF assms(3)] lockstep_talking [OF True] assms(1)
  have step: "exchange_step False whole w v" by simp
  with lockstep_step [OF True] exchange_step_listening [OF step] assms(2) show ?thesis
    by (auto simp: reply_rest_def)
next
  case False
  with assms(2) have w: "listening w" "k = 4 * n + 1" "tasks w True = Some (Tls_Then (expect_ok (reply_client 0 n)))"
    "tasks w False = Some (Tls_Then (expect_ok (reply_server 0 n)))" "inbox w True = []" "inbox w False = []"
    by (auto simp: reply_rest_def reply_f_def reply_g_def expect_ok_def)
  have v: "v = w\<lparr>tasks := (tasks w)(True := Some (reply_client 0 n), False := Some (reply_server 0 n))\<rparr>"
    using assms(3)
  proof cases
    case handshake
    with w assms(1) show ?thesis by (simp add: expect_ok_def)
  next
    case talk
    then show ?thesis by cases (use w in \<open>metis option.inject task.distinct\<close>)+
  next
    case (start_sleep side d k')
    with w show ?thesis by (cases side) simp_all
  next
    case (wake side t k')
    with w show ?thesis by (cases side) simp_all
  qed (use w in simp_all)
  have "lockstep (4 * n) v" by (rule lockstep.idle [of _ 0]) (use w v in simp_all)
  with w v show ?thesis by (simp add: reply_rest_def)
qed

lemma reply_rest_progress:
  assumes "net_ok env" and "reply_rest n (Suc k) w"
  shows "\<exists>t v. clock w \<le> t \<and> net_step env (w\<lparr>clock := t\<rparr>) v"
proof (cases "lockstep (Suc k) w")
  case True
  from lockstep_progress [OF this] obtain v where "exchange_step False whole w v" ..
  with assms(1) show ?thesis by (rule talk_now)
next
  case False
  with assms(2) show ?thesis
    using handshake [of w "expect_ok (reply_client 0 n)" "expect_ok (reply_server 0 n)" env]
    by (intro exI [of _ "clock w"]) (auto simp: reply_rest_def reply_f_def reply_g_def expect_ok_def)
qed

interpretation replies: served_test "reply_f n" "expect_ok (Incoming_Then (reply_g n))" "reply_g n"
  "reply_rest n" "4 * n + 1" for n
proof unfold_locales
  show "waiting (reply_f n True)" by (simp add: waiting_def reply_f_def expect_ok_def)
  show "expect_ok (Incoming_Then (reply_g n)) True = Some (Incoming_Then (reply_g n))"
    by (simp add: expect_ok_def)
  show "reply_rest n (4 * n + 1) w"
    if "arriving (reply_f n) (expect_ok (Incoming_Then (reply_g n))) (reply_g n) 3 2 w" for w
    using that by (simp add: arriving_done reply_rest_def)
  show "\<exists>j. k = Suc j \<and> reply_rest n j v" if "net_ok env" "reply_rest n k w" "net_step env w v" for env k w v
    using that by (rule reply_rest_step)
  show "reply_rest n k (w\<lparr>clock := t\<rparr>)" if "reply_rest n k w" for k w t
    using that lockstep_tick by (auto simp: reply_rest_def)
  show "\<exists>t v. clock w \<le> t \<and> net_step env (w\<lparr>clock := t\<rparr>) v"
    if "net_ok env" "reply_rest n (Suc k) w" for env k w
    using that by (rule reply_rest_progress)
  show "listening w" if "reply_rest n k w" for k w
    using that by (simp add: reply_rest_def)
  show "tasks w side \<noteq> None" if "reply_rest n k w" for k w side
    using that lockstep_no_panic [of k w side]
    by (cases side) (auto simp: reply_rest_def reply_f_def reply_g_def expect_ok_def)
  show "all_finished w \<longleftrightarrow> k = 0" if "reply_rest n k w" for k w
    using that lockstep_finished [of k w]
    by (auto simp: reply_rest_def reply_f_def reply_g_def expect_ok_def all_finished_def)
qed

text \<open>\<open>test_async_tcp\<close>: one send and one receive.\<close>

definition tcp_rest :: "nat \<Rightarrow> net_world \<Rightarrow> bool" where
  "tcp_rest k w \<longleftrightarrow> listening w \<and>
     (k = 2 \<and> tasks w True = Some tcp_client \<and> tasks w False = Some tcp_server \<and> inbox w True = [] \<and> inbox w False = [] \<or>
      k = 1 \<and> tasks w True = Some tcp_client \<and> tasks w False = Some Finished \<and> inbox w True = [5, 10, 99] \<and>
        inbox w False = [] \<or>
      k = 0 \<and> tasks w True = Some Finished \<and> tasks w False = Some Finished)"

lemma tcp_rest_step:
  assumes "net_ok env" and "tcp_rest k w" and "net_step env w v"
  shows "\<exists>j. k = Suc j \<and> tcp_rest j v"
proof -
  from assms(2) have "talking (tasks w True)" "talking (tasks w False)"
    by (auto simp: tcp_rest_def tcp_client_def tcp_server_def)
  with net_step_talking [OF assms(3)] assms(1) have step: "exchange_step False whole w v" by simp
  then show ?thesis
  proof cases
    case (send side bytes k')
    with assms(2) show ?thesis
      by (cases side) (auto simp: tcp_rest_def tcp_client_def tcp_server_def try_ok_def eval_nat_numeral)
  next
    case (send_error side bytes k')
    with assms(2) show ?thesis
      by (cases side) (auto simp: tcp_rest_def tcp_client_def tcp_server_def over_def)
  next
    case (recv_error side f)
    with assms(2) show ?thesis
      by (cases side) (auto simp: tcp_rest_def tcp_client_def tcp_server_def over_def)
  next
    case (recv side f got rest)
    with assms(2) show ?thesis
      by (cases side) (auto simp: tcp_rest_def tcp_client_def tcp_server_def whole_def)
  next
    case (eof side f)
    with assms(2) show ?thesis
      by (cases side) (auto simp: tcp_rest_def tcp_client_def tcp_server_def over_def)
  qed
qed

lemma tcp_rest_progress:
  assumes "net_ok env" and "tcp_rest (Suc k) w"
  shows "\<exists>t v. clock w \<le> t \<and> net_step env (w\<lparr>clock := t\<rparr>) v"
proof -
  from assms(2) consider "tasks w False = Some tcp_server" |
    "tasks w True = Some tcp_client" "inbox w True = [5, 10, 99]"
    by (auto simp: tcp_rest_def)
  then obtain v where "exchange_step False whole w v"
  proof cases
    case 1
    with that show ?thesis using exchange_step.send [of w False "[5, 10, 99]" "try_ok Finished"] by (auto simp: tcp_server_def)
  next
    case 2
    with that show ?thesis using exchange_step.recv [of w True _ "[5, 10, 99]" "[]" whole]
      by (auto simp: tcp_client_def whole_def)
  qed
  with assms(1) show ?thesis by (rule talk_now)
qed

interpretation tcp: served_test "try_ok tcp_client" "try_ok (Incoming_Then (try_ok tcp_server))"
  "try_ok tcp_server" tcp_rest 2
proof unfold_locales
  show "waiting (try_ok tcp_client True)" by (simp add: waiting_def try_ok_def tcp_client_def)
  show "\<exists>j. k = Suc j \<and> tcp_rest j v" if "net_ok env" "tcp_rest k w" "net_step env w v" for env k w v
    using that by (rule tcp_rest_step)
  show "\<exists>t v. clock w \<le> t \<and> net_step env (w\<lparr>clock := t\<rparr>) v"
    if "net_ok env" "tcp_rest (Suc k) w" for env k w
    using that by (rule tcp_rest_progress)
  show "tasks w side \<noteq> None" if "tcp_rest k w" for k w side
    using that by (cases side) (auto simp: tcp_rest_def)
qed (auto simp: arriving_done tcp_rest_def try_ok_def all_finished_def tcp_client_def)

text \<open>\<open>test_clone\<close>: the server sleeps for a second.\<close>

definition clone_rest :: "nat \<Rightarrow> net_world \<Rightarrow> bool" where
  "clone_rest k w \<longleftrightarrow> listening w \<and> tasks w True = Some Finished \<and>
     (k = 2 \<and> tasks w False = Some (Sleep_Then (from_secs 1) Finished) \<or>
      k = 1 \<and> (\<exists>d. tasks w False = Some (Sleeping d Finished)) \<or>
      k = 0 \<and> tasks w False = Some Finished)"

lemma clone_rest_step:
  assumes "clone_rest k w" and "net_step env w v"
  shows "\<exists>j. k = Suc j \<and> clone_rest j v"
  using assms(2)
proof cases
  case (start_sleep side d k')
  with assms(1) show ?thesis by (cases side) (auto simp: clone_rest_def eval_nat_numeral)
next
  case (wake side t k')
  with assms(1) show ?thesis by (cases side) (auto simp: clone_rest_def)
next
  case talk
  then show ?thesis
  proof cases
    case (send side bytes k')
    with assms(1) show ?thesis by (cases side) (auto simp: clone_rest_def)
  next
    case (recv side f got rest)
    with assms(1) show ?thesis by (cases side) (auto simp: clone_rest_def)
  next
    case (send_error side bytes k')
    with assms(1) show ?thesis by (cases side) (auto simp: clone_rest_def)
  next
    case (recv_error side f)
    with assms(1) show ?thesis by (cases side) (auto simp: clone_rest_def)
  next
    case (eof side f)
    with assms(1) show ?thesis by (cases side) (auto simp: clone_rest_def)
  qed
qed (use assms(1) in \<open>auto simp: clone_rest_def\<close>)

lemma clone_rest_progress:
  assumes "clone_rest (Suc k) w"
  shows "\<exists>t v. clock w \<le> t \<and> net_step env (w\<lparr>clock := t\<rparr>) v"
proof -
  from assms consider "tasks w False = Some (Sleep_Then (from_secs 1) Finished)"
    | d where "tasks w False = Some (Sleeping d Finished)"
    by (auto simp: clone_rest_def)
  then show ?thesis
  proof cases
    case 1
    with start_sleep [of w False] show ?thesis by (intro exI [of _ "clock w"]) auto
  next
    case (2 d)
    with wake [of "w\<lparr>clock := max (clock w) d\<rparr>" False d Finished env] show ?thesis
      by (intro exI [of _ "max (clock w) d"]) auto
  qed
qed

interpretation cloned: served_test "expect_ok Finished"
  "expect_ok (Incoming_Then (expect_ok (Sleep_Then (from_secs 1) Finished)))"
  "expect_ok (Sleep_Then (from_secs 1) Finished)" clone_rest 2
proof unfold_locales
  show "\<exists>j. k = Suc j \<and> clone_rest j v" if "clone_rest k w" "net_step env w v" for env k w v
    using that by (rule clone_rest_step)
  show "\<exists>t v. clock w \<le> t \<and> net_step env (w\<lparr>clock := t\<rparr>) v" if "clone_rest (Suc k) w" for env k w
    using that by (rule clone_rest_progress)
  show "tasks w side \<noteq> None" if "clone_rest k w" for k w side
    using that by (cases side) (auto simp: clone_rest_def)
qed (auto simp: arriving_done clone_rest_def expect_ok_def all_finished_def waiting_def)

text \<open>
  The zero-copy tests: the client does not wait for the server, so that its bytes may be in flight
  before the connection is accepted. From the moment it has its stream, the client is at \<open>c\<close> (3: about
  to send, 4: over) and the server at \<open>s\<close> (1: waiting, 2: about to read, 3: over).
\<close>

abbreviation zc_f :: "u8 list \<Rightarrow> bool \<Rightarrow> task option" where
  "zc_f contents \<equiv> try_ok (Send_Then contents (try_ok Finished))"

abbreviation zc_read :: task where
  "zc_read \<equiv> Next_Then (\<lambda>len. case len of
      Frame bytes \<Rightarrow> if min 30 (length bytes) = 30 then Some Finished else None
    | Frame_Error \<Rightarrow> Some Failed
    | Frame_End \<Rightarrow> None)"

abbreviation zc_arriving :: "u8 list \<Rightarrow> nat \<Rightarrow> nat \<Rightarrow> net_world \<Rightarrow> bool" where
  "zc_arriving contents \<equiv> arriving (zc_f contents) (try_ok (Incoming_Then (try_ok zc_read))) (try_ok zc_read)"

definition zc_talks :: "u8 list \<Rightarrow> nat \<Rightarrow> nat \<Rightarrow> net_world \<Rightarrow> bool" where
  "zc_talks contents c s w \<longleftrightarrow> listening w \<and> inbox w True = [] \<and>
     (c = 3 \<and> tasks w True = Some (Send_Then contents (try_ok Finished)) \<and> inbox w False = [] \<and> s \<noteq> 3 \<or>
      c = 4 \<and> tasks w True = Some Finished \<and> (s = 3 \<or> inbox w False = contents)) \<and>
     (s = 1 \<and> tasks w False = Some (Incoming_Then (try_ok zc_read)) \<and> backlog w = 1 \<or>
      s = 2 \<and> tasks w False = Some zc_read \<or> s = 3 \<and> tasks w False = Some Finished)"

definition zc_togo :: "u8 list \<Rightarrow> nat \<Rightarrow> net_world \<Rightarrow> bool" where
  "zc_togo contents k w \<longleftrightarrow> (\<exists>c s. k + c + s = 7 \<and> (c < 3 \<and> zc_arriving contents c s w \<or> zc_talks contents c s w))"

lemma zc_talks_step:
  assumes "net_ok env" and "length contents = 30" and "zc_talks contents c s w" and "net_step env w v"
  shows "zc_talks contents (Suc c) s v \<or> zc_talks contents c (Suc s) v"
  using assms(4)
proof cases
  case (start_sleep side d k)
  with assms(3) show ?thesis by (cases side) (auto simp: zc_talks_def)
next
  case (wake side t k)
  with assms(3) show ?thesis by (cases side) (auto simp: zc_talks_def)
next
  case (accept f b)
  with assms(1,3) show ?thesis by (auto simp: zc_talks_def try_ok_def)
next
  case talk
  then show ?thesis
  proof cases
    case (send side bytes k)
    with assms(3) show ?thesis by (cases side) (auto simp: zc_talks_def try_ok_def)
  next
    case (send_error side bytes k)
    with assms(1,3) show ?thesis by (cases side) (auto simp: zc_talks_def over_def)
  next
    case (recv_error side f)
    with assms(1,3) show ?thesis by (cases side) (auto simp: zc_talks_def over_def)
  next
    case (recv side f got rest)
    with assms show ?thesis by (cases side) (auto simp: zc_talks_def whole_def)
  next
    case (eof side f)
    with assms(2,3) show ?thesis by (cases side) (auto simp: zc_talks_def over_def)
  qed
qed (use assms(3) in \<open>auto simp: zc_talks_def\<close>)

lemma zc_talks_progress:
  assumes "net_ok env" and "length contents = 30" and "zc_talks contents c s w" and "c + s < 7"
  shows "\<exists>t v. timely w t \<and> net_step env (w\<lparr>clock := t\<rparr>) v"
proof -
  have "\<exists>v. net_step env w v"
  proof (cases "c = 3")
    case True
    with assms(3) have "tasks w True = Some (Send_Then contents (try_ok Finished))" by (simp add: zc_talks_def)
    then show ?thesis by (blast intro: talk exchange_step.send)
  next
    case False
    with assms(3,4) consider "tasks w False = Some (Incoming_Then (try_ok zc_read))" "backlog w = Suc 0"
      | "tasks w False = Some zc_read" "inbox w False = contents @ []"
      by (auto simp: zc_talks_def)
    then show ?thesis
    proof cases
      case 1
      then show ?thesis by (blast intro: accept)
    next
      case 2
      moreover from assms(2) have "contents \<noteq> []" by auto
      ultimately show ?thesis using talk [OF exchange_step.recv [OF 2, of "delivers env"]] assms(1)
        by (auto simp: whole_def)
    qed
  qed
  with assms(3) show ?thesis by (intro exI [of _ "clock w"]) (auto simp: zc_talks_def timely_def)
qed

lemma zc_arrives: "zc_arriving contents 3 (Suc 0) w \<Longrightarrow> zc_talks contents 3 (Suc 0) w"
  by (auto simp: arriving_def zc_talks_def try_ok_def)

lemma zc_togo_step:
  assumes "net_ok env" and "length contents = 30" and "zc_togo contents k w" and "net_step env w v"
  shows "\<exists>j. k = Suc j \<and> zc_togo contents j v"
proof -
  from assms(3) obtain c s where k: "k + c + s = 7"
    and w: "c < 3 \<and> zc_arriving contents c s w \<or> zc_talks contents c s w"
    by (auto simp: zc_togo_def)
  have "\<exists>c' s'. c' + s' = Suc (c + s) \<and> (c' < 3 \<and> zc_arriving contents c' s' v \<or> zc_talks contents c' s' v)"
    using w
  proof
    assume c: "c < 3 \<and> zc_arriving contents c s w"
    then have "c + s < 5" by (auto simp: arriving_def)
    with c arriving_step [of "zc_f contents" "try_ok (Incoming_Then (try_ok zc_read))" "try_ok zc_read" c s w env v]
      assms(1,4) consider
      "zc_arriving contents (Suc c) s v" | "zc_arriving contents c (Suc s) v"
      by (auto simp: try_ok_def)
    then show ?thesis
    proof cases
      case 1
      show ?thesis
      proof (cases "c = 2")
        case True
        with c have "s = Suc 0" by (auto simp: arriving_def)
        with True 1 zc_arrives [of contents v] show ?thesis
          by (intro exI [of _ 3] exI [of _ "Suc 0"]) (simp add: numeral_3_eq_3)
      next
        case False
        with c 1 show ?thesis by (intro exI [of _ "Suc c"] exI [of _ s]) simp
      qed
    next
      case 2
      with c show ?thesis by (intro exI [of _ c] exI [of _ "Suc s"]) simp
    qed
  next
    assume "zc_talks contents c s w"
    from zc_talks_step [OF assms(1,2) this assms(4)] show ?thesis by (metis add_Suc add_Suc_right)
  qed
  then obtain c' s' where v: "c' + s' = Suc (c + s)"
    "c' < 3 \<and> zc_arriving contents c' s' v \<or> zc_talks contents c' s' v" by blast
  from v(2) have "c' + s' \<le> 7" by (auto simp: arriving_def zc_talks_def)
  then have n: "7 - (c' + s') + c' + s' = 7" by linarith
  with v(2) have "zc_togo contents (7 - (c' + s')) v" unfolding zc_togo_def by blast
  moreover from n v(1) k have "k = Suc (7 - (c' + s'))" by linarith
  ultimately show ?thesis by blast
qed

lemma zc_togo_tick:
  assumes "zc_togo contents k w" and "timely w t"
  shows "zc_togo contents k (w\<lparr>clock := t\<rparr>)"
proof -
  have "zc_talks contents c s w \<Longrightarrow> zc_talks contents c s (w\<lparr>clock := t\<rparr>)" for c s
    by (simp add: zc_talks_def)
  with assms arriving_tick [OF _ assms(2)] show ?thesis unfolding zc_togo_def by blast
qed

lemma zc_togo_progress:
  assumes "net_ok env" and "length contents = 30" and "zc_togo contents (Suc k) w"
  shows "\<exists>t v. timely w t \<and> net_step env (w\<lparr>clock := t\<rparr>) v"
proof -
  from assms(3) obtain c s where k: "Suc k + c + s = 7"
    and w: "c < 3 \<and> zc_arriving contents c s w \<or> zc_talks contents c s w"
    by (auto simp: zc_togo_def)
  from w show ?thesis
  proof
    assume c: "c < 3 \<and> zc_arriving contents c s w"
    then have "c + s < 5" by (auto simp: arriving_def)
    with c show ?thesis by (blast intro: arriving_progress)
  next
    assume "zc_talks contents c s w"
    with k zc_talks_progress [OF assms(1,2)] show ?thesis by simp
  qed
qed

lemma zc_togo_sound:
  assumes "zc_togo contents k w"
  shows "tasks w side \<noteq> None \<and> (all_finished w \<longleftrightarrow> k = 0)"
proof -
  from assms obtain c s where k: "k + c + s = 7"
    and w: "c < 3 \<and> zc_arriving contents c s w \<or> zc_talks contents c s w"
    by (auto simp: zc_togo_def)
  from w show ?thesis
  proof
    assume c: "c < 3 \<and> zc_arriving contents c s w"
    then have "c + s < 5" by (auto simp: arriving_def)
    with c k show ?thesis using arriving_no_panic [of "zc_f contents" _ _ c s w side] by auto
  next
    assume "zc_talks contents c s w"
    with k show ?thesis by (cases side) (auto simp: zc_talks_def all_finished_def)
  qed
qed

text \<open>The file of the test has thirty bytes; a buffer of that length stands for it.\<close>

definition thirty :: "u8 list \<Rightarrow> u8 list" where
  "thirty bytes = take 30 (bytes @ replicate 30 0)"

lemma thirty_simps [simp]: "length (thirty bytes) = 30" "length bytes = 30 \<Longrightarrow> thirty bytes = bytes"
  by (simp_all add: thirty_def)

interpretation copying: counted_test "test_zero_copy (thirty bytes)" 7 "zc_togo (thirty bytes)" for bytes
proof
  have "zc_arriving contents 0 0 (test_zero_copy contents)" for contents
    unfolding test_zero_copy_def zero_copy_client_def zero_copy_server_def
    by (rule arriving_start) (simp add: try_ok_def)
  then show "zc_togo (thirty bytes) 7 (test_zero_copy (thirty bytes))"
    by (auto simp: zc_togo_def intro!: exI [of _ 0])
  show "\<exists>j. k = Suc j \<and> zc_togo (thirty bytes) j v"
    if "net_ok env" "zc_togo (thirty bytes) k w" "net_step env w v" for env k w v
    using zc_togo_step [OF that(1) _ that(2,3)] by simp
  show "\<exists>t v. timely w t \<and> net_step env (w\<lparr>clock := t\<rparr>) v"
    if "net_ok env" "zc_togo (thirty bytes) (Suc k) w" for env k w
    using zc_togo_progress [OF that(1) _ that(2)] by simp
qed (fact zc_togo_tick zc_togo_sound)+

section \<open>The tests complete\<close>

lemma run_test_served: "run_test n = served (reply_f n) (expect_ok (Incoming_Then (reply_g n)))"
  by (simp add: run_test_def run_test_client_def run_test_server_def served_def reply_f_def reply_g_def)

lemma test_rustls_run_test: "test_rustls n = run_test n"
  by (simp add: run_test_def test_rustls_def run_test_client_def run_test_server_def rustls_client_def rustls_server_def)

lemma test_async_tcp_completes:
  assumes "net_ok env" and "timely_run env m test_async_tcp w"
  shows "(\<forall>side. tasks w side \<noteq> None) \<and> m \<le> 7 \<and> (all_finished w \<longleftrightarrow> m = 7) \<and>
    (m < 7 \<longrightarrow> (\<exists>t v. timely w t \<and> net_step env (w\<lparr>clock := t\<rparr>) v))"
  using tcp.test_completes [OF assms(1), of m w] assms(2)
  by (simp add: test_async_tcp_def async_tcp_client_def async_tcp_server_def served_def)

lemma test_clone_completes:
  assumes "net_ok env" and "timely_run env m test_clone w"
  shows "(\<forall>side. tasks w side \<noteq> None) \<and> m \<le> 7 \<and> (all_finished w \<longleftrightarrow> m = 7) \<and>
    (m < 7 \<longrightarrow> (\<exists>t v. timely w t \<and> net_step env (w\<lparr>clock := t\<rparr>) v))"
  using cloned.test_completes [OF assms(1), of m w] assms(2)
  by (simp add: test_clone_def clone_client_def clone_server_def served_def)

lemma test_zero_copy_completes:
  assumes "length contents = 30" and "net_ok env" and "timely_run env m (test_zero_copy contents) w"
  shows "(\<forall>side. tasks w side \<noteq> None) \<and> m \<le> 7 \<and> (all_finished w \<longleftrightarrow> m = 7) \<and>
    (m < 7 \<longrightarrow> (\<exists>t v. timely w t \<and> net_step env (w\<lparr>clock := t\<rparr>) v))"
  using copying.test_completes [OF assms(2), of m contents w] assms(1,3) by simp

section \<open>Late servers and joined frames\<close>

lemma net_run_trans: "net_run env v u \<Longrightarrow> net_run env w v \<Longrightarrow> net_run env w u"
  by (induction rule: net_run.induct) (auto intro: net_run.intros)

lemma net_run_step: "net_step env w v \<Longrightarrow> net_run env w v"
  by (rule net_run.step [OF net_run.stay])

text \<open>A client that wakes up before the server is bound is refused.\<close>

lemma late_server:
  "\<exists>w. net_run env (served f h) w \<and> tasks w True = f False \<and> tasks w False = Some (Bind_Then h) \<and> backlog w = 0"
proof -
  let ?d = "in_nanos (from_millis 100)"
  define a where "a = (served f h)\<lparr>tasks := (tasks (served f h))(True := Some (Sleeping ?d (Connect_Then f)))\<rparr>"
  define b where "b = a\<lparr>clock := ?d\<rparr>"
  define c where "c = b\<lparr>tasks := (tasks b)(True := Some (Connect_Then f))\<rparr>"
  define w where "w = c\<lparr>tasks := (tasks c)(True := f False)\<rparr>"
  have "net_run env (served f h) a"
    using net_run_step [OF start_sleep [of "served f h" True]] by (simp add: a_def served_def opened_def)
  then have "net_run env (served f h) b"
    using net_run.pass [of env "served f h" a ?d] by (simp add: a_def b_def served_def opened_def)
  moreover have "net_step env b c"
    using wake [of b True ?d "Connect_Then f"] by (simp add: a_def b_def c_def)
  moreover have "net_step env c w"
    using refuse [of c f] by (simp add: a_def b_def c_def w_def open_listener_def served_def opened_def)
  ultimately have "net_run env (served f h) w" by (blast intro: net_run.step)
  moreover have "tasks w True = f False" "tasks w False = Some (Bind_Then h)" "backlog w = 0"
    by (simp_all add: a_def b_def c_def w_def served_def opened_def)
  ultimately show ?thesis by blast
qed

lemma run_test_late_server: "\<exists>w. net_run env (run_test n) w \<and> tasks w True = None"
  using late_server [of env "reply_f n"] by (auto simp: run_test_served reply_f_def expect_ok_def)

text \<open>
  With \<open>?\<close> the client returns its error; the server then waits for a connection that nobody makes,
  and \<open>zip\<close> never returns.
\<close>

lemma abandoned_server_waits:
  assumes "net_run env w v" and "tasks w True = Some Failed" and "tasks w False = Some (Incoming_Then g)"
    and "backlog w = 0"
  shows "tasks v True = Some Failed \<and> tasks v False = Some (Incoming_Then g) \<and> backlog v = 0"
  using assms
proof (induction rule: net_run.induct)
  case (step w v u)
  then have v: "tasks v True = Some Failed" "tasks v False = Some (Incoming_Then g)" "backlog v = 0" by simp_all
  from step.hyps(2) show ?case
  proof cases
    case (start_sleep side d k)
    with v show ?thesis by (cases side) simp_all
  next
    case (wake side t k)
    with v show ?thesis by (cases side) simp_all
  next
    case talk
    then show ?thesis by cases (use v in \<open>metis (full_types) option.inject task.distinct\<close>)+
  qed (use v in simp_all)
qed simp_all

lemma test_async_tcp_late_server:
  assumes "net_ok env"
  shows "\<exists>w. net_run env test_async_tcp w \<and> (\<forall>v. net_run env w v \<longrightarrow> \<not> all_finished v \<and> \<not> over (tasks v False))"
proof -
  let ?g = "try_ok tcp_server" and ?h = "try_ok (Incoming_Then (try_ok tcp_server))"
  from late_server [of env "try_ok tcp_client" ?h] obtain w
    where w: "net_run env (served (try_ok tcp_client) ?h) w" "tasks w True = Some Failed"
      "tasks w False = Some (Bind_Then ?h)" "backlog w = 0"
    by (auto simp: try_ok_def)
  define v where "v = w\<lparr>tasks := (tasks w)(False := Some (Incoming_Then ?g)), listening := True\<rparr>"
  have "net_step env w v"
    using net_step.bind [OF w(3), of env] assms by (simp add: v_def try_ok_def)
  with w(1) have "net_run env test_async_tcp v"
    by (auto intro: net_run.step simp: test_async_tcp_def async_tcp_client_def async_tcp_server_def served_def)
  moreover have "\<not> all_finished u \<and> \<not> over (tasks u False)" if "net_run env v u" for u
    using abandoned_server_waits [OF that, of ?g] w(2,4) by (simp add: v_def all_finished_def over_def)
  ultimately show ?thesis by blast
qed

text \<open>
  The result of \<open>zip\<close> is dropped, so this test returns \<open>Ok\<close> although neither block got a connection:
  without an address, and with nobody else there to answer, both return an error and nothing panics.
\<close>

lemma test_async_tcp_passes_unconnected:
  assumes "\<not> binds env"
  shows "\<exists>w. net_run env test_async_tcp w \<and> tasks w True = Some Failed \<and> tasks w False = Some Failed"
proof -
  let ?h = "try_ok (Incoming_Then (try_ok tcp_server))"
  from late_server [of env "try_ok tcp_client" ?h] obtain w
    where w: "net_run env test_async_tcp w" "tasks w True = Some Failed" "tasks w False = Some (Bind_Then ?h)"
    by (auto simp: try_ok_def test_async_tcp_def async_tcp_client_def async_tcp_server_def served_def)
  let ?v = "w\<lparr>tasks := (tasks w)(False := Some Failed), listening := False\<rparr>"
  have "net_step env w ?v" using net_step.bind [OF w(3), of env] assms by (simp add: try_ok_def)
  with w(1) have "net_run env test_async_tcp ?v" by (rule net_run.step)
  with w(2) show ?thesis by (intro exI [of _ ?v]) simp
qed

text \<open>The opening can be run to its end.\<close>

lemma arriving_reach:
  assumes "net_up env" and "waiting (f True)" and "h True = Some (Incoming_Then g)"
  shows "arriving f h g c s w \<Longrightarrow> \<exists>v. net_run env w v \<and> arriving f h g 3 2 v"
proof (induction "5 - (c + s)" arbitrary: c s w rule: less_induct)
  case less
  show ?case
  proof (cases "c + s < 5")
    case True
    with arriving_progress [OF less.prems] obtain t v
      where v: "timely w t" "net_step env (w\<lparr>clock := t\<rparr>) v" by blast
    from arriving_step [OF arriving_tick [OF less.prems v(1)] True v(2) assms(1) _ assms(3)] assms(2)
    obtain c' s' where "arriving f h g c' s' v" "c' + s' = Suc (c + s)" by auto
    moreover from this True have "5 - (c' + s') < 5 - (c + s)" by linarith
    ultimately obtain u where u: "net_run env v u" "arriving f h g 3 2 u" using less.hyps by blast
    have "net_run env w v"
      using v net_run.step [OF net_run.pass [OF net_run.stay]] by (auto simp: timely_def)
    with u show ?thesis by (blast intro: net_run_trans)
  next
    case False
    with arriving_full [OF less.prems] less.prems net_run.stay show ?thesis by auto
  qed
qed

text \<open>
  Without replies two sends can arrive together, the sleep between them notwithstanding, and then
  the client takes them for one frame.
\<close>

lemma native_test_can_fail:
  assumes "net_ok env"
  shows "\<exists>w. net_run env native_test w \<and> tasks w True = None"
proof -
  let ?f = "expect_ok (Tls_Then (expect_ok (frames_client 2)))"
  let ?g = "expect_ok (Tls_Then (expect_ok (frames_server 2)))"
  have start: "native_test = served ?f (expect_ok (Incoming_Then ?g))"
    by (simp add: native_test_def native_client_def native_server_def served_def TEST_ITERATION_def)
  have "arriving ?f (expect_ok (Incoming_Then ?g)) ?g 0 0 native_test"
    unfolding start served_def by (rule arriving_start) (simp add: expect_ok_def)
  from arriving_reach [OF net_ok_simps(6) [OF assms] _ _ this] obtain a
    where a: "net_run env native_test a" "arriving ?f (expect_ok (Incoming_Then ?g)) ?g 3 2 a"
    by (auto simp: waiting_def expect_ok_def)
  let ?two = "Send_Then [32, 17] (expect_ok (frames_server 1))" and ?t = "clock a + in_nanos (from_micros 1)"
  define b where "b = a\<lparr>tasks := (tasks a)(True := Some (frames_client 2), False := Some (frames_server 2))\<rparr>"
  define c where "c = b\<lparr>tasks := (tasks b)(False := Some (Sleep_Then (from_micros 1) ?two)),
    inbox := (inbox b)(True := [5, 10, 99])\<rparr>"
  define d where "d = c\<lparr>tasks := (tasks c)(False := Some (Sleeping ?t ?two))\<rparr>"
  define e where "e = d\<lparr>clock := ?t\<rparr>"
  define p where "p = e\<lparr>tasks := (tasks e)(False := Some ?two)\<rparr>"
  define q where "q = p\<lparr>tasks := (tasks p)(False := Some (frames_server 1)), inbox := (inbox p)(True := [5, 10, 99, 32, 17])\<rparr>"
  define r where "r = q\<lparr>tasks := (tasks q)(True := None), inbox := (inbox q)(True := [])\<rparr>"
  have frames: "frames_server 2 = Send_Then [5, 10, 99] (expect_ok (Sleep_Then (from_micros 1) ?two))"
    by (simp add: numeral_2_eq_2)
  have empty: "inbox a True = []" using a(2) by (simp add: arriving_done)
  note defs = b_def c_def d_def e_def p_def q_def r_def
  have "net_step env a b"
    using handshake [of a "expect_ok (frames_client 2)" "expect_ok (frames_server 2)" env] a(2) assms
    by (simp add: b_def arriving_done expect_ok_def)
  moreover have "net_step env b c"
    using talk [OF exchange_step.send [of b False "[5, 10, 99]" "expect_ok (Sleep_Then (from_micros 1) ?two)"]] frames empty
    by (simp add: defs expect_ok_def)
  moreover have "net_step env c d"
    using start_sleep [of c False "from_micros 1" ?two env] by (simp add: defs)
  ultimately have "net_run env native_test d" using a(1) by (blast intro: net_run.step)
  then have "net_run env native_test e"
    using net_run.pass [of env native_test d ?t] by (simp add: defs)
  moreover have "net_step env e p"
    using wake [of e False ?t ?two env] by (simp add: defs)
  moreover have "net_step env p q"
    using talk [OF exchange_step.send [of p False "[32, 17]" "expect_ok (frames_server 1)"]] empty
    by (simp add: defs expect_ok_def)
  moreover have "net_step env q r"
    using talk [OF exchange_step.recv [of q True _ "[5, 10, 99, 32, 17]" "[]" "delivers env"]] assms
    by (simp add: defs numeral_2_eq_2 whole_def)
  ultimately have "net_run env native_test r" by (blast intro: net_run.step)
  moreover have "tasks r True = None" by (simp add: r_def)
  ultimately show ?thesis by blast
qed

text \<open>
  That a read gives all bytes in flight is not promised by a connection, and the tests with replies
  need it: when a read can give a part of the first message only, the server's assertion can fail.
\<close>

lemma reply_talk_begins:
  assumes "net_up env"
  shows "\<exists>w. net_run env (run_test (Suc n)) w \<and> tasks w True = Some (reply_client 0 (Suc n)) \<and>
     tasks w False = Some (reply_server 0 (Suc n)) \<and> inbox w False = []"
proof -
  let ?n = "Suc n"
  have "arriving (reply_f ?n) (expect_ok (Incoming_Then (reply_g ?n))) (reply_g ?n) 0 0 (run_test ?n)"
    unfolding run_test_served served_def by (rule arriving_start) (simp add: expect_ok_def)
  from arriving_reach [OF assms _ _ this] obtain a where a: "net_run env (run_test ?n) a"
    "arriving (reply_f ?n) (expect_ok (Incoming_Then (reply_g ?n))) (reply_g ?n) 3 2 a"
    by (auto simp: waiting_def expect_ok_def reply_f_def)
  then have "net_step env a (a\<lparr>tasks := (tasks a)(True := Some (reply_client 0 ?n), False := Some (reply_server 0 ?n))\<rparr>)"
    using handshake [of a "expect_ok (reply_client 0 ?n)" "expect_ok (reply_server 0 ?n)" env] assms
    by (simp add: arriving_done expect_ok_def reply_f_def reply_g_def)
  with a show ?thesis
    by (intro exI [of _ "a\<lparr>tasks := (tasks a)(True := Some (reply_client 0 ?n), False := Some (reply_server 0 ?n))\<rparr>"])
      (auto simp: arriving_done intro: net_run.step)
qed

lemma run_test_split_message:
  assumes "net_up env" and "message 0 = got @ rest" and "got \<noteq> []" and "rest \<noteq> []" and "delivers env (message 0) got"
  shows "\<exists>w. net_run env (run_test (Suc n)) w \<and> tasks w False = None"
proof -
  obtain b where b: "net_run env (run_test (Suc n)) b" "tasks b True = Some (reply_client 0 (Suc n))"
    "tasks b False = Some (reply_server 0 (Suc n))" "inbox b False = []"
    using reply_talk_begins [OF assms(1)] by blast
  define c where "c = b\<lparr>tasks := (tasks b)(True := Some (await_reply 0 n)), inbox := (inbox b)(False := message 0)\<rparr>"
  have "net_step env b c"
    using talk [OF exchange_step.send [of b True "message 0" "expect_ok (await_reply 0 n)"]] b(2,4)
    by (simp add: c_def reply_client_unfold expect_ok_def del: reply_client.simps)
  moreover have "\<exists>d. net_step env c d \<and> tasks d False = None"
    using talk [OF exchange_step.recv [of c False _ got rest "delivers env"]] b(3) assms(2-5)
    by (auto simp: c_def)
  ultimately show ?thesis using b(1) by (blast intro: net_run.step)
qed

section \<open>Properties\<close>

definition quiet_net :: net_env where
  "quiet_net = \<lparr>binds = True, accepts = True, shakes = (\<lambda>_. True), breaks = False, delivers = whole\<rparr>"



end
