(* ===== verification/Test_Suite.thy ===== *)
theory Test_Suite
  imports Retry Mmap Net
begin

text \<open>
  Tests of the repository, run on the model. A test is a definition with the steps of its source and
  its assertions as a truth value; a test that uses files or sockets takes the package as its
  argument and holds in every environment that keeps the contract. An error that the test's \<open>?\<close>
  returns ends it, and what the test does with it is stated there.
\<close>

section \<open>Delay strategies\<close>

text \<open>A sequence of \<open>assert_eq!(iter.next(), Some(..))\<close>.\<close>

definition nexts_are :: "('s, Duration) iter_next \<Rightarrow> 's \<Rightarrow> Duration list \<Rightarrow> bool" where
  "nexts_are nxt it ds \<longleftrightarrow> iter_items nxt (length ds) it = ds"

definition test_fibonacci_series_starting_at_10 :: bool where
  "test_fibonacci_series_starting_at_10 \<longleftrightarrow>
     nexts_are FibonacciBackoff_next (FibonacciBackoff_from_millis 10)
       [from_millis 10, from_millis 10, from_millis 20, from_millis 30, from_millis 50, from_millis 80]"

definition test_fibonacci_saturates_at_maximum_value :: bool where
  "test_fibonacci_saturates_at_maximum_value \<longleftrightarrow>
     nexts_are FibonacciBackoff_next (FibonacciBackoff_from_millis (- 1)) [from_millis (- 1), from_millis (- 1)]"

definition test_fibonacci_stops_increasing_at_max_delay :: bool where
  "test_fibonacci_stops_increasing_at_max_delay \<longleftrightarrow>
     nexts_are FibonacciBackoff_next (FibonacciBackoff_max_delay (FibonacciBackoff_from_millis 10) (from_millis 50))
       [from_millis 10, from_millis 10, from_millis 20, from_millis 30, from_millis 50, from_millis 50]"

definition test_fibonacci_returns_max_when_max_less_than_base :: bool where
  "test_fibonacci_returns_max_when_max_less_than_base \<longleftrightarrow>
     nexts_are FibonacciBackoff_next (FibonacciBackoff_max_delay (FibonacciBackoff_from_secs 20) (from_secs 10))
       [from_secs 10, from_secs 10]"

definition test_exponential_some_exponential_base_10 :: bool where
  "test_exponential_some_exponential_base_10 \<longleftrightarrow>
     nexts_are ExponentialBackoff_next (ExponentialBackoff_from_millis 10)
       [from_millis 10, from_millis 100, from_millis 1000]"

definition test_exponential_some_exponential_base_2 :: bool where
  "test_exponential_some_exponential_base_2 \<longleftrightarrow>
     nexts_are ExponentialBackoff_next (ExponentialBackoff_from_millis 2)
       [from_millis 2, from_millis 4, from_millis 8]"

definition test_exponential_saturates_at_maximum_value :: bool where
  "test_exponential_saturates_at_maximum_value \<longleftrightarrow>
     nexts_are ExponentialBackoff_next (ExponentialBackoff_from_millis (- 2))
       [from_millis (- 2), from_millis (- 1), from_millis (- 1)]"

definition test_exponential_stops_increasing_at_max_delay :: bool where
  "test_exponential_stops_increasing_at_max_delay \<longleftrightarrow>
     nexts_are ExponentialBackoff_next (ExponentialBackoff_max_delay (ExponentialBackoff_from_millis 2) (from_millis 4))
       [from_millis 2, from_millis 4, from_millis 4]"

definition test_exponential_max_when_max_less_than_base :: bool where
  "test_exponential_max_when_max_less_than_base \<longleftrightarrow>
     nexts_are ExponentialBackoff_next (ExponentialBackoff_max_delay (ExponentialBackoff_from_millis 20) (from_millis 10))
       [from_millis 10, from_millis 10]"

section \<open>The retry loop\<close>

text \<open>
  The state of these tests is the counter \<open>executed_retries\<close>; the delays pass without an effect on it.
  The error kind \<open>AddrNotAvailable\<close> is one that only the operating system produces in the sources.
\<close>

definition always_not_found :: "u8 \<Rightarrow> (usize, io_error) result \<times> u8" where
  "always_not_found executed_retries = (Inl (IoError NotFound []), executed_retries + 1)"

definition addr_not_available :: error_kind where
  "addr_not_available = OsKind 99"

definition not_found_then_addr :: "u8 \<Rightarrow> (usize, io_error) result \<times> u8" where
  "not_found_then_addr executed_retries =
     (let i = executed_retries + 1 in
      (Inl (IoError (if i < 2 then NotFound else addr_not_available) []), i))"

text \<open>The result is an error of the kind, and the counter has the value.\<close>

definition failed_after :: "error_kind \<Rightarrow> u8 \<Rightarrow> ((usize, io_error) result \<times> u8) option \<Rightarrow> bool" where
  "failed_after k n r = (case r of
      Some (Inl err, executed_retries) \<Rightarrow> kind err = k \<and> executed_retries = n
    | _ \<Rightarrow> False)"

definition test_fixed_retries_no_delay :: bool where
  "test_fixed_retries_no_delay \<longleftrightarrow> failed_after NotFound 3
     (retry (take_next FixedDelay_next) (2, FixedDelay_default) always_not_found (\<lambda>_ w. w) 0)"

definition test_fixed_retries_not_retryable :: bool where
  "test_fixed_retries_not_retryable \<longleftrightarrow> failed_after NotFound 1
     (retry_if (take_next FixedDelay_next) (10, FixedDelay_from_millis 100) always_not_found (\<lambda>_. False)
       (\<lambda>_ w. w) 0)"

definition test_conditional_retry :: bool where
  "test_conditional_retry \<longleftrightarrow> failed_after addr_not_available 2
     (retry_if (take_next FixedDelay_next) (10, FixedDelay_default) not_found_then_addr
       (\<lambda>err. kind err = NotFound) (\<lambda>_ w. w) 0)"

section \<open>Sockets\<close>

text \<open>
  The client of the test of socket options on a platform other than Windows, with the observations of
  a socket that it makes. The test drops the result of the client, so an error of a connection
  passes. Its server accepts the two connections and is part of the parameter.
\<close>

definition test_tcp_stream_socket_opts ::
  "('s, 't, 'k) net_api \<Rightarrow> ('s \<Rightarrow> 't \<Rightarrow> bool) \<Rightarrow> ('s \<Rightarrow> 't \<Rightarrow> 'k option) \<Rightarrow> ('k \<Rightarrow> KeepaliveOpts) \<Rightarrow>
   string \<Rightarrow> 's \<Rightarrow> bool" where
  "test_tcp_stream_socket_opts net nodelay_of keepalive_of view addr s =
     (case stream_with_opts net addr (Some \<lparr>nodelay = Some False, keepalive = None\<rparr>) s of
        (Inl _, _) \<Rightarrow> True
      | (Inr t1, s1) \<Rightarrow>
          \<not> nodelay_of s1 t1 \<and> keepalive_of s1 t1 = None \<and>
          (let opts = \<lparr>nodelay = Some True, keepalive = Some \<lparr>ka_time = Some (from_secs 7201),
               ka_interval = Some (from_secs 76), ka_retries = Some 10\<rparr>\<rparr> in
           case stream_with_opts net addr (Some opts) s1 of
             (Inl _, _) \<Rightarrow> True
           | (Inr t2, s2) \<Rightarrow>
               nodelay_of s2 t2 \<and>
               (case keepalive_of s2 t2 of
                  None \<Rightarrow> False
                | Some k \<Rightarrow> ka_time (view k) = Some (from_secs 7201) \<and>
                    ka_interval (view k) = Some (from_secs 76) \<and> ka_retries (view k) = Some 10)))"

section \<open>Mapped files\<close>

text \<open>
  What is judged are the assertions on the file: an environment in which the file cannot be created or
  flushed says nothing about them. Both tests remove the file before they start; the assertions of
  the first hold whatever the file was, those of the second need that removal.
\<close>

definition test_mmap_write_with_pos ::
  "('s, 'h) mmap_api \<Rightarrow> ('s \<Rightarrow> string \<Rightarrow> u8 list option) \<Rightarrow> bool \<Rightarrow> string \<Rightarrow> 's \<Rightarrow> bool" where
  "test_mmap_write_with_pos api files checks index_path s =
     (case mut_create api index_path 10 s of
        (Returned (Inr (mm_file, _)), s1) \<Rightarrow>
          (case write_bytes checks mm_file 5 [5, 16, 68] of
             (Panicked, _) \<Rightarrow> False
           | (Returned _, mm_file') \<Rightarrow>
               (case flush_ft api mm_file' s1 of
                  (Returned (Inr _), s2) \<Rightarrow>
                    (case files s2 index_path of
                       None \<Rightarrow> False
                     | Some buffer \<Rightarrow> length buffer = 10 \<and> buffer ! 5 = 5 \<and> buffer ! 6 = 16 \<and> buffer ! 7 = 68)
                | (Returned (Inl _), _) \<Rightarrow> True
                | (Panicked, _) \<Rightarrow> False))
      | _ \<Rightarrow> True)"

definition test_empty_index_read_only ::
  "('s, 'h) mmap_api \<Rightarrow> (string \<Rightarrow> 's \<Rightarrow> 's) \<Rightarrow> string \<Rightarrow> 's \<Rightarrow> bool" where
  "test_empty_index_read_only api ensure_clean_file index_path s =
     (case mo_open api (OpenOptions_new\<lparr>opt_create := True, opt_write := True, opt_read := True\<rparr>) index_path
         (ensure_clean_file index_path s) of
        (Inl _, _) \<Rightarrow> True
      | (Inr f, s1) \<Rightarrow>
          (case mo_metadata_len api f s1 of
             Inl _ \<Rightarrow> True
           | Inr len \<Rightarrow> len = 0 \<and>
               (case map_open api index_path 10 s1 of
                  (Returned (Inr (mm_file, _)), _) \<Rightarrow>
                    (case map_inner mm_file of Panicked \<Rightarrow> False | Returned bs \<Rightarrow> length bs = 10)
                | _ \<Rightarrow> True)))"

section \<open>Lemmas\<close>

lemmas fibonacci_eval = nexts_are_def FibonacciBackoff_from_millis_def FibonacciBackoff_from_secs_def
  FibonacciBackoff_new_def FibonacciBackoff_max_delay_def FibonacciBackoff_next_def over_max_def
  duration_checked_add_def from_millis_def from_secs_def checked_add_def less_Duration_def
  less_eq_Duration_def Let_def

lemmas exponential_eval = nexts_are_def ExponentialBackoff_from_millis_def ExponentialBackoff_max_delay_def
  ExponentialBackoff_next_def over_max_def from_millis_def checked_mul_def less_Duration_def less_eq_Duration_def
  Let_def unsigned_minus_1_eq_mask mask_eq_exp_minus_1

lemma fibonacci_tests_pass:
  "test_fibonacci_series_starting_at_10" "test_fibonacci_saturates_at_maximum_value"
  "test_fibonacci_stops_increasing_at_max_delay" "test_fibonacci_returns_max_when_max_less_than_base"
  unfolding test_fibonacci_series_starting_at_10_def test_fibonacci_saturates_at_maximum_value_def
    test_fibonacci_stops_increasing_at_max_delay_def test_fibonacci_returns_max_when_max_less_than_base_def
  by (simp_all add: fibonacci_eval NANOS_PER_SEC_def)

lemma exponential_tests_pass:
  "test_exponential_some_exponential_base_10" "test_exponential_some_exponential_base_2"
  "test_exponential_saturates_at_maximum_value" "test_exponential_stops_increasing_at_max_delay"
  "test_exponential_max_when_max_less_than_base"
  unfolding test_exponential_some_exponential_base_10_def test_exponential_some_exponential_base_2_def
    test_exponential_saturates_at_maximum_value_def test_exponential_stops_increasing_at_max_delay_def
    test_exponential_max_when_max_less_than_base_def
  by (simp_all add: exponential_eval NANOS_PER_SEC_def)

lemmas retry_eval = failed_after_def retry_def retry_if_def poll_err_def always_not_found_def
  not_found_then_addr_def addr_not_available_def FixedDelay_next_def FixedDelay_from_millis_def
  FixedDelay_default_def FixedDelay_new_def Let_def take_next_def

lemma retry_tests_pass:
  "test_fixed_retries_no_delay" "test_fixed_retries_not_retryable" "test_conditional_retry"
  unfolding test_fixed_retries_no_delay_def test_fixed_retries_not_retryable_def test_conditional_retry_def
  by (simp_all add: retry_eval retry_loop.simps)

lemma test_empty_index_read_only_passes:
  assumes c: "mmap_contract files path_of api" and clean: "files (ensure_clean_file index_path s) index_path = None"
  shows "test_empty_index_read_only api ensure_clean_file index_path s"
proof -
  let ?opts = "OpenOptions_new\<lparr>opt_create := True, opt_write := True, opt_read := True\<rparr>"
  have made: "path_of f = index_path \<and> files s1 index_path = Some []"
    if "mo_open api ?opts index_path (ensure_clean_file index_path s) = (Inr f, s1)" for f s1
    using c clean that unfolding mmap_contract_def by (fastforce simp: OpenOptions_new_def)
  have "len = 0" if "path_of f = index_path" "files s1 index_path = Some []" "mo_metadata_len api f s1 = Inr len"
    for f s1 len
    using c that unfolding mmap_contract_def by (metis list.size(3) unsigned_0 word_unat_eq_iff)
  then show ?thesis
    using made map_open_extent [OF c, of _ index_path "[]" 10]
    by (auto simp: test_empty_index_read_only_def split: prod.splits exec.splits sum.splits)
qed

lemma test_mmap_write_with_pos_passes:
  assumes "mmap_contract files path_of api"
  shows "test_mmap_write_with_pos api files checks index_path s"
proof (cases "\<exists>m f s1. mut_create api index_path 10 s = (Returned (Inr (m, f)), s1)")
  case True
  then obtain m f s1 where m: "mut_create api index_path 10 s = (Returned (Inr (m, f)), s1)" by blast
  note cr = mut_create_cases [OF assms m]
  have len: "length (mut_bytes m) = 10" using cr by (simp add: resize_def)
  let ?new = "take 5 (mut_bytes m) @ [5, 16, 68] @ drop 8 (mut_bytes m)"
  let ?m = "m\<lparr>mut_lock := (mut_lock m)\<lparr>lock_value := (lock_value (mut_lock m))\<lparr>mm_bytes := ?new\<rparr>\<rparr>\<rparr>"
  have ok: "\<not> lock_poisoned (mut_lock m)" "mm_handle (lock_value (mut_lock m)) = f" using cr by simp_all
  have w: "write_bytes checks m 5 [5, 16, 68] = (Returned (), ?m)"
    using write_bytes_spec [of m "[5, 16, 68]" checks 5] len ok(1) by (simp add: in_range_def)
  have m': "mut_bytes ?m = ?new" "\<not> lock_poisoned (mut_lock ?m)" "mm_handle (lock_value (mut_lock ?m)) = f"
    using ok by (simp_all add: mut_bytes_def)
  show ?thesis
  proof (cases "flush_ft api ?m s1")
    case (Pair r s2)
    have "r \<noteq> Panicked" using flush_ft_returns [OF m'(2), of api s1] Pair by simp
    moreover have "files s2 index_path = Some ?new" if "r = Returned (Inr ())"
      using flush_ft_files [OF assms m'(2) _ Pair [unfolded that]] cr m'(1,3) by simp
    ultimately show ?thesis
      using m w Pair len
      by (auto simp: test_mmap_write_with_pos_def nth_append split: exec.splits sum.splits)
  qed
qed (auto simp: test_mmap_write_with_pos_def split: prod.splits exec.splits sum.splits)

lemma test_tcp_stream_socket_opts_passes:
  assumes "net_contract nodelay_of keepalive_of net" and "keepalive_contract view net"
  shows "test_tcp_stream_socket_opts net nodelay_of keepalive_of view addr s"
proof -
  have applied: "nodelay_of s' t = (nodelay opts = Some True) \<and>
      map_option view (keepalive_of s' t) = keepalive opts"
    if "stream_with_opts net addr (Some opts) s0 = (Inr t, s')" for opts s0 t s'
    using stream_options [OF assms that] .
  show ?thesis
    unfolding test_tcp_stream_socket_opts_def Let_def
    by (auto split: prod.split sum.split dest!: applied)
qed

end
