(* ===== verification/Test_Files.thy ===== *)
theory Test_Files
  imports Posix_Fs Bounded_File Zero_Copy Mmap Net Exchange
begin

text \<open>
  The tests of the file components, run on the model: \<open>src/src/fs/extension.rs\<close>, \<open>src/src/fs/bounded.rs\<close>,
  \<open>src/src/fs/mmap.rs\<close> and \<open>src/src/zero_copy.rs\<close>. A test is a definition with the steps of its source and
  its assertions as a truth value. An error that \<open>?\<close> or \<open>expect\<close> turns into the end of the test comes
  from the environment: what is judged are the assertions behind it, so such a run counts as passed.
  The lemmas say that every test passes in every environment that keeps the contracts, and which
  state of the temporary directory one of them needs.
\<close>

text \<open>A step whose error ends the test, and the rest of the test.\<close>

definition ok_then :: "('a, 'e) result \<times> 's \<Rightarrow> ('a \<Rightarrow> 's \<Rightarrow> bool) \<Rightarrow> bool" where
  "ok_then r rest = (case r of (Inl _, _) \<Rightarrow> True | (Inr x, s) \<Rightarrow> rest x s)"

section \<open>Tests of extension.rs\<close>

text \<open>The first test does not use the openers: its options are those of the standard library.\<close>

definition test_sync_seek_write ::
  "('s, 'h) fs_api \<Rightarrow> ('s, 'h) open_file_api \<Rightarrow> string \<Rightarrow> 's \<Rightarrow> bool" where
  "test_sync_seek_write fs px test_file s =
     ok_then (fs_open_with fs (OpenOptions_new\<lparr>opt_read := True, opt_write := True, opt_create := True,
         opt_append := False\<rparr>) test_file s) (\<lambda>f s.
     ok_then (file_ops_run px f [Op_Seek 0, Op_Write_All (ascii ''test''), Op_Sync_All] s) (\<lambda>_ s.
     ok_then (fs_open fs test_file s) (\<lambda>f2 s.
     ok_then (file_ops_run px f2 [Op_Read_To_End] s) (\<lambda>contents s.
       concat contents = ascii ''test''))))"

definition file_multiple_overwrite ::
  "('s, 'h) fs_api \<Rightarrow> ('s, 'h) open_file_api \<Rightarrow> (string \<Rightarrow> 's \<Rightarrow> 's) \<Rightarrow> string \<Rightarrow> 's \<Rightarrow> bool" where
  "file_multiple_overwrite fs px ensure_clean_file test_file_path s =
     ok_then (util_create fs test_file_path (ensure_clean_file test_file_path s)) (\<lambda>f s.
     ok_then (file_ops_run px f [Op_Seek 0, Op_Write_All (ascii ''test''), Op_Sync_All] s) (\<lambda>_ s.
     ok_then (util_create fs test_file_path s) (\<lambda>f s.
     ok_then (file_ops_run px f [Op_Seek 0, Op_Write_All (ascii ''xyzt''), Op_Sync_All] s) (\<lambda>_ s.
     ok_then (util_open fs test_file_path s) (\<lambda>f s.
     ok_then (file_ops_run px f [Op_Read_To_End] s) (\<lambda>output s.
       length (concat output) = 4 \<and> concat output = ascii ''xyzt''))))))"

definition async_file_write_read_same ::
  "('s, 'h) fs_api \<Rightarrow> ('s, 'h) open_file_api \<Rightarrow> (string \<Rightarrow> 's \<Rightarrow> 's) \<Rightarrow> string \<Rightarrow> 's \<Rightarrow> bool" where
  "async_file_write_read_same fs px ensure_clean_file test_file_path s =
     ok_then (util_open_read_write fs test_file_path (ensure_clean_file test_file_path s)) (\<lambda>f s.
     ok_then (file_ops_run px f [Op_Write_All (ascii ''test''), Op_Seek 0, Op_Read_To_End] s) (\<lambda>output s.
       length (concat output) = 4 \<and> concat output = ascii ''test''))"

definition async_file_write_append_same ::
  "('s, 'h) fs_api \<Rightarrow> ('s, 'h) open_file_api \<Rightarrow> (string \<Rightarrow> 's \<Rightarrow> 's) \<Rightarrow> string \<Rightarrow> 's \<Rightarrow> bool" where
  "async_file_write_append_same fs px ensure_clean_file test_file_path s =
     ok_then (util_open_read_append fs test_file_path (ensure_clean_file test_file_path s)) (\<lambda>f s.
     ok_then (file_ops_run px f [Op_Write_All (ascii ''test''), Op_Seek 0, Op_Write_All (ascii ''xyz''),
         Op_Seek 0, Op_Read_To_End] s) (\<lambda>output s.
       length (concat output) = 7 \<and> concat output = ascii ''testxyz''))"

definition test_as_slice ::
  "bool \<Rightarrow> ('s, 'f) fs_api \<Rightarrow> 'f file_api \<Rightarrow> 's \<Rightarrow> bool" where
  "test_as_slice checks fs api s =
     ok_then (util_open fs ''test-data/apirequest.bin'' s) (\<lambda>f s.
       case as_slice checks api f 0 None of
         Panicked \<Rightarrow> False
       | Returned (Inl _) \<Rightarrow> True
       | Returned (Inr f_slice) \<Rightarrow> slice_position f_slice = 0 \<and> slice_len f_slice = 30)"

text \<open>The tests start by removing their file: what the fixture's function promises.\<close>

definition clean_contract :: "('s \<Rightarrow> string \<Rightarrow> u8 list option) \<Rightarrow> (string \<Rightarrow> 's \<Rightarrow> 's) \<Rightarrow> bool" where
  "clean_contract content clean \<longleftrightarrow> (\<forall>path s. content (clean path s) path = None)"

section \<open>Lemmas on the tests of extension.rs\<close>

lemma ok_thenI: "(\<And>x s. r = (Inr x, s) \<Longrightarrow> rest x s) \<Longrightarrow> ok_then r rest"
  by (cases r) (auto simp: ok_then_def split: sum.split)

lemmas opener_defs = util_create_def util_open_def util_open_read_write_def util_open_read_append_def

text \<open>A file opened, a run of calls, and what they leave and give: the steps of all these tests.\<close>

lemma open_and_run:
  assumes "posix_contract content view px" and "opened_as content view opts path s opened"
    and "\<And>s2. content s2 = (content s)(path \<mapsto> snd (snd (spec_ops ops (\<lparr>ov_path = path, ov_options = opts, ov_pos = 0\<rparr>,
            if opt_truncate opts then [] else case content s path of None \<Rightarrow> [] | Some bs \<Rightarrow> bs)))) \<Longrightarrow>
       rest (fst (spec_ops ops (\<lparr>ov_path = path, ov_options = opts, ov_pos = 0\<rparr>,
            if opt_truncate opts then [] else case content s path of None \<Rightarrow> [] | Some bs \<Rightarrow> bs))) s2"
  shows "ok_then opened (\<lambda>h s1. ok_then (file_ops_run px h ops s1) rest)"
proof (intro ok_thenI)
  fix h s1 outs s2
  assume o: "opened = (Inr h, s1)" and run: "file_ops_run px h ops s1 = (Inr outs, s2)"
  note opened_run(1,3) [OF assms(1) assms(2) [unfolded o] run]
  with assms(3) show "rest outs s2" by simp
qed

lemmas and_run = open_and_run [OF _ opensD(1)] open_and_run [OF _ opensD(2)] open_and_run [OF _ opensD(3)]

lemmas run_eval = ascii_def written_def overwrite_def create_options_def open_options_def OpenOptions_new_def

text \<open>The first test does not clean up: it needs that an earlier file is not longer than its text.\<close>

lemma test_sync_seek_write_passes:
  assumes "opens_contract content view fs" and "posix_contract content view px"
    and "length (case content s test_file of None \<Rightarrow> [] | Some bs \<Rightarrow> bs) \<le> 4"
  shows "test_sync_seek_write fs px test_file s"
  unfolding test_sync_seek_write_def
  by (intro and_run(2,3) [OF assms(2,1)]) (use assms(3) in \<open>simp add: run_eval\<close>)

lemma file_multiple_overwrite_passes:
  assumes "opens_contract content view fs" and "posix_contract content view px"
  shows "file_multiple_overwrite fs px clean test_file_path s"
  unfolding file_multiple_overwrite_def opener_defs
  by (intro and_run(1,2) [OF assms(2,1)]) (simp add: run_eval)

lemma async_file_tests_pass:
  assumes "opens_contract content view fs" and "posix_contract content view px" and "clean_contract content clean"
  shows "async_file_write_read_same fs px clean test_file_path s"
    and "async_file_write_append_same fs px clean test_file_path s"
  unfolding async_file_write_read_same_def async_file_write_append_same_def opener_defs
  by (intro and_run(3) [OF assms(2,1)];
      use assms(3) in \<open>simp add: run_eval clean_contract_def\<close>)+

text \<open>On a longer file the test fails, whatever the rest of it is.\<close>

lemma test_sync_seek_write_fails:
  "\<not> test_sync_seek_write disk_fs disk_px ''x1''
       \<lparr>dk_files = [''x1'' \<mapsto> ascii ''contents''], dk_open = (\<lambda>_. None), dk_next = 0\<rparr>"
  by (simp add: test_sync_seek_write_def ok_then_def disk_fs_def disk_open_def disk_px_def disk_op_def
      run_eval may_write_def apfst_def map_prod_def)

lemma test_as_slice_passes:
  assumes "\<And>f s'. util_open fs ''test-data/apirequest.bin'' s = (Inr f, s') \<Longrightarrow> fa_metadata_len api f = Inr 30"
  shows "test_as_slice checks fs api s"
  unfolding test_as_slice_def
  by (rule ok_thenI) (simp add: as_slice_rest [OF assms])

section \<open>Tests of bounded.rs\<close>

text \<open>
  \<open>write_all\<close> of \<open>futures_lite\<close> on a sink, as its documentation says: it calls \<open>poll_write\<close> with what is
  left, again after each wake-up, until nothing is left, a call fails or takes no byte.
\<close>

inductive write_all_runs ::
  "bool \<Rightarrow> 'f file_api \<Rightarrow> u8 list \<Rightarrow> 'f BoundedFileSink \<Rightarrow> (unit, io_error) result exec \<Rightarrow>
   'f BoundedFileSink \<Rightarrow> bool"
  for checks :: bool and api :: "'f file_api" where
  Wa_Done: "write_all_runs checks api [] self (Returned (Inr ())) self"
| Wa_Pending: "\<lbrakk>buf \<noteq> []; sink_poll_write checks api buf self = (Returned Pending, self1);
     write_all_runs checks api buf self1 r self2\<rbrakk> \<Longrightarrow> write_all_runs checks api buf self r self2"
| Wa_More: "\<lbrakk>buf \<noteq> []; sink_poll_write checks api buf self = (Returned (Ready (Inr n)), self1); n \<noteq> 0;
     write_all_runs checks api (drop (unat n) buf) self1 r self2\<rbrakk> \<Longrightarrow> write_all_runs checks api buf self r self2"
| Wa_Zero: "\<lbrakk>buf \<noteq> []; sink_poll_write checks api buf self = (Returned (Ready (Inr 0)), self1)\<rbrakk> \<Longrightarrow>
     write_all_runs checks api buf self (Returned (Inl (IoError WriteZero ''failed to write whole buffer''))) self1"
| Wa_Error: "\<lbrakk>buf \<noteq> []; sink_poll_write checks api buf self = (Returned (Ready (Inl e)), self1)\<rbrakk> \<Longrightarrow>
     write_all_runs checks api buf self (Returned (Inl e)) self1"
| Wa_Panic: "\<lbrakk>buf \<noteq> []; sink_poll_write checks api buf self = (Panicked, self1)\<rbrakk> \<Longrightarrow>
     write_all_runs checks api buf self Panicked self1"

text \<open>
  What the tests call besides the sink: the extension methods of the package on it and on the file it
  lends out, and another handle that reads the path.
\<close>

record 'f sink_env =
  se_write_all :: "u8 list \<Rightarrow> 'f BoundedFileSink \<Rightarrow> (unit, io_error) result exec \<times> 'f BoundedFileSink"
  se_flush :: "'f BoundedFileSink \<Rightarrow> (unit, io_error) result \<times> 'f BoundedFileSink"
  se_read_to_end :: "'f \<Rightarrow> (u8 list, io_error) result \<times> 'f"
  se_std_read :: "'f \<Rightarrow> u8 list"

text \<open>A \<open>write_all\<close> whose failure ends the test; a panic of the counter fails it.\<close>

definition written_then ::
  "(unit, io_error) result exec \<times> 'f BoundedFileSink \<Rightarrow> ('f BoundedFileSink \<Rightarrow> bool) \<Rightarrow> bool" where
  "written_then r rest = (case r of
      (Panicked, _) \<Rightarrow> False
    | (Returned (Inl _), _) \<Rightarrow> True
    | (Returned (Inr _), f_sink) \<Rightarrow> rest f_sink)"

text \<open>The module's own function: the result of the removal is not looked at.\<close>

definition sink_ensure_clean_file :: "(string \<Rightarrow> 's \<Rightarrow> (unit, io_error) result \<times> 's) \<Rightarrow> string \<Rightarrow> 's \<Rightarrow> 's" where
  "sink_ensure_clean_file remove_file log_path s = snd (remove_file log_path s)"

definition test_sink_file_write_happy_path ::
  "('s, 'f) fs_api \<Rightarrow> 'f sink_env \<Rightarrow> (string \<Rightarrow> 's \<Rightarrow> (unit, io_error) result \<times> 's) \<Rightarrow> string \<Rightarrow> 's \<Rightarrow> bool" where
  "test_sink_file_write_happy_path fs env remove_file test_file s =
     ok_then (sink_create fs test_file BoundedFileOption_default (sink_ensure_clean_file remove_file test_file s)) (\<lambda>f_sink s.
     written_then (se_write_all env [1, 2, 3] f_sink) (\<lambda>f_sink.
       get_current_len f_sink = 3 \<and>
       ok_then (se_flush env f_sink) (\<lambda>_ f_sink.
         take 3 (se_std_read env (sink_inner f_sink)) = [1, 2, 3])))"

definition test_sink_file_write_multiple_path ::
  "('s, 'f) fs_api \<Rightarrow> 'f sink_env \<Rightarrow> (string \<Rightarrow> 's \<Rightarrow> (unit, io_error) result \<times> 's) \<Rightarrow> string \<Rightarrow> 's \<Rightarrow> bool" where
  "test_sink_file_write_multiple_path fs env remove_file test_file s =
     ok_then (sink_create fs test_file BoundedFileOption_default (sink_ensure_clean_file remove_file test_file s)) (\<lambda>f_sink s.
     let bytes = replicate 1000 1 in
     written_then (se_write_all env bytes f_sink) (\<lambda>f_sink.
     written_then (se_write_all env bytes f_sink) (\<lambda>f_sink.
       get_current_len f_sink = 2000 \<and>
       ok_then (se_flush env f_sink) (\<lambda>_ f_sink.
         length (take 2000 (se_std_read env (sink_inner f_sink))) = 2000))))"

definition test_sink_file_max_reached ::
  "bool \<Rightarrow> ('s, 'f) fs_api \<Rightarrow> 'f sink_env \<Rightarrow> (string \<Rightarrow> 's \<Rightarrow> (unit, io_error) result \<times> 's) \<Rightarrow> string \<Rightarrow> 's \<Rightarrow> bool"
  where
  "test_sink_file_max_reached checks fs env remove_file test_file s =
     ok_then (sink_create fs test_file \<lparr>max_len = Some 10\<rparr> (sink_ensure_clean_file remove_file test_file s)) (\<lambda>f_sink s.
     written_then (se_write_all env (replicate 8 1) f_sink) (\<lambda>f_sink.
       get_current_len f_sink = 8 \<and> can_be_appended checks f_sink 20 = Returned False))"

definition test_sink_file_write_read ::
  "('s, 'f) fs_api \<Rightarrow> 'f file_api \<Rightarrow> 'f sink_env \<Rightarrow> (string \<Rightarrow> 's \<Rightarrow> (unit, io_error) result \<times> 's) \<Rightarrow> string \<Rightarrow> 's \<Rightarrow>
   bool" where
  "test_sink_file_write_read fs api env remove_file test_file s =
     ok_then (sink_open_append fs api test_file BoundedFileOption_default
        (sink_ensure_clean_file remove_file test_file s)) (\<lambda>f_sink s.
     written_then (se_write_all env (replicate 73 1) f_sink) (\<lambda>f_sink.
     written_then (se_write_all env (replicate 74 1) f_sink) (\<lambda>f_sink.
       get_current_len f_sink = 147 \<and>
       ok_then (fa_seek api (Seek_Start 0) (sink_inner f_sink)) (\<lambda>_ f.
       ok_then (se_read_to_end env f) (\<lambda>read_buf f. length read_buf = 147)))))"

text \<open>The test of the nested module uses a file of the standard library only.\<close>

definition test_sink_file_write_std ::
  "('s, 'h) fs_api \<Rightarrow> ('s, 'h) open_file_api \<Rightarrow> ('s \<Rightarrow> string \<Rightarrow> u8 list option) \<Rightarrow>
   (string \<Rightarrow> 's \<Rightarrow> (unit, io_error) result \<times> 's) \<Rightarrow> string \<Rightarrow> 's \<Rightarrow> bool" where
  "test_sink_file_write_std fs px content remove_file test_file s =
     ok_then (fs_create fs test_file (sink_ensure_clean_file remove_file test_file s)) (\<lambda>f_sink s.
     ok_then (file_ops_run px f_sink [Op_Write_All (replicate 73 1), Op_Write_All (replicate 74 1)] s) (\<lambda>_ s.
       map_option length (content s test_file) = Some 147))"

text \<open>
  The environment: \<open>write_all\<close> runs as above, a created file and one opened where there was none
  are empty, a flush reaches the disk, and reading starts at the position of the last seek.
\<close>

definition sink_env_contract ::
  "bool \<Rightarrow> ('f \<Rightarrow> u8 list) \<Rightarrow> ('f \<Rightarrow> nat) \<Rightarrow> 'f file_api \<Rightarrow> 'f sink_env \<Rightarrow> bool" where
  "sink_env_contract checks bytes pos api env \<longleftrightarrow>
     (\<forall>buf self. write_all_runs checks api buf self (fst (se_write_all env buf self)) (snd (se_write_all env buf self))) \<and>
     (\<forall>self self'. se_flush env self = (Inr (), self') \<longrightarrow>
        self' = self\<lparr>writer := writer self'\<rparr> \<and> bytes (writer self') = bytes (writer self) \<and>
        se_std_read env (writer self') = bytes (writer self')) \<and>
     (\<forall>n f r f'. fa_seek api (Seek_Start n) f = (Inr r, f') \<longrightarrow> bytes f' = bytes f \<and> pos f' = unat n) \<and>
     (\<forall>f out f'. se_read_to_end env f = (Inr out, f') \<longrightarrow> out = drop (pos f) (bytes f))"

definition fresh_contract ::
  "('f \<Rightarrow> u8 list) \<Rightarrow> ('s, 'f) fs_api \<Rightarrow> (string \<Rightarrow> 's \<Rightarrow> (unit, io_error) result \<times> 's) \<Rightarrow> bool" where
  "fresh_contract bytes fs remove_file \<longleftrightarrow>
     (\<forall>path s f s'. fs_create fs path s = (Inr f, s') \<longrightarrow> bytes f = []) \<and>
     (\<forall>opts path s f s'. fs_open_with fs opts path (snd (remove_file path s)) = (Inr f, s') \<longrightarrow> bytes f = [])"

section \<open>Lemmas on the tests of bounded.rs\<close>

lemma sink_poll_write_cases:
  assumes fc: "file_contract bytes disk api" and sc: "sink_counts bytes self"
    and fits: "unat (current_len self) + length buf < 2 ^ 64"
    and w: "sink_poll_write checks api buf self = (r, self')"
  shows "r \<noteq> Panicked \<and> sink_counts bytes self' \<and> sink_option self' = sink_option self \<and>
     (\<forall>n. r = Returned (Ready (Inr n)) \<longrightarrow> unat n \<le> length buf \<and>
        bytes (writer self') = bytes (writer self) @ take (unat n) buf) \<and>
     (r = Returned Pending \<longrightarrow> bytes (writer self') = bytes (writer self))"
proof -
  obtain q f where q: "fa_poll_write api buf (writer self) = (q, f)" by fastforce
  note spec = file_contract_write [OF fc q]
  show ?thesis
  proof (cases "\<exists>n. q = Ready (Inr n)")
    case True
    then obtain n where n: "q = Ready (Inr n)" by blast
    with spec have le: "unat n \<le> length buf" "bytes f = bytes (writer self) @ take (unat n) buf" by auto
    then have small: "unat (current_len self) + unat n < 2 ^ 64" using fits by simp
    then have "add_op checks (current_len self) n = Returned (current_len self + n)" by (simp add: add_op_exact)
    then show ?thesis
      using w q n le sc small unat_add_small [of "current_len self" n] by (auto simp: sink_poll_write_def sink_counts_def)
  next
    case False
    with spec w q sc show ?thesis
      by (auto simp: sink_poll_write_def sink_counts_def split: poll.splits sum.splits)
  qed
qed

lemma write_all_appends:
  assumes fc: "file_contract bytes disk api" and run: "write_all_runs checks api buf self r self'"
    and "sink_counts bytes self" and "unat (current_len self) + length buf < 2 ^ 64"
  shows "r \<noteq> Panicked \<and> (r = Returned (Inr ()) \<longrightarrow>
     bytes (writer self') = bytes (writer self) @ buf \<and> sink_counts bytes self' \<and>
     sink_option self' = sink_option self)"
  using run assms(3-)
proof (induction rule: write_all_runs.induct)
  case (Wa_Pending buf self self1 r self2)
  note c = sink_poll_write_cases [OF fc Wa_Pending.prems Wa_Pending.hyps(2)]
  then have "current_len self1 = current_len self"
    using Wa_Pending.prems(1) by (simp add: sink_counts_def word_unat_eq_iff)
  with c Wa_Pending show ?case by simp
next
  case (Wa_More buf self n self1 r self2)
  note c = sink_poll_write_cases [OF fc Wa_More.prems Wa_More.hyps(2)]
  then have "unat (current_len self1) = unat (current_len self) + unat n" "unat n \<le> length buf"
    using Wa_More.prems(1) by (simp_all add: sink_counts_def)
  with c Wa_More show ?case by simp
next
  case (Wa_Panic buf self self1)
  with sink_poll_write_cases [OF fc Wa_Panic.prems Wa_Panic.hyps(2)] show ?case by simp
qed simp_all

lemma written_thenI:
  assumes env: "sink_env_contract checks bytes pos api env" and fc: "file_contract bytes disk api"
    and "sink_counts bytes self" and "unat (current_len self) + length buf < 2 ^ 64"
    and rest: "\<And>self'. bytes (writer self') = bytes (writer self) @ buf \<Longrightarrow> sink_counts bytes self' \<Longrightarrow>
       sink_option self' = sink_option self \<Longrightarrow> rest self'"
  shows "written_then (se_write_all env buf self) rest"
proof (cases "se_write_all env buf self")
  case (Pair r self')
  have "write_all_runs checks api buf self r self'"
    using env [unfolded sink_env_contract_def, THEN conjunct1, rule_format, of buf self] Pair by simp
  from write_all_appends [OF fc this assms(3,4)] Pair rest [of self'] show ?thesis
    by (auto simp: written_then_def split: exec.splits sum.splits)
qed

lemma flushed_thenI:
  assumes "sink_env_contract checks bytes pos api env"
    and "\<And>self'. se_std_read env (writer self') = bytes (writer self) \<Longrightarrow> rest self'"
  shows "ok_then (se_flush env self) (\<lambda>_. rest)"
  using assms(1) [unfolded sink_env_contract_def, THEN conjunct2, THEN conjunct1, rule_format, of self] assms(2)
  by (intro ok_thenI) auto

lemma created_empty:
  assumes "fresh_contract bytes fs remove_file" and "sink_create fs path opt s = (Inr self, s')"
  shows "bytes (writer self) = [] \<and> current_len self = 0 \<and> sink_counts bytes self \<and> sink_option self = opt"
  using assms by (fastforce simp: sink_create_def fresh_contract_def sink_counts_def split: prod.splits sum.splits)

lemma counted_len: "sink_counts bytes self \<Longrightarrow> unat (current_len self) = length (bytes (writer self))"
  by (simp add: sink_counts_def)

lemma counted_eq:
  "sink_counts bytes self \<Longrightarrow> length (bytes (writer self)) = unat n \<Longrightarrow> current_len self = n"
  by (simp add: sink_counts_def word_unat_eq_iff)

lemmas sink_tests = test_sink_file_write_happy_path_def test_sink_file_write_multiple_path_def
  test_sink_file_max_reached_def test_sink_file_write_read_def

lemma created_sink_tests_pass:
  assumes env: "sink_env_contract checks bytes pos api env" and fc: "file_contract bytes disk api"
    and fresh: "fresh_contract bytes fs remove_file"
  shows "test_sink_file_write_happy_path fs env remove_file test_file s"
    and "test_sink_file_write_multiple_path fs env remove_file test_file s"
    and "test_sink_file_max_reached checks fs env remove_file test_file s"
proof -
  note created = created_empty [OF fresh] and wr = written_thenI [OF env fc] and fl = flushed_thenI [OF env]
  show "test_sink_file_write_happy_path fs env remove_file test_file s"
    unfolding sink_tests
    by (intro ok_thenI wr conjI fl; drule created)
      (simp_all add: get_current_len_def sink_inner_def counted_eq)
  show "test_sink_file_write_multiple_path fs env remove_file test_file s"
    unfolding sink_tests Let_def
    by (intro ok_thenI wr conjI fl; drule created)
      (simp_all add: get_current_len_def sink_inner_def counted_eq counted_len)
  show "test_sink_file_max_reached checks fs env remove_file test_file s"
    unfolding sink_tests
    by (intro ok_thenI wr conjI; drule created)
      (simp_all add: get_current_len_def counted_eq counted_len can_be_appended_exact)
qed

lemma test_sink_file_write_read_passes:
  assumes env: "sink_env_contract checks bytes pos api env" and fc: "file_contract bytes disk api"
    and fresh: "fresh_contract bytes fs remove_file" and settled: "opens_settled bytes disk fs"
  shows "test_sink_file_write_read fs api env remove_file test_file s"
proof -
  note wr = written_thenI [OF env fc]
  have opened: "bytes (writer self) = [] \<and> current_len self = 0 \<and> sink_counts bytes self"
    if "sink_open_append fs api test_file opt (sink_ensure_clean_file remove_file test_file s) = (Inr self, s')"
    for opt self s'
  proof -
    have c: "sink_counts bytes self"
      using sink_open_append_settled [OF fc settled that] by simp
    moreover have "bytes (writer self) = []"
      using that fresh
      by (fastforce simp: sink_open_append_def sink_of_opened_def util_open_read_append_def fresh_contract_def
          sink_ensure_clean_file_def split: prod.splits sum.splits)
    ultimately show ?thesis using counted_eq [OF c, of 0] by simp
  qed
  have reread: "ok_then (fa_seek api (Seek_Start 0) f) (\<lambda>_ f. ok_then (se_read_to_end env f) (\<lambda>buf f. length buf = 147))"
    if "length (bytes f) = 147" for f
  proof (intro ok_thenI)
    note c = env [unfolded sink_env_contract_def, THEN conjunct2, THEN conjunct2]
    fix x g buf g'
    assume "fa_seek api (Seek_Start 0) f = (Inr x, g)" and "se_read_to_end env g = (Inr buf, g')"
    with c [THEN conjunct1, rule_format] c [THEN conjunct2, rule_format] that show "length buf = 147" by fastforce
  qed
  show ?thesis
    unfolding sink_tests
    by (intro ok_thenI [where r = "sink_open_append _ _ _ _ _"] wr conjI reread; drule opened)
      (simp_all add: get_current_len_def sink_inner_def counted_eq counted_len)
qed

lemma test_sink_file_write_std_passes:
  assumes "opens_contract content view fs" and "posix_contract content view px"
  shows "test_sink_file_write_std fs px content remove_file test_file s"
  unfolding test_sink_file_write_std_def
  by (intro and_run(1) [OF assms(2,1)]) (simp add: run_eval)

section \<open>Tests of mmap.rs that write through the guard\<close>

text \<open>
  \<open>copy_from_slice\<close> on the guard that \<open>mut_inner\<close> returns: it panics, and poisons the lock, when the
  lengths differ.
\<close>

definition guard_copy_from_slice :: "'h MemoryMappedMutFile \<Rightarrow> u8 list \<Rightarrow> unit exec \<times> 'h MemoryMappedMutFile" where
  "guard_copy_from_slice self src =
     (case mut_inner self of
        Panicked \<Rightarrow> (Panicked, self)
      | Returned mm \<Rightarrow>
          if length src \<noteq> length (mm_bytes mm) then (Panicked, mut_poison self)
          else (Returned (), self\<lparr>mut_lock := (mut_lock self)\<lparr>lock_value := mm\<lparr>mm_bytes := src\<rparr>\<rparr>\<rparr>))"

text \<open>The block with the guard and the flush behind it; \<open>create\<close> may fail by the environment.\<close>

definition copied_and_flushed ::
  "('s, 'h) mmap_api \<Rightarrow> 'h MemoryMappedMutFile \<Rightarrow> u8 list \<Rightarrow> 's \<Rightarrow> ('s \<Rightarrow> bool) \<Rightarrow> bool" where
  "copied_and_flushed api mm_file src s rest =
     (case guard_copy_from_slice mm_file src of
        (Panicked, _) \<Rightarrow> False
      | (Returned _, mm_file') \<Rightarrow>
          (case flush_ft api mm_file' s of
             (Panicked, _) \<Rightarrow> False
           | (Returned (Inl _), _) \<Rightarrow> True
           | (Returned (Inr _), s') \<Rightarrow> rest s'))"

definition created_then ::
  "('h MemoryMappedMutFile \<times> 'h, io_error) result exec \<times> 's \<Rightarrow> ('h MemoryMappedMutFile \<Rightarrow> 's \<Rightarrow> bool) \<Rightarrow> bool" where
  "created_then r rest = (case r of (Returned (Inr (mm_file, _)), s) \<Rightarrow> rest mm_file s | _ \<Rightarrow> True)"

definition test_mmap_write_slice ::
  "('s, 'h) mmap_api \<Rightarrow> ('s \<Rightarrow> string \<Rightarrow> u8 list option) \<Rightarrow> string \<Rightarrow> 's \<Rightarrow> bool" where
  "test_mmap_write_slice api files index_path s =
     created_then (mut_create api index_path 3 s) (\<lambda>mm_file s.
       copied_and_flushed api mm_file [1, 2, 3] s (\<lambda>s.
         map_option (take 3) (files s index_path) = Some [1, 2, 3]))"

text \<open>
  \<open>align_to\<close> between pairs of words and bytes: the layout of a pair is the compiler's, a parameter;
  a mapping starts at a page, so the middle part of its alignment starts with its first byte.
\<close>

fun pairs_in :: "(u8 list \<Rightarrow> u32 \<times> u32) \<Rightarrow> nat \<Rightarrow> u8 list \<Rightarrow> (u32 \<times> u32) list" where
  "pairs_in of_bytes 0 bs = []"
| "pairs_in of_bytes (Suc n) bs = of_bytes (take 8 bs) # pairs_in of_bytes n (drop 8 bs)"

definition align_to_pairs :: "(u8 list \<Rightarrow> u32 \<times> u32) \<Rightarrow> u8 list \<Rightarrow> (u32 \<times> u32) list" where
  "align_to_pairs of_bytes bs = pairs_in of_bytes (length bs div 8) bs"

definition test_mmap_write_pair_slice ::
  "('s, 'h) mmap_api \<Rightarrow> (u32 \<times> u32 \<Rightarrow> u8 list) \<Rightarrow> (u8 list \<Rightarrow> u32 \<times> u32) \<Rightarrow> string \<Rightarrow> 's \<Rightarrow> bool" where
  "test_mmap_write_pair_slice api to_bytes of_bytes index_path s =
     created_then (mut_create api index_path 24 s) (\<lambda>mm_file s.
       let bytes = concat (map to_bytes [(5, 10), (11, 22), (50, 100)]) in
       length bytes = 24 \<and>
       copied_and_flushed api mm_file bytes s (\<lambda>s.
         created_then (mut_create api index_path 24 s) (\<lambda>mm_file2 s.
           case mut_inner mm_file2 of
             Panicked \<Rightarrow> False
           | Returned mm2 \<Rightarrow>
               (let pairs = align_to_pairs of_bytes (mm_bytes mm2) in
                length pairs = 3 \<and> fst (pairs ! 0) = 5 \<and> snd (pairs ! 2) = 100))))"

lemma created_thenI: "(\<And>m f s'. r = (Returned (Inr (m, f)), s') \<Longrightarrow> rest m s') \<Longrightarrow> created_then r rest"
  by (auto simp: created_then_def split: prod.split exec.split sum.split)

lemma copied_and_flushed_ok:
  assumes c: "mmap_contract files path_of api" and m: "mut_create api p n s = (Returned (Inr (m, f)), s1)"
    and len: "length src = unat n"
    and rest: "\<And>s2. files s2 p = Some src \<Longrightarrow> rest s2"
  shows "copied_and_flushed api m src s1 rest"
proof -
  note cr = mut_create_cases [OF c m]
  let ?m = "m\<lparr>mut_lock := (mut_lock m)\<lparr>lock_value := (lock_value (mut_lock m))\<lparr>mm_bytes := src\<rparr>\<rparr>\<rparr>"
  have "length (mm_bytes (lock_value (mut_lock m))) = unat n"
    using cr by (auto simp: mut_bytes_def resize_def)
  then have g: "guard_copy_from_slice m src = (Returned (), ?m)"
    using cr len by (simp add: guard_copy_from_slice_def mut_inner_def lock_unwrap_def)
  have ok: "\<not> lock_poisoned (mut_lock ?m)" "path_of (mm_handle (lock_value (mut_lock ?m))) = p" "mut_bytes ?m = src"
    using cr by (simp_all add: mut_bytes_def)
  have "files s2 p = Some src" if "flush_ft api ?m s1 = (Returned (Inr u), s2)" for u s2
    using flush_ft_files [OF c ok(1,2)] that ok(3) by simp
  with g rest flush_ft_returns [OF ok(1), of api s1] show ?thesis
    by (auto simp: copied_and_flushed_def split: prod.split exec.split sum.split)
qed

lemma test_mmap_write_slice_passes:
  assumes "mmap_contract files path_of api"
  shows "test_mmap_write_slice api files index_path s"
  unfolding test_mmap_write_slice_def
  by (rule created_thenI, erule copied_and_flushed_ok [OF assms]) simp_all

lemma test_mmap_write_pair_slice_passes:
  assumes c: "mmap_contract files path_of api"
    and layout: "\<And>p. length (to_bytes p) = 8" "\<And>p. of_bytes (to_bytes p) = p"
  shows "test_mmap_write_pair_slice api to_bytes of_bytes index_path s"
proof -
  let ?bytes = "concat (map to_bytes [(5, 10), (11, 22), (50, 100)])"
  have len: "length ?bytes = unat (24 :: u64)" by (simp add: layout)
  have second: "case mut_inner m of Panicked \<Rightarrow> False | Returned mm2 \<Rightarrow>
      (let pairs = align_to_pairs of_bytes (mm_bytes mm2) in
       length pairs = 3 \<and> fst (pairs ! 0) = 5 \<and> snd (pairs ! 2) = 100)"
    if "files s2 index_path = Some ?bytes" "mut_create api index_path 24 s2 = (Returned (Inr (m, f)), s3)" for s2 m f s3
  proof -
    note cr = mut_create_cases [OF c that(2)]
    then have "mm_bytes (lock_value (mut_lock m)) = ?bytes"
      using that(1) len by (simp add: mut_bytes_def resize_def layout)
    with cr show ?thesis
      by (simp add: mut_inner_def lock_unwrap_def align_to_pairs_def layout numeral_3_eq_3)
  qed
  show ?thesis
    unfolding test_mmap_write_pair_slice_def Let_def [of ?bytes]
    by (rule created_thenI, intro conjI, use len in simp, erule copied_and_flushed_ok [OF c _ len],
        rule created_thenI, erule (1) second)
qed

section \<open>Tests of zero\_copy.rs\<close>

text \<open>
  The sides that send. \<open>k\<close> is the kernel that \<open>sendfile\<close> acts on; a transfer that does not return or
  panics fails the test, an error of it ends the test.
\<close>

definition copied_then ::
  "((usize, SendFileError) result exec \<times> 'k) option \<Rightarrow> (usize \<Rightarrow> 'k \<Rightarrow> bool) \<Rightarrow> bool" where
  "copied_then r rest = (case r of
      Some (Returned (Inr n), k) \<Rightarrow> rest n k
    | Some (Returned (Inl _), _) \<Rightarrow> True
    | _ \<Rightarrow> False)"

definition sliced_then :: "(AsyncFileSlice, io_error) result exec \<Rightarrow> (AsyncFileSlice \<Rightarrow> bool) \<Rightarrow> bool" where
  "sliced_then r rest = (case r of Panicked \<Rightarrow> False | Returned (Inl _) \<Rightarrow> True | Returned (Inr sl) \<Rightarrow> rest sl)"

definition zero_copy_simple_client ::
  "bool \<Rightarrow> ('s, 'f) fs_api \<Rightarrow> 'f file_api \<Rightarrow> ('s, 't, 'c) net_api \<Rightarrow> 'k sendfile_fn \<Rightarrow> (Duration \<Rightarrow> 'k \<Rightarrow> 'k) \<Rightarrow>
   string \<Rightarrow> 's \<Rightarrow> 'k \<Rightarrow> bool" where
  "zero_copy_simple_client checks fs api net sendfile pause addr s k =
     ok_then (util_open fs ''test-data/apirequest.bin'' s) (\<lambda>f s.
     ok_then (tcp_stream net addr s) (\<lambda>tcp s.
     sliced_then (as_slice checks api f 0 None) (\<lambda>f_slice.
     copied_then (copy_slice checks sendfile pause (ZeroCopy_raw (as_raw_fd net tcp)) f_slice
         (pause (from_millis 100) k)) (\<lambda>transfered k.
       transfered = 30))))"

definition zero_copy_large_slace_client ::
  "bool \<Rightarrow> ('s, 'f) fs_api \<Rightarrow> 'f file_api \<Rightarrow> ('s, 't, 'c) net_api \<Rightarrow> 'k sendfile_fn \<Rightarrow> (Duration \<Rightarrow> 'k \<Rightarrow> 'k) \<Rightarrow>
   string \<Rightarrow> 's \<Rightarrow> 'k \<Rightarrow> bool" where
  "zero_copy_large_slace_client checks fs api net sendfile pause addr s k =
     ok_then (util_open fs ''test-data/apirequest.bin'' s) (\<lambda>f s.
     ok_then (tcp_stream net addr s) (\<lambda>tcp s.
     sliced_then (as_slice checks api f 0 None) (\<lambda>f_slice.
     let max_slice = AsyncFileSlice_new (AsyncFileSlice_as_raw_fd f_slice) 0 1000 in
     copied_then (copy_slice checks sendfile pause (ZeroCopy_raw (as_raw_fd net tcp)) max_slice
         (pause (from_millis 100) k)) (\<lambda>transfer k.
       transfer = 30))))"

definition MAX_BYTES :: nat where
  "MAX_BYTES = 3000000"

definition init_file :: "('s, 'h) fs_api \<Rightarrow> ('s, 'h) open_file_api \<Rightarrow> string \<Rightarrow> 's \<Rightarrow> (u8 list list, io_error) result \<times> 's" where
  "init_file fs px temp_file s =
     (case util_create fs temp_file s of
        (Inl e, s1) \<Rightarrow> (Inl e, s1)
      | (Inr f, s1) \<Rightarrow> file_ops_run px f (replicate 3000 (Op_Write_All (replicate 1000 0)) @ [Op_Sync_All]) s1)"

text \<open>The server of the large test, with the descriptors of the two streams it accepts.\<close>

definition zero_copy_large_server ::
  "bool \<Rightarrow> ('s, 'f) fs_api \<Rightarrow> 'f file_api \<Rightarrow> 'k sendfile_fn \<Rightarrow> (Duration \<Rightarrow> 'k \<Rightarrow> 'k) \<Rightarrow>
   string \<Rightarrow> RawFd \<Rightarrow> RawFd \<Rightarrow> 's \<Rightarrow> 'k \<Rightarrow> bool" where
  "zero_copy_large_server checks fs api sendfile pause temp_file stream0 stream1 s k =
     ok_then (util_open fs temp_file s) (\<lambda>f s.
     sliced_then (as_slice checks api f 0 None) (\<lambda>f_slice.
       slice_len f_slice = of_nat MAX_BYTES \<and>
       copied_then (copy_slice checks sendfile pause (ZeroCopy_raw stream0) f_slice k) (\<lambda>transferred k.
         transferred = of_nat MAX_BYTES \<and>
         (let slice2 = AsyncFileSlice_new (AsyncFileSlice_as_raw_fd f_slice) 0 (of_nat (MAX_BYTES * 2)) in
          copied_then (copy_slice checks sendfile pause (ZeroCopy_raw stream1) slice2 k) (\<lambda>transferred k.
            transferred = of_nat MAX_BYTES)))))"

section \<open>Lemmas on the tests of zero\_copy.rs\<close>

lemma sliced_rest_thenI:
  assumes "fa_metadata_len api f = Inr len" and "0 < unat len" and "rest (raw_slice api f 0 len)"
  shows "sliced_then (as_slice checks api f 0 None) rest"
  using as_slice_rest [OF assms(1), of 0 checks] assms(2,3) by (simp add: sliced_then_def)

lemma copied_thenI:
  assumes c: "sendfile_contract src sent blocked target (slice_fd sl) sendfile pause"
    and "slice_position sl = 0" and "unat (slice_len sl) < 2 ^ 63"
    and rest: "\<And>n k'. unat n = min (unat (slice_len sl)) (length (src k)) \<Longrightarrow> src k' = src k \<Longrightarrow> rest n k'"
  shows "copied_then (copy_slice checks sendfile pause (ZeroCopy_raw target) sl k) rest"
proof -
  obtain res k' where run: "copy_slice checks sendfile pause (ZeroCopy target) sl k = Some (res, k')"
    and t: "transfer_done (src k) (sent k) 0 (unat (slice_len sl)) res (sent k') (src k')"
    using copy_slice_ok [OF c, of checks k] assms(2,3) by auto
  with rest show ?thesis
    by (auto simp: copied_then_def ZeroCopy_raw_def transfer_done_def split: exec.splits sum.splits)
qed

lemma zero_copy_clients_pass:
  assumes len: "\<And>f s'. util_open fs ''test-data/apirequest.bin'' s = (Inr f, s') \<Longrightarrow> fa_metadata_len api f = Inr 30"
    and c: "\<And>f t. sendfile_contract src sent blocked t (fa_raw_fd api f) sendfile pause"
    and k: "length (src k) = 30"
  shows "zero_copy_simple_client checks fs api net sendfile pause addr s k"
    and "zero_copy_large_slace_client checks fs api net sendfile pause addr s k"
proof -
  have p: "src (pause d k) = src k" for d
    using c [of undefined undefined] unfolding sendfile_contract_def by blast
  note copied = copied_thenI [where src = src and sent = sent and blocked = blocked]
  show "zero_copy_simple_client checks fs api net sendfile pause addr s k"
    unfolding zero_copy_simple_client_def
    by (intro ok_thenI sliced_rest_thenI [OF len] copied; (assumption | simp add: c p k word_unat_eq_iff))
  show "zero_copy_large_slace_client checks fs api net sendfile pause addr s k"
    unfolding zero_copy_large_slace_client_def Let_def
    by (intro ok_thenI sliced_rest_thenI [OF len] copied;
        (assumption | simp add: c p k word_unat_eq_iff AsyncFileSlice_as_raw_fd_def))
qed

lemma zero_copy_large_server_passes:
  assumes len: "\<And>f s'. util_open fs temp_file s = (Inr f, s') \<Longrightarrow> fa_metadata_len api f = Inr (of_nat MAX_BYTES)"
    and c0: "\<And>f. sendfile_contract src sent0 blocked0 stream0 (fa_raw_fd api f) sendfile pause"
    and c1: "\<And>f. sendfile_contract src sent1 blocked1 stream1 (fa_raw_fd api f) sendfile pause"
    and k: "length (src k) = MAX_BYTES"
  shows "zero_copy_large_server checks fs api sendfile pause temp_file stream0 stream1 s k"
  unfolding zero_copy_large_server_def Let_def
  by (intro ok_thenI sliced_rest_thenI [OF len] conjI
      copied_thenI [where target = stream0 and src = src and sent = sent0 and blocked = blocked0]
      copied_thenI [where target = stream1 and src = src and sent = sent1 and blocked = blocked1];
      (assumption | simp add: c0 c1 k word_unat_eq_iff AsyncFileSlice_as_raw_fd_def MAX_BYTES_def))

text \<open>Appending at the position: the file of the large test has the size that the server asserts.\<close>

lemma spec_fill:
  assumes "\<not> opt_append (ov_options v)" and "ov_pos v = length bs"
  shows "length (snd (snd (spec_ops (replicate n (Op_Write_All new) @ [Op_Sync_All]) (v, bs)))) = length bs + n * length new"
  using assms
proof (induction n arbitrary: v bs)
  case (Suc n)
  have "written v new bs = (bs @ new, length (bs @ new))"
    using Suc.prems by (simp add: written_def overwrite_def)
  with Suc.IH [of "v\<lparr>ov_pos := length (bs @ new)\<rparr>" "bs @ new"] Suc.prems show ?case
    by (simp add: case_prod_beta)
qed simp

lemma init_file_fills:
  assumes "opens_contract content view fs" and "posix_contract content view px"
    and "init_file fs px temp_file s = (Inr outs, s')"
  shows "map_option length (content s' temp_file) = Some MAX_BYTES"
proof -
  let ?ops = "replicate 3000 (Op_Write_All (replicate 1000 0)) @ [Op_Sync_All]"
  from assms(3) obtain f s1 where f: "fs_create fs temp_file s = (Inr f, s1)"
    and run: "file_ops_run px f ?ops s1 = (Inr outs, s')"
    by (auto simp: init_file_def util_create_def split: prod.splits sum.splits)
  have o: "opened_as content view create_options temp_file s (Inr f, s1)"
    using opensD(1) [OF assms(1), of temp_file s] f by simp
  have "length (snd (snd (spec_ops ?ops (\<lparr>ov_path = temp_file, ov_options = create_options, ov_pos = 0\<rparr>, []))))
      = 0 + 3000 * length (replicate 1000 (0 :: u8))"
    by (subst spec_fill) (simp_all add: create_options_def OpenOptions_new_def)
  with opened_run(1) [OF assms(2) o run] show ?thesis
    by (simp add: create_options_def OpenOptions_new_def MAX_BYTES_def)
qed

end
