(* ===== verification/Test_Tls.thy ===== *)
theory Test_Tls
  imports Openssl_Tls Rust_Tls_Builder Native_Tls
begin

text \<open>
  How the tests of the three TLS back ends configure their acceptors and connectors:
  \<open>src/src/openssl/test.rs\<close>, the tests of \<open>src/src/rust_tls.rs\<close> and of \<open>src/src/native_tls.rs\<close>. A test is the
  chain of builder calls of its source; the exchange that it runs on each pair (see \<open>Exchange\<close>) is its
  argument \<open>run\<close>. An error that \<open>?\<close> returns is the test's result, one that meets \<open>expect\<close> is a panic. The
  lemmas say with what settings the exchange is run, and for which settings the tests pass.
\<close>

definition tried :: "('a, 'e) result \<Rightarrow> ('a \<Rightarrow> (unit, 'e) result exec) \<Rightarrow> (unit, 'e) result exec" where
  "tried r rest = (case r of Inl e \<Rightarrow> Returned (Inl e) | Inr x \<Rightarrow> rest x)"

definition expected :: "('a, 'd) result \<Rightarrow> ('a \<Rightarrow> (unit, 'e) result exec) \<Rightarrow> (unit, 'e) result exec" where
  "expected r rest = (case r of Inl _ \<Rightarrow> Panicked | Inr x \<Rightarrow> rest x)"

section \<open>OpenSSL\<close>

definition CA_PATH :: string where
  "CA_PATH = ''certs/test-certs/ca.crt''"

definition INTERMEDIATE_CA_PATH :: string where
  "INTERMEDIATE_CA_PATH = ''certs/test-certs/intermediate-ca.crt''"

definition test_acceptor ::
  "('b, 'c, 'g, 'm, 'x, 'k, 's, 'e) openssl_api \<Rightarrow> string \<Rightarrow> string \<Rightarrow> ('c TlsAcceptor, anyhow) result" where
  "test_acceptor os crt key =
     result_bind (TlsAcceptor_builder os) (\<lambda>b.
     result_bind (acceptor_with_pem_files os crt key b) (\<lambda>b. Inr (TlsAcceptorBuilder_build os b)))"

definition test_connector ::
  "('b, 'c, 'g, 'm, 'x, 'k, 's, 'e) openssl_api \<Rightarrow> string \<Rightarrow> ('c TlsConnector, anyhow) result" where
  "test_connector os ca =
     result_bind (TlsConnector_builder os) (\<lambda>b.
     result_bind (with_hostname_verification_disabled b) (\<lambda>b.
     result_bind (connector_with_ca_file os ca b) (\<lambda>b. Inr (TlsConnectorBuilder_build os b))))"

definition client_auth_acceptor ::
  "('b, 'c, 'g, 'm, 'x, 'k, 's, 'e) openssl_api \<Rightarrow> ('c TlsAcceptor, anyhow) result" where
  "client_auth_acceptor os =
     result_bind (TlsAcceptor_builder os) (\<lambda>b.
     result_bind (acceptor_with_pem_files os ''certs/test-certs/server.crt'' ''certs/test-certs/server.key'' b) (\<lambda>b.
     result_bind (acceptor_with_ca_file os CA_PATH b) (\<lambda>b. Inr (TlsAcceptorBuilder_build os b))))"

definition client_auth_connector ::
  "('b, 'c, 'g, 'm, 'x, 'k, 's, 'e) openssl_api \<Rightarrow> ('c TlsConnector, anyhow) result" where
  "client_auth_connector os =
     result_bind (TlsConnector_builder os) (\<lambda>b.
     result_bind (connector_with_pem_files os ''certs/test-certs/client.crt'' ''certs/test-certs/client.key'' b) (\<lambda>b.
     result_bind (connector_with_ca_file os CA_PATH b) (\<lambda>b. Inr (TlsConnectorBuilder_build os b))))"

definition test_tls ::
  "('b, 'c, 'g, 'm, 'x, 'k, 's, 'e) openssl_api \<Rightarrow>
   ('c TlsAcceptor \<Rightarrow> 'c TlsConnector \<Rightarrow> (unit, anyhow) result) \<Rightarrow> (unit, anyhow) result exec" where
  "test_tls os run =
     tried (test_acceptor os ''certs/test-certs/intermediate-server.crt'' ''certs/test-certs/intermediate-server.key'') (\<lambda>acceptor.
     tried (test_connector os INTERMEDIATE_CA_PATH) (\<lambda>connector.
     expected (run acceptor connector) (\<lambda>_.
     tried (test_acceptor os ''certs/test-certs/server.crt'' ''certs/test-certs/server.key'') (\<lambda>acceptor.
     tried (test_connector os CA_PATH) (\<lambda>connector.
     expected (run acceptor connector) (\<lambda>_.
     tried (client_auth_acceptor os) (\<lambda>acceptor.
     tried (client_auth_connector os) (\<lambda>connector.
     expected (run acceptor connector) (\<lambda>_. Returned (Inr ()))))))))))"

text \<open>
  Whether a context asks its peer for a certificate: a new acceptor does not, and only the
  verification mode changes that.
\<close>

definition asks_contract :: "('b \<Rightarrow> bool) \<Rightarrow> ('c \<Rightarrow> bool) \<Rightarrow> ('b, 'c, 'g, 'm, 'x, 'k, 's, 'e) openssl_api \<Rightarrow> bool" where
  "asks_contract asks built_asks os \<longleftrightarrow>
     (\<forall>b. os_acceptor_builder os = Inr b \<longrightarrow> \<not> asks b) \<and>
     (\<forall>f b b'. os_set_certificate_file os f b = Inr b' \<longrightarrow> asks b' = asks b) \<and>
     (\<forall>f b b'. os_set_private_key_file os f b = Inr b' \<longrightarrow> asks b' = asks b) \<and>
     (\<forall>f b b'. os_set_ca_file os f b = Inr b' \<longrightarrow> asks b' = asks b) \<and>
     (\<forall>b. built_asks (os_build os b) = asks b)"

text \<open>For an instance: whether the calls that the builders log set the mode.\<close>

definition log_asks :: "string list \<Rightarrow> bool" where
  "log_asks b \<longleftrightarrow> ''verify'' \<in> set b"

lemmas openssl_test_defs = test_acceptor_def test_connector_def client_auth_acceptor_def client_auth_connector_def
  TlsAcceptor_builder_def TlsConnector_builder_def TlsAcceptorBuilder_build_def TlsConnectorBuilder_build_def
  acceptor_with_pem_files_def acceptor_with_ca_file_def connector_with_pem_files_def connector_with_ca_file_def
  with_hostname_verification_disabled_def result_bind_Inr_iff

lemma tls_test_connector_settings:
  "test_connector os ca = Inr c \<Longrightarrow> tc_allow_partial c \<and> \<not> tc_verify_hostname c"
  "client_auth_connector os = Inr c \<Longrightarrow> tc_allow_partial c \<and> tc_verify_hostname c"
  by (auto simp: openssl_test_defs)

text \<open>
  No acceptor of the test asks for a certificate, the one meant to authenticate the client included:
  trusting the authority is not enough, and the client's certificate is never looked at.
\<close>

lemma client_is_not_asked:
  assumes "asks_contract asks built_asks os"
  shows "client_auth_acceptor os = Inr a \<Longrightarrow> \<not> built_asks (ta_inner a)"
    and "test_acceptor os crt key = Inr a \<Longrightarrow> \<not> built_asks (ta_inner a)"
  using assms by (auto simp: openssl_test_defs asks_contract_def)

lemma log_asks_contract: "asks_contract log_asks log_asks (log_openssl st)"
  by (auto simp: asks_contract_def log_asks_def log_openssl_def)

lemma triedI: "(\<And>x. r = Inr x \<Longrightarrow> rest x \<noteq> Panicked) \<Longrightarrow> tried r rest \<noteq> Panicked"
  by (cases r) (simp_all add: tried_def)

lemma expectedI: "r = Inr x \<Longrightarrow> rest x \<noteq> Panicked \<Longrightarrow> expected r rest \<noteq> Panicked"
  by (simp add: expected_def)

lemma test_tls_no_panic:
  assumes c: "asks_contract asks built_asks os"
    and run: "\<And>a c. \<not> built_asks (ta_inner a) \<Longrightarrow> tc_allow_partial c \<Longrightarrow> run a c = Inr ()"
  shows "test_tls os run \<noteq> Panicked"
proof -
  have "run a c = Inr ()" if "test_acceptor os crt key = Inr a" "test_connector os ca = Inr c" for a c crt key ca
    using run client_is_not_asked(2) [OF c that(1)] tls_test_connector_settings(1) [OF that(2)] by simp
  moreover have "run a c = Inr ()" if "client_auth_acceptor os = Inr a" "client_auth_connector os = Inr c" for a c
    using run client_is_not_asked(1) [OF c that(1)] tls_test_connector_settings(2) [OF that(2)] by simp
  ultimately show ?thesis
    unfolding test_tls_def by (intro triedI expectedI exec.distinct) (assumption | simp)+
qed

section \<open>Rustls\<close>

definition rustls_server_calls :: "acceptor_call list" where
  "rustls_server_calls = [No_Client_Authentication,
     Load_Server_Certs ''certs/test-certs/server.crt'' ''certs/test-certs/server.key'', Build_Acceptor]"

definition rustls_client_calls :: "connector_call list" where
  "rustls_client_calls = [No_Cert_Verification, Build_Connector]"

definition rustls_auth_server_calls :: "acceptor_call list" where
  "rustls_auth_server_calls = [Client_Authenticate CA_PATH,
     Load_Server_Certs ''certs/test-certs/server.crt'' ''certs/test-certs/server.key'', Build_Acceptor]"

definition rustls_auth_client_calls :: "connector_call list" where
  "rustls_auth_client_calls = [Load_Ca_Cert CA_PATH,
     Load_Client_Certs ''certs/test-certs/client.crt'' ''certs/test-certs/client.key'', Build_Connector]"

fun built_acceptor :: "('w, 'q, 'g, 'a) AcceptorBuilderStage \<Rightarrow> 'a option" where
  "built_acceptor (Built_Acceptor a) = Some a"
| "built_acceptor _ = None"

fun built_connector :: "('v, 'k, 'f, 'c) ConnectorBuilderStage \<Rightarrow> 'c option" where
  "built_connector (Built_Connector c) = Some c"
| "built_connector _ = None"

text \<open>
  The end of a chain inside the test: an error is returned, a panic stays one. \<open>None\<close> is a chain that does
  not type check, does not end, or does not build what the test needs.
\<close>

definition chained ::
  "'g fallible option \<Rightarrow> ('g \<Rightarrow> 'a option) \<Rightarrow> ('a \<Rightarrow> (unit, anyhow) result exec option) \<Rightarrow>
   (unit, anyhow) result exec option" where
  "chained r built rest = (case r of
      Some (Some (Returned (Inr g))) \<Rightarrow> (case built g of None \<Rightarrow> None | Some x \<Rightarrow> rest x)
    | Some (Some (Returned (Inl e))) \<Rightarrow> Some (Returned (Inl e))
    | Some (Some Panicked) \<Rightarrow> Some Panicked
    | _ \<Rightarrow> None)"

definition rustls_pair ::
  "'rd pem_api \<Rightarrow> ('st, 'v, 'k, 'f, 'w, 'q, 'g) rustls_api \<Rightarrow> ('g \<Rightarrow> 'a) \<Rightarrow> ('f \<Rightarrow> 'c) \<Rightarrow>
   acceptor_call list \<Rightarrow> connector_call list \<Rightarrow> ('a \<Rightarrow> 'c \<Rightarrow> (unit, anyhow) result exec option) \<Rightarrow>
   (unit, anyhow) result exec option" where
  "rustls_pair pem rt into_acceptor into_connector server_calls client_calls rest =
     chained (call_chain (acceptor_method pem rt into_acceptor) server_calls
         (Server_Wants_Verifier (acceptor_with_safe_defaults rt))) built_acceptor (\<lambda>acceptor.
     chained (call_chain (connector_method pem rt into_connector) client_calls
         (Wants_Verifier (connector_with_safe_defaults rt))) built_connector (\<lambda>connector.
       rest acceptor connector))"

definition test_rust_tls_all ::
  "'rd pem_api \<Rightarrow> ('st, 'v, 'k, 'f, 'w, 'q, 'g) rustls_api \<Rightarrow> ('g \<Rightarrow> 'a) \<Rightarrow> ('f \<Rightarrow> 'c) \<Rightarrow>
   ('a \<Rightarrow> 'c \<Rightarrow> (unit, anyhow) result) \<Rightarrow> (unit, anyhow) result exec option" where
  "test_rust_tls_all pem rt into_acceptor into_connector run =
     rustls_pair pem rt into_acceptor into_connector rustls_server_calls rustls_client_calls (\<lambda>acceptor connector.
       case run acceptor connector of
         Inl _ \<Rightarrow> Some Panicked
       | Inr _ \<Rightarrow>
           rustls_pair pem rt into_acceptor into_connector rustls_auth_server_calls rustls_auth_client_calls
             (\<lambda>acceptor connector.
                case run acceptor connector of Inl _ \<Rightarrow> Some Panicked | Inr _ \<Rightarrow> Some (Returned (Inr ()))))"

lemma rustls_test_chains_type_check:
  "chain_type acceptor_call_type rustls_server_calls Ty_Verifier = Some Ty_Built"
  "chain_type acceptor_call_type rustls_auth_server_calls Ty_Verifier = Some Ty_Built"
  "chain_type connector_call_type rustls_client_calls Ty_Verifier = Some Ty_Built"
  "chain_type connector_call_type rustls_auth_client_calls Ty_Verifier = Some Ty_Built"
  by (simp_all add: rustls_server_calls_def rustls_auth_server_calls_def rustls_client_calls_def
      rustls_auth_client_calls_def)

lemma chained_ends:
  assumes "r = Some (Some x)" and "\<And>g. x = Returned (Inr g) \<Longrightarrow> \<exists>y. built g = Some y"
    and "\<And>y. \<exists>z. rest y = Some z"
  shows "\<exists>z. chained r built rest = Some z"
  using assms by (fastforce simp: chained_def split: exec.split sum.split option.split)

lemma rustls_pair_ends:
  assumes reads: "reads_sections sections (pf_read_one pem)"
    and ty: "chain_type acceptor_call_type server_calls Ty_Verifier = Some Ty_Built"
      "chain_type connector_call_type client_calls Ty_Verifier = Some Ty_Built"
    and rest: "\<And>a c. \<exists>z. rest a c = Some z"
  shows "\<exists>z. rustls_pair pem rt into_acceptor into_connector server_calls client_calls rest = Some z"
proof -
  let ?w = "Server_Wants_Verifier (acceptor_with_safe_defaults rt)"
  let ?v = "Wants_Verifier (connector_with_safe_defaults rt)"
  have ta: "chain_type acceptor_call_type server_calls (acceptor_stage_type ?w) = Some Ty_Built"
    and tc: "chain_type connector_call_type client_calls (connector_stage_type ?v) = Some Ty_Built"
    using ty by simp_all
  obtain x where x: "call_chain (acceptor_method pem rt into_acceptor) server_calls ?w = Some (Some x)"
    using acceptor_chain_ends [OF reads ta, of rt into_acceptor] by blast
  obtain y where y: "call_chain (connector_method pem rt into_connector) client_calls ?v = Some (Some y)"
    using connector_builder.chain_progress [OF connector_method_ends [OF reads] tc, of rt into_connector] by blast
  have bx: "\<exists>a. built_acceptor g = Some a" if "x = Returned (Inr g)" for g
    using acceptor_builder.chain_preservation [OF x [unfolded that]] ta by (cases g) simp_all
  have bc: "\<exists>c. built_connector g = Some c" if "y = Returned (Inr g)" for g
    using connector_builder.chain_preservation [OF y [unfolded that]] tc by (cases g) simp_all
  show ?thesis
    unfolding rustls_pair_def by (intro chained_ends [OF x bx] chained_ends [OF y bc] rest)
qed

text \<open>The test runs to a result.\<close>

lemma test_rust_tls_all_ends:
  assumes "reads_sections sections (pf_read_one pem)"
  shows "\<exists>r. test_rust_tls_all pem rt into_acceptor into_connector run = Some r"
proof -
  note first = rustls_pair_ends [OF assms rustls_test_chains_type_check(1,3)]
    and second = rustls_pair_ends [OF assms rustls_test_chains_type_check(2,4)]
  have "\<exists>z. rustls_pair pem rt into_acceptor into_connector rustls_auth_server_calls rustls_auth_client_calls
      (\<lambda>a c. case run a c of Inl e \<Rightarrow> Some Panicked | Inr u \<Rightarrow> Some (Returned (Inr ()))) = Some z"
    by (intro second) (simp split: sum.split)
  then show ?thesis
    unfolding test_rust_tls_all_def by (intro first) (simp split: sum.split)
qed

section \<open>native-tls\<close>

text \<open>
  Identities read from a container or put together from a certificate and a key; \<open>open_file\<close> gives the
  bytes behind a path. An error that \<open>?\<close> returns is given before its conversion into the test's error type.
\<close>

definition pk12_acceptor ::
  "(string \<Rightarrow> (reader, io_error) result) \<Rightarrow> (u8 list \<Rightarrow> string \<Rightarrow> ('i, anyhow) result) \<Rightarrow> ('i \<Rightarrow> ('a, anyhow) result) \<Rightarrow>
   ('a \<Rightarrow> (unit, 'e) result exec) \<Rightarrow> (unit, 'e) result exec" where
  "pk12_acceptor open_file from_pkcs12 acceptor_new rest =
     expected (cert_from_path open_file native_identity_new ''certs/test-certs/server.pfx'') (\<lambda>identity.
     expected (acceptor_identity from_pkcs12 identity) (\<lambda>b.
     expected (acceptor_build acceptor_new b) rest))"

definition test_native_tls_pk12 ::
  "(string \<Rightarrow> (reader, io_error) result) \<Rightarrow> ('c, 'i, 'n) native_api \<Rightarrow> ('i \<Rightarrow> ('a, anyhow) result) \<Rightarrow>
   ('a \<Rightarrow> 'c \<Rightarrow> (unit, anyhow) result) \<Rightarrow> (unit, io_error) result exec" where
  "test_native_tls_pk12 open_file nt acceptor_new run =
     pk12_acceptor open_file (nt_from_pkcs12 nt) acceptor_new (\<lambda>acceptor.
     tried (cert_from_path open_file native_identity_new ''certs/test-certs/client.pfx'') (\<lambda>identity.
     expected (connector_identity nt identity) (\<lambda>b.
     expected (run acceptor (connector_build (connector_no_verification nt
         (connector_accept_invalid_hostnames nt b)))) (\<lambda>_.
     pk12_acceptor open_file (nt_from_pkcs12 nt) acceptor_new (\<lambda>acceptor.
     tried (cert_from_path open_file native_identity_new ''certs/test-certs/client.pfx'') (\<lambda>identity.
     expected (connector_identity nt identity) (\<lambda>b.
     expected (run acceptor (connector_build (connector_no_verification nt b))) (\<lambda>_.
       Returned (Inr ())))))))))"

definition x509_identity ::
  "(string \<Rightarrow> (reader, io_error) result) \<Rightarrow> ('x, 'k, 'p) pkcs_api \<Rightarrow> string \<Rightarrow> string \<Rightarrow>
   (NativeIdentityBuilder \<Rightarrow> (unit, 'e) result exec) \<Rightarrow> (unit, 'e) result exec" where
  "x509_identity open_file pk crt key rest =
     expected (cert_from_path open_file native_x509_new crt) (\<lambda>x.
     expected (cert_from_path open_file native_key_new key) (\<lambda>k.
     expected (native_identity_from_x509 pk x k) rest))"

definition x509_acceptor ::
  "(string \<Rightarrow> (reader, io_error) result) \<Rightarrow> ('x, 'k, 'p) pkcs_api \<Rightarrow> (u8 list \<Rightarrow> string \<Rightarrow> ('i, anyhow) result) \<Rightarrow>
   ('i \<Rightarrow> ('a, anyhow) result) \<Rightarrow> ('a \<Rightarrow> (unit, 'e) result exec) \<Rightarrow> (unit, 'e) result exec" where
  "x509_acceptor open_file pk from_pkcs12 acceptor_new rest =
     x509_identity open_file pk ''certs/test-certs/server.crt'' ''certs/test-certs/server.key'' (\<lambda>identity.
     expected (acceptor_identity from_pkcs12 identity) (\<lambda>b.
     expected (acceptor_build acceptor_new b) rest))"

definition test_native_tls_x509 ::
  "(string \<Rightarrow> (reader, io_error) result) \<Rightarrow> ('x, 'k, 'p) pkcs_api \<Rightarrow> ('c, 'i, 'n) native_api \<Rightarrow>
   ('i \<Rightarrow> ('a, anyhow) result) \<Rightarrow> ('a \<Rightarrow> 'c \<Rightarrow> (unit, anyhow) result) \<Rightarrow> (unit, anyhow) result exec" where
  "test_native_tls_x509 open_file pk nt acceptor_new run =
     x509_acceptor open_file pk (nt_from_pkcs12 nt) acceptor_new (\<lambda>acceptor.
     x509_identity open_file pk ''certs/test-certs/client.crt'' ''certs/test-certs/client.key'' (\<lambda>identity.
     expected (connector_identity nt identity) (\<lambda>b.
     expected (run acceptor (connector_build (connector_no_verification nt
         (connector_accept_invalid_hostnames nt b)))) (\<lambda>_.
     x509_acceptor open_file pk (nt_from_pkcs12 nt) acceptor_new (\<lambda>acceptor.
     x509_identity open_file pk ''certs/test-certs/client.crt'' ''certs/test-certs/client.key'' (\<lambda>identity.
     expected (connector_identity nt identity) (\<lambda>b.
     expected (cert_from_path open_file native_x509_new CA_PATH) (\<lambda>ca.
     expected (connector_add_root_certificate nt ca b) (\<lambda>b.
     expected (run acceptor (connector_build (connector_no_verification nt b))) (\<lambda>_.
       Returned (Inr ())))))))))))"

text \<open>
  No connector of these tests checks a certificate, whatever root it was given: where the exchange
  succeeds only between an acceptor and a connector that checks, every test panics.
\<close>

lemma native_test_connectors:
  assumes "native_contract view nt"
  shows "ns_invalid_certs (view (connector_build (connector_no_verification nt b)))"
  using assms by (simp add: native_contract_def connector_build_def connector_no_verification_def)

lemma expected_value: "expected r rest = Returned y \<Longrightarrow> \<exists>x. r = Inr x \<and> rest x = Returned y"
  by (auto simp: expected_def split: sum.splits)

lemma native_tests_do_not_verify:
  assumes c: "native_contract view nt" and run: "\<And>a k. run a k = Inr () \<Longrightarrow> \<not> ns_invalid_certs (view k)"
  shows "test_native_tls_pk12 open_file nt acceptor_new run \<noteq> Returned (Inr ())"
    and "test_native_tls_x509 open_file pk nt acceptor_new run \<noteq> Returned (Inr ())"
proof -
  have no: "run a (connector_build (connector_no_verification nt b)) \<noteq> Inr u" for a b u
    using run native_test_connectors [OF c] by (metis old.unit.exhaust)
  show "test_native_tls_pk12 open_file nt acceptor_new run \<noteq> Returned (Inr ())"
    by (auto simp: test_native_tls_pk12_def pk12_acceptor_def tried_def no dest!: expected_value split: sum.splits)
  show "test_native_tls_x509 open_file pk nt acceptor_new run \<noteq> Returned (Inr ())"
    by (auto simp: test_native_tls_x509_def x509_acceptor_def x509_identity_def no dest!: expected_value)
qed

end
