(* ===== verification/Test_Time.thy ===== *)
theory Test_Time
  imports Doomsday Retry_Poll Tasks Test_Suite
begin

text \<open>
  Tests of the repository that poll futures or depend on time: \<open>test_sleep\<close> of \<open>src/src/timer.rs\<close>,
  \<open>test_fixed_retries_timeout\<close> of \<open>src/src/retry.rs\<close>, the two tests of \<open>src/src/doomsday.rs\<close> and those of
  \<open>src/src/test_util.rs\<close>. When the
  executor polls, and how long a sleep really takes, is not fixed by the code: a test takes the instants
  as an argument, and the lemmas name what it needs of them.
\<close>

section \<open>A retry under a time limit\<close>

text \<open>The operation of the test: an attempt is ready at once with an error of the kind \<open>NotFound\<close>.\<close>

definition not_found_op :: "(unit, unit, usize, io_error) operation" where
  "not_found_op = \<lparr>op_make = (\<lambda>now w. ((), w)), op_poll = (\<lambda>now f w. (Ready (Inl (IoError NotFound [])), f, w))\<rparr>"

text \<open>A run whose limited future is still pending makes no assertion yet.\<close>

definition test_fixed_retries_timeout ::
  "((((nat \<times> FixedDelay), 'm, unit, io_error) retry_future \<times> unit \<times> Instant list \<times> (usize, io_error) result list,
     'm sleep_block, ((usize, io_error) result, TimeoutError) result) combinator) \<Rightarrow> 'm timer_api \<Rightarrow> Instant list \<Rightarrow> bool" where
  "test_fixed_retries_timeout comb tm polls =
     (case poll_until (RetryExt_timeout comb tm (retry_fut tm (take_next FixedDelay_next) (recorded_op not_found_op)
          (\<lambda>_. True))) polls
        ((At_Start (10, FixedDelay_from_millis 100), (), [], []), Block_Start (from_millis 300)) of
        (None, _) \<Rightarrow> True
      | (Some retry_result, ((st, w, starts, rs), b)) \<Rightarrow>
          (case retry_result of Inl TimeoutError \<Rightarrow> length starts < 10 | Inr _ \<Rightarrow> False))"

lemma fixed_total_delay:
  "total_delay (take_next FixedDelay_next) (n, fd) k = min k n * in_nanos (fd_delay fd)"
proof (induction k arbitrary: n)
  case (Suc k)
  then show ?case by (cases n) (simp_all add: total_delay_def take_next_def FixedDelay_next_def)
qed (simp add: total_delay_def)

lemma fixed_exhausted:
  assumes "length (iter_items (take_next FixedDelay_next) k (n, fd)) = k"
    and "fst (take_next FixedDelay_next (iter_state (take_next FixedDelay_next) k (n, fd))) = None"
  shows "k = n"
  using assms
proof (induction k arbitrary: n)
  case 0
  then show ?case by (cases n) (simp_all add: take_next_def FixedDelay_next_def)
next
  case (Suc k)
  then show ?case by (cases n) (simp_all add: take_next_def FixedDelay_next_def)
qed

lemma test_fixed_retries_timeout_passes:
  assumes c: "timer_contract deadline tm" and comb: "or_contract comb" and sorted: "sorted polls"
  shows "test_fixed_retries_timeout comb tm polls"
proof (cases polls)
  case Nil
  then show ?thesis by (simp add: test_fixed_retries_timeout_def)
next
  case (Cons t0 ts)
  let ?fd = "FixedDelay_from_millis 100"
  let ?run = "poll_until (RetryExt_timeout comb tm
      (retry_fut tm (take_next FixedDelay_next) (recorded_op not_found_op) (\<lambda>_. True))) (t0 # ts)
      ((At_Start (10, ?fd), (), [], []), Block_Start (from_millis 300))"
  obtain result q b where q: "?run = (result, q, b)" by (rule prod_cases3)
  obtain st w starts rs where "q = (st, w, starts, rs)" by (rule prod_cases4)
  with q have run: "?run = (result, ((st, w, starts, rs), b))" by simp
  have hundred: "in_nanos (fd_delay ?fd) = 100000000" "in_nanos (from_millis 300) = 300000000"
    by (simp_all add: FixedDelay_from_millis_def FixedDelay_new_def from_millis_def in_nanos_def NANOS_PER_SEC_def)
  have pos: "positive_delays (take_next FixedDelay_next) (10, ?fd)" by (rule fixed_positive) (simp add: hundred)
  note lim = limited_attempts(2,3) [OF c comb pos _ run]
  have len: "length starts < 5"
    using lim(1) sorted Cons by (auto simp: fixed_total_delay hundred min_def split: if_splits)
  have "result \<noteq> Some (Inr v)" for v
  proof
    assume r: "result = Some (Inr v)"
    with lim(2) sorted Cons have "ended_ok (take_next FixedDelay_next) (10, ?fd) not_found_op (\<lambda>_. True) (Ready v) starts"
      by simp
    moreover have "v \<noteq> Inr u" for u using calculation by (auto simp: ended_ok_def not_found_op_def)
    ultimately obtain n where "length starts = Suc n"
      "length (iter_items (take_next FixedDelay_next) n (10, ?fd)) = n"
      "fst (take_next FixedDelay_next (iter_state (take_next FixedDelay_next) n (10, ?fd))) = None"
      by (cases v) (auto simp: ended_ok_def)
    with fixed_exhausted [of n 10 ?fd] len show False by simp
  qed
  with run len Cons show ?thesis
    by (auto simp: test_fixed_retries_timeout_def split: option.split sum.split TimeoutError.split)
qed

section \<open>A timer that is selected again after it has fired\<close>

datatype branch = Timer_Fired | Not_Fired

definition branch_poll :: "branch \<Rightarrow> 'm timer_api \<Rightarrow> ('m Sleeper, branch) poll_fn" where
  "branch_poll r tm now s =
     (case Sleeper_poll tm now s of (Ready _, s') \<Rightarrow> (Ready r, s') | (Pending, s') \<Rightarrow> (Pending, s'))"

text \<open>
  One round of the loop: \<open>select!\<close> over the timer and a new sleep, polled at the given instants, the
  first of which makes the new sleep. \<open>select!\<close> is the package's.
\<close>

definition select_round ::
  "('m Sleeper, 'm Sleeper, branch) combinator \<Rightarrow> 'm timer_api \<Rightarrow> Instant list \<Rightarrow> 'm Sleeper \<Rightarrow>
   branch option \<times> 'm Sleeper" where
  "select_round select tm polls sleep_ft =
     (case poll_until (select (branch_poll Timer_Fired tm) (branch_poll Not_Fired tm)) polls
          (sleep_ft, sleep tm (from_millis 40) (hd polls)) of
        (r, (sleep_ft', _)) \<Rightarrow> (r, sleep_ft'))"

text \<open>The loop with its two counters; \<open>None\<close> when a round is still pending after its last poll.\<close>

fun select_loop ::
  "('m Sleeper, 'm Sleeper, branch) combinator \<Rightarrow> 'm timer_api \<Rightarrow> Instant list list \<Rightarrow> u16 \<times> u16 \<Rightarrow> 'm Sleeper \<Rightarrow>
   (u16 \<times> u16) option" where
  "select_loop select tm [] counts sleep_ft = Some counts"
| "select_loop select tm (polls # rounds) (fired, not_fired) sleep_ft =
     (case select_round select tm polls sleep_ft of
        (None, _) \<Rightarrow> None
      | (Some Timer_Fired, sleep_ft') \<Rightarrow> select_loop select tm rounds (fired + 1, not_fired) sleep_ft'
      | (Some Not_Fired, sleep_ft') \<Rightarrow> select_loop select tm rounds (fired, not_fired + 1) sleep_ft')"

definition test_sleep ::
  "('m Sleeper, 'm Sleeper, branch) combinator \<Rightarrow> 'm timer_api \<Rightarrow> Instant \<Rightarrow> Instant list list \<Rightarrow> bool" where
  "test_sleep select tm time_now rounds =
     (case select_loop select tm rounds (0, 0) (sleep tm (from_millis 10) time_now) of
        None \<Rightarrow> True
      | Some (times_fired, times_not_fired) \<Rightarrow>
          (let elapsed = last (concat rounds) - time_now in
           elapsed < in_nanos (from_millis 1000) \<and> in_nanos (from_millis 10) < elapsed \<and>
           times_fired = 1 \<and> times_not_fired = 9))"

text \<open>\<open>select!\<close> answers with a branch that is ready, and has polled the other one at most in vain.\<close>

definition select_contract :: "('f, 'g, 'r) combinator \<Rightarrow> bool" where
  "select_contract comb \<longleftrightarrow> race_contract comb \<and>
     (\<forall>p q now f g r f' g'. comb p q now (f, g) = (Ready r, (f', g')) \<longrightarrow>
        (fst (p now f) = Ready r \<and> f' = snd (p now f)) \<or>
        (fst (q now g) = Ready r \<and> (f' = f \<or> fst (p now f) = Pending \<and> f' = snd (p now f))))"

lemma branch_ready:
  assumes "timer_contract deadline tm"
  shows "fst (branch_poll r tm now s) = (if due (deadline (sleeper_timer s)) now then Ready r else Pending)"
    and "deadline (sleeper_timer (snd (branch_poll r tm now s))) =
      (if due (deadline (sleeper_timer s)) now then None else deadline (sleeper_timer s))"
  using sleeper_ready [OF assms, of now s] by (auto simp: branch_poll_def split: prod.splits poll.splits if_splits)

lemma select_fires:
  assumes c: "timer_contract deadline tm" and sel: "select_contract select"
    and "deadline (sleeper_timer s) = Some d" and "deadline (sleeper_timer other) = Some e"
    and "sorted polls" and "x \<in> set polls" and "d \<le> x" and "x < e"
  shows "\<exists>s' other'. poll_until (select (branch_poll Timer_Fired tm) (branch_poll Not_Fired tm)) polls (s, other) =
     (Some Timer_Fired, (s', other')) \<and> deadline (sleeper_timer s') = None"
  using assms(3-)
proof (induction polls arbitrary: s other)
  case (Cons t polls)
  let ?p = "branch_poll Timer_Fired tm" and ?q = "branch_poll Not_Fired tm"
  have race: "race_contract select" using sel by (simp add: select_contract_def)
  have "t \<le> x" using Cons.prems(3,4) by auto
  then have q: "fst (?q t other) = Pending" "deadline (sleeper_timer (snd (?q t other))) = Some e"
    using branch_ready [OF c] Cons.prems by (simp_all add: due_def)
  show ?case
  proof (cases "d \<le> t")
    case True
    then have p: "fst (?p t s) = Ready Timer_Fired" "deadline (sleeper_timer (snd (?p t s))) = None"
      using branch_ready [OF c] Cons.prems by (simp_all add: due_def)
    obtain r s' o' where r: "select ?p ?q t (s, other) = (r, (s', o'))" by (rule prod_cases3)
    have "r = Ready Timer_Fired"
      using race_ready [OF race, of ?p t s ?q other] p q r by auto
    moreover from this have "s' = snd (?p t s)"
      using sel r q unfolding select_contract_def by (metis poll.distinct(1))
    ultimately show ?thesis using r p by simp
  next
    case False
    then have p: "fst (?p t s) = Pending" "deadline (sleeper_timer (snd (?p t s))) = Some d"
      using branch_ready [OF c] Cons.prems by (simp_all add: due_def)
    then have "select ?p ?q t (s, other) = (Pending, (snd (?p t s), snd (?q t other)))"
      using race_pending [OF race, of ?p t s _ ?q other] q(1) by (metis prod.collapse)
    moreover have "x \<in> set polls" using False Cons.prems(4,5) by auto
    ultimately show ?thesis using Cons.IH [OF p(2) q(2)] Cons.prems by simp
  qed
qed simp

lemma select_stays:
  assumes c: "timer_contract deadline tm" and sel: "select_contract select"
    and "deadline (sleeper_timer s) = None" and "deadline (sleeper_timer other) = Some e"
    and "poll_until (select (branch_poll Timer_Fired tm) (branch_poll Not_Fired tm)) polls (s, other) =
      (Some r, (s', other'))"
  shows "r = Not_Fired \<and> deadline (sleeper_timer s') = None \<and> (\<exists>x \<in> set polls. e \<le> x)"
  using assms(3-)
proof (induction polls arbitrary: s other)
  case (Cons t polls)
  let ?p = "branch_poll Timer_Fired tm" and ?q = "branch_poll Not_Fired tm"
  have race: "race_contract select" using sel by (simp add: select_contract_def)
  have p: "fst (?p t s) = Pending" "deadline (sleeper_timer (snd (?p t s))) = None"
    using branch_ready [OF c] Cons.prems by (simp_all add: due_def)
  obtain a s1 o1 where a: "select ?p ?q t (s, other) = (a, (s1, o1))" by (rule prod_cases3)
  show ?case
  proof (cases a)
    case Pending
    then have qp: "fst (?q t other) = Pending" using race_not_ready(2) [OF race] a by (metis fst_conv)
    then have "select ?p ?q t (s, other) = (Pending, (snd (?p t s), snd (?q t other)))"
      using race_pending [OF race, of ?p t s _ ?q other] p(1) by (metis prod.collapse)
    moreover have "deadline (sleeper_timer (snd (?q t other))) = Some e"
      using branch_ready [OF c, of Not_Fired t other] qp Cons.prems(2) by (simp split: if_splits)
    ultimately show ?thesis using Cons.IH [OF p(2)] Cons.prems(3) by auto
  next
    case (Ready r')
    with a sel have s1: "fst (?q t other) = Ready r'" "s1 = s \<or> s1 = snd (?p t s)"
      using p(1) unfolding select_contract_def by (metis poll.distinct(1))+
    then have "r' = Not_Fired" "e \<le> t"
      using branch_ready(1) [OF c, of Not_Fired t other] Cons.prems(2) by (auto simp: due_def split: if_splits)
    with s1 p Cons.prems a Ready show ?thesis by auto
  qed
qed simp

lemma sorted_le_last: "sorted xs \<Longrightarrow> x \<in> set xs \<Longrightarrow> x \<le> last xs"
  by (induction xs) auto

lemma select_loop_stays:
  assumes c: "timer_contract deadline tm" and sel: "select_contract select"
    and "deadline (sleeper_timer s) = None" and "select_loop select tm rounds (a, b) s = Some (a', b')"
  shows "a' = a \<and> b' = b + of_nat (length rounds) \<and>
     (\<forall>polls \<in> set rounds. \<exists>x \<in> set polls. hd polls + in_nanos (from_millis 40) \<le> x)"
  using assms(3-)
proof (induction rounds arbitrary: s b)
  case (Cons polls rounds)
  obtain r s1 where r: "select_round select tm polls s = (r, s1)" by fastforce
  with Cons.prems(2) obtain v where v: "r = Some v" by (cases r) auto
  with r obtain o1 where "poll_until (select (branch_poll Timer_Fired tm) (branch_poll Not_Fired tm)) polls
      (s, sleep tm (from_millis 40) (hd polls)) = (Some v, (s1, o1))"
    by (auto simp: select_round_def split: prod.splits)
  from select_stays [OF c sel Cons.prems(1) sleep_deadline [OF c] this]
  have 1: "v = Not_Fired" "deadline (sleeper_timer s1) = None"
    "\<exists>x \<in> set polls. hd polls + in_nanos (from_millis 40) \<le> x" by blast+
  with Cons.prems(2) r v have "select_loop select tm rounds (a, b + 1) s1 = Some (a', b')" by simp
  from Cons.IH [OF 1(2) this] 1(3) show ?case by simp
qed simp

text \<open>
  The test passes when its first round is polled between 10 and 40 milliseconds after its start and
  the ten rounds take less than a second; the fired timer is selected nine times more and stays pending.
\<close>

lemma test_sleep_passes:
  assumes c: "timer_contract deadline tm" and sel: "select_contract select"
    and "sorted (time_now # concat rounds)" and "length rounds = 10"
    and "x \<in> set (hd rounds)" and "time_now + in_nanos (from_millis 10) \<le> x"
    and "x < hd (hd rounds) + in_nanos (from_millis 40)"
    and "last (concat rounds) < time_now + in_nanos (from_millis 1000)"
  shows "test_sleep select tm time_now rounds"
proof -
  obtain first second later where rounds: "rounds = first # second # later" and nine: "length (second # later) = 9"
    using assms(4) by (cases rounds; cases "tl rounds") auto
  obtain s' o' where fires: "poll_until (select (branch_poll Timer_Fired tm) (branch_poll Not_Fired tm)) first
      (sleep tm (from_millis 10) time_now, sleep tm (from_millis 40) (hd first)) = (Some Timer_Fired, (s', o'))"
    and gone: "deadline (sleeper_timer s') = None"
    using select_fires [OF c sel sleep_deadline [OF c] sleep_deadline [OF c] _ _ assms(6,7), of first] assms(3,5) rounds
    by (auto simp: sorted_append)
  have loop: "select_loop select tm rounds (0, 0) (sleep tm (from_millis 10) time_now) =
      select_loop select tm (second # later) (1, 0) s'"
    using fires rounds by (simp add: select_round_def)
  show ?thesis
  proof (cases "select_loop select tm (second # later) (1, 0) s'")
    case None
    then show ?thesis using loop by (simp add: test_sleep_def)
  next
    case (Some ab)
    then obtain a b where ab: "select_loop select tm (second # later) (1, 0) s' = Some (a, b)" by (cases ab) auto
    note stays = select_loop_stays [OF c sel gone ab]
    then obtain y where y: "y \<in> set second" "hd second + in_nanos (from_millis 40) \<le> y" by auto
    have "second \<noteq> []" "y \<in> set (concat rounds)" using y(1) rounds by auto
    then have "time_now \<le> hd second" "y \<le> last (concat rounds)"
      using assms(3) rounds sorted_le_last [of "concat rounds" y] by simp_all
    moreover have "in_nanos (from_millis 10) = 10000000" "in_nanos (from_millis 40) = 40000000"
      by (simp_all add: from_millis_def in_nanos_def NANOS_PER_SEC_def)
    ultimately have "last (concat rounds) - time_now < in_nanos (from_millis 1000)"
      "in_nanos (from_millis 10) < last (concat rounds) - time_now"
      using y(2) assms(8) by linarith+
    with loop ab stays nine show ?thesis by (simp add: test_sleep_def Let_def)
  qed
qed

section \<open>The watchdog\<close>

text \<open>What the task of \<open>main_loop\<close> and the clock do while the test is in one of its waits.\<close>

fun background :: "doom_event list \<Rightarrow> doom_world \<Rightarrow> doom_world" where
  "background [] w = w"
| "background (Ev_Loop # evs) w = background evs (case main_loop_step w of None \<Rightarrow> w | Some w' \<Rightarrow> w')"
| "background (Ev_Tick n # evs) w = background evs (w\<lparr>clock := clock w + n\<rparr>)"
| "background (_ # evs) w = background evs w"

fun ticks :: "doom_event list \<Rightarrow> nat" where
  "ticks [] = 0"
| "ticks (Ev_Tick n # evs) = n + ticks evs"
| "ticks (_ # evs) = ticks evs"

text \<open>
  Awaiting the handle drives the loop to its end. The first test expects the panic of the loop. In both a
  clock at the end of its range makes \<open>spawn\<close> or \<open>reset\<close> panic, which says nothing about the timer.
\<close>

definition test_explode :: "Instant \<Rightarrow> doom_event list \<Rightarrow> bool" where
  "test_explode now waited =
     (case doom_spawn (from_millis 1) False now of
        Panicked \<Rightarrow> True
      | Returned w \<Rightarrow> pc (drive 14 (background waited w)) = Loop_Exploded)"

definition reset_then :: "doom_event list \<Rightarrow> doom_world \<Rightarrow> (doom_world \<Rightarrow> bool) \<Rightarrow> bool" where
  "reset_then waiting w rest =
     (case reset_begin w of
        Panicked \<Rightarrow> True
      | Returned w' \<Rightarrow> rest (reset_store (hd (resets w')) (background waiting w')))"

definition test_do_not_explode ::
  "Instant \<Rightarrow> doom_event list \<Rightarrow> doom_event list \<Rightarrow> doom_event list \<Rightarrow> doom_event list \<Rightarrow> doom_event list \<Rightarrow> bool" where
  "test_do_not_explode now slept1 lock1 slept2 lock2 slept3 =
     (case doom_spawn (from_millis 10) False now of
        Panicked \<Rightarrow> True
      | Returned w \<Rightarrow>
          reset_then lock1 (background slept1 w) (\<lambda>w.
          reset_then lock2 (background slept2 w) (\<lambda>w.
            pc (drive 8 (defuse (background slept3 w))) = Loop_Returned)))"

text \<open>A loop that runs: it has read no time of the future, and has ended only if it was defused.\<close>

definition loop_runs :: "doom_world \<Rightarrow> bool" where
  "loop_runs w \<longleftrightarrow> \<not> exited w \<and> pc w \<noteq> Loop_Exploded \<and> (pc w = Loop_Returned \<longrightarrow> defused (timer w)) \<and>
     (\<forall>n. pc w = Loop_Lock n \<longrightarrow> n \<le> clock w)"

lemma background_runs:
  assumes "loop_runs w" and "clock w + ticks evs \<le> time_to_explode (timer w)"
  shows "loop_runs (background evs w) \<and> clock (background evs w) = clock w + ticks evs \<and>
     timer (background evs w) = timer w \<and> resets (background evs w) = resets w"
  using assms
proof (induction evs arbitrary: w)
  case (Cons e evs)
  show ?case
  proof (cases e)
    case Ev_Loop
    show ?thesis
    proof (cases "main_loop_step w")
      case (Some w')
      have "loop_runs w'"
        using Some Cons.prems Ev_Loop
        by (auto simp: loop_runs_def main_loop_step_def split: loop_pc.splits if_splits)
      with main_loop_step_frame [OF Some] Cons.IH [of w'] Cons.prems(2) Some Ev_Loop show ?thesis by simp
    qed (use Cons Ev_Loop in simp)
  next
    case (Ev_Tick n)
    have "loop_runs (w\<lparr>clock := clock w + n\<rparr>)" using Cons.prems(1) by (auto simp: loop_runs_def)
    with Cons.IH [of "w\<lparr>clock := clock w + n\<rparr>"] Cons.prems(2) Ev_Tick show ?thesis by simp
  qed (use Cons in simp_all)
qed simp

lemma drive_explodes_from:
  assumes "\<not> exited w" and "\<not> defused (timer w)" and "\<not> aggressive_mode (timer w)" and "pc w \<noteq> Loop_Returned"
  shows "pc (drive 14 w) = Loop_Exploded"
  using assms by (cases "pc w") (auto simp: unroll)

lemma drive_returns_from:
  assumes "loop_runs w" and "clock w \<le> time_to_explode (timer w)" and "defused (timer w)"
  shows "pc (drive 8 w) = Loop_Returned"
  using assms by (cases "pc w") (auto simp: loop_runs_def unroll)

definition neglected :: "doom_world \<Rightarrow> bool" where
  "neglected w \<longleftrightarrow> \<not> exited w \<and> \<not> defused (timer w) \<and> \<not> aggressive_mode (timer w) \<and> pc w \<noteq> Loop_Returned"

lemma main_loop_step_neglected: "neglected w \<Longrightarrow> main_loop_step w = Some w' \<Longrightarrow> neglected w'"
  by (auto simp: neglected_def main_loop_step_def explode_def explode_inner_def split: loop_pc.splits if_splits)

lemma background_neglected: "neglected w \<Longrightarrow> neglected (background evs w)"
proof (induction evs w rule: background.induct)
  case (2 evs w)
  then show ?case by (auto split: option.split dest: main_loop_step_neglected)
qed (simp_all add: neglected_def)

lemma test_explode_passes: "test_explode now waited"
proof (cases "doom_spawn (from_millis 1) False now")
  case (Returned w)
  have "neglected w" using spawn_fields [OF Returned] by (simp add: neglected_def)
  then have "neglected (background waited w)" by (rule background_neglected)
  then have "pc (drive 14 (background waited w)) = Loop_Exploded"
    by (intro drive_explodes_from) (simp_all add: neglected_def)
  with Returned show ?thesis by (simp add: test_explode_def)
qed (simp add: test_explode_def)

lemma reset_then_runs:
  assumes "loop_runs w" and "clock w + ticks waiting \<le> time_to_explode (timer w)"
    and rest: "\<And>w'. loop_runs w' \<Longrightarrow> clock w' = clock w + ticks waiting \<Longrightarrow>
       time_to_explode (timer w') = clock w + in_nanos (duration (timer w)) \<Longrightarrow>
       duration (timer w') = duration (timer w) \<Longrightarrow> rest w'"
  shows "reset_then waiting w rest"
proof (cases "reset_begin w")
  case (Returned w1)
  then have w1: "w1 = w\<lparr>resets := (clock w + in_nanos (duration (timer w))) # resets w\<rparr>"
    by (auto simp: reset_begin_def exec_simps)
  then have "loop_runs w1" using assms(1) by (simp add: loop_runs_def)
  with background_runs [of w1 waiting] assms(2) w1
  have b: "loop_runs (background waiting w1)" "clock (background waiting w1) = clock w + ticks waiting"
    "timer (background waiting w1) = timer w" by simp_all
  then have "rest (reset_store (hd (resets w1)) (background waiting w1))"
    by (intro rest) (auto simp: loop_runs_def reset_store_def w1)
  with Returned show ?thesis by (simp add: reset_then_def)
qed (simp add: reset_then_def)

text \<open>
  The second test passes when each of its resets is stored, and the timer defused, not later than ten
  milliseconds after the reset before it began: its sleeps of five leave it five more.
\<close>

lemma test_do_not_explode_passes:
  assumes "ticks slept1 + ticks lock1 \<le> in_nanos (from_millis 10)"
    and "ticks lock1 + ticks slept2 + ticks lock2 \<le> in_nanos (from_millis 10)"
    and "ticks lock2 + ticks slept3 \<le> in_nanos (from_millis 10)"
  shows "test_do_not_explode now slept1 lock1 slept2 lock2 slept3"
proof (cases "doom_spawn (from_millis 10) False now")
  case (Returned w)
  let ?d = "in_nanos (from_millis 10)"
  note s = spawn_fields [OF Returned]
  have w: "loop_runs w" using s by (simp add: loop_runs_def)
  note b1 = background_runs [OF w, of slept1]
  have "reset_then lock1 (background slept1 w) (\<lambda>w. reset_then lock2 (background slept2 w) (\<lambda>w.
      pc (drive 8 (defuse (background slept3 w))) = Loop_Returned))"
  proof (intro reset_then_runs, goal_cases)
    case 1
    then show ?case using b1 s assms(1) by simp
  next
    case 2
    then show ?case using b1 s assms(1) by simp
  next
    case (3 w')
    then show ?case using background_runs [of w' slept2] b1 s assms by simp
  next
    case (4 w')
    then show ?case using background_runs [of w' slept2] b1 s assms by simp
  next
    case (5 w' w'')
    have w': "loop_runs (background slept2 w')" "clock (background slept2 w') = clock w' + ticks slept2"
      "timer (background slept2 w') = timer w'"
      using 5 background_runs [of w' slept2] b1 s assms by simp_all
    note b3 = background_runs [of w'' slept3]
    have "loop_runs (background slept3 w'')" "clock (background slept3 w'') \<le> time_to_explode (timer (background slept3 w''))"
      using 5 w' b3 b1 s assms by simp_all
    then show ?case by (intro drive_returns_from) (auto simp: defuse_def loop_runs_def)
  qed
  with Returned show ?thesis by (simp add: test_do_not_explode_def)
qed (simp add: test_do_not_explode_def)

section \<open>Futures that are ready at once\<close>

definition TestFuture_poll :: "(unit, u16) poll_fn" where
  "TestFuture_poll cx self = (Ready 2, self)"

definition test_poll :: "(unit, u16) poll_fn" where
  "test_poll cx self = (Ready 4, self)"

text \<open>The body of a test: it awaits the future, asserts its value and returns \<open>Ok(())\<close>.\<close>

definition assert_awaited :: "('f, u16) poll_fn \<Rightarrow> u16 \<Rightarrow> ('f, (unit, io_error) result exec) poll_fn" where
  "assert_awaited p v cx f =
     (case p cx f of
        (Ready x, f') \<Rightarrow> (Ready (if x = v then Returned (Inr ()) else Panicked), f')
      | (Pending, f') \<Rightarrow> (Pending, f'))"

definition test_future :: "(unit, (unit, io_error) result exec) block_on \<Rightarrow> bool" where
  "test_future block_on \<longleftrightarrow> run_block_on block_on (assert_awaited TestFuture_poll 2) () = Some (Returned (Inr ()))"

definition test_future_with_poll :: "(unit, (unit, io_error) result exec) block_on \<Rightarrow> bool" where
  "test_future_with_poll block_on \<longleftrightarrow> run_block_on block_on (assert_awaited test_poll 4) () = Some (Returned (Inr ()))"

definition test_1_poll :: "(unit, (unit, io_error) result) poll_fn" where
  "test_1_poll cx self = (Ready (Inr ()), self)"

definition test_1_sync_example :: "(unit, (unit, io_error) result) block_on \<Rightarrow> bool" where
  "test_1_sync_example block_on \<longleftrightarrow> assert_async_block block_on test_1_poll () = Some (Returned ())"

lemma ready_future_tests_pass:
  "block_on_contract block_on \<Longrightarrow> test_future block_on"
  "block_on_contract block_on \<Longrightarrow> test_future_with_poll block_on"
  "block_on_contract block_on' \<Longrightarrow> test_1_sync_example block_on'"
  by (simp_all add: test_future_def test_future_with_poll_def test_1_sync_example_def assert_async_block_def
      run_block_on_def block_on_contract_def assert_awaited_def TestFuture_poll_def test_poll_def test_1_poll_def)

end
