(* ===== verification/Test_Tasks.thy ===== *)
theory Test_Tasks
  imports Tasks
begin

text \<open>
  The tests \<open>future_join\<close> and \<open>future_spawn\<close> of \<open>src/src/task.rs\<close>. Their blocks log and put the whole
  thread to sleep, so a block is a list of statements that a thread runs without a break, and what
  the comments promise is an order of log messages. Which of two futures \<open>zip\<close> polls first and when
  and on which threads an executor starts its tasks are parameters. The lemmas say when the order is
  the promised one.
\<close>

section \<open>Blocks that hold their thread\<close>

datatype thread_stmt = Debug string | Thread_Sleep Duration

type_synonym log = "(Instant \<times> string) list"

text \<open>What a thread logs that runs a block from an instant on, and when it is done.\<close>

fun run_thread :: "Instant \<Rightarrow> thread_stmt list \<Rightarrow> log \<times> Instant" where
  "run_thread now [] = ([], now)"
| "run_thread now (Debug msg # ss) = (let (l, t) = run_thread now ss in ((now, msg) # l, t))"
| "run_thread now (Thread_Sleep d # ss) = run_thread (now + in_nanos d) ss"

definition ft1 :: "thread_stmt list" where
  "ft1 = [Debug ''ft1: starting sleeping for 1000ms'', Thread_Sleep (from_millis 1000), Debug ''ft1: woke from sleep'']"

definition ft2 :: "thread_stmt list" where
  "ft2 = [Debug ''ft2: starting sleeping for 500ms'', Thread_Sleep (from_millis 500), Debug ''ft2: woke up'']"

section \<open>future_join\<close>

text \<open>A poll of \<open>zip\<close> polls both futures, one after the other on the thread it is called on.\<close>

definition zip_threads :: "bool \<Rightarrow> Instant \<Rightarrow> thread_stmt list \<Rightarrow> thread_stmt list \<Rightarrow> log \<times> Instant" where
  "zip_threads left_first now a b =
     (let (x, y) = (if left_first then (a, b) else (b, a)); (l, t) = run_thread now x; (l', t') = run_thread t y
      in (l @ l', t'))"

definition future_join :: "bool \<Rightarrow> Instant \<Rightarrow> log \<times> Instant" where
  "future_join left_first now = zip_threads left_first now ft1 ft2"

section \<open>future_spawn\<close>

text \<open>
  The test spawns both blocks and sleeps for two seconds. An executor that keeps the blocks in the
  order they came in (\<open>pool\<close>) starts them at the instants it is given; the log shows the messages of
  all threads in the order of time.
\<close>

definition future_spawn :: "('s, thread_stmt list, 'h) executor_api \<Rightarrow> 's \<Rightarrow> 's" where
  "future_spawn ex s = task_spawn ex ft2 (task_spawn ex ft1 s)"

definition pool :: "(thread_stmt list list, thread_stmt list, nat) executor_api" where
  "pool = \<lparr>ex_spawn = (\<lambda>b bs. (length bs, bs @ [b])), ex_detach = (\<lambda>h bs. bs),
     ex_drop = (\<lambda>h bs. bs[h := []]), ex_spawn_local = (\<lambda>b bs. bs @ [b])\<rparr>"

definition pool_log :: "Instant list \<Rightarrow> thread_stmt list list \<Rightarrow> log" where
  "pool_log starts blocks = sort_key fst (concat (map (\<lambda>(t, b). fst (run_thread t b)) (zip starts blocks)))"

definition test_wait :: Duration where
  "test_wait = from_millis 2000"

section \<open>Lemmas\<close>

lemma half_second [simp]: "in_nanos (from_millis 500) = 500000000"
  by (simp add: in_nanos_def from_millis_def)

lemma second [simp]: "in_nanos (from_millis 1000) = 1000000000"
  by (simp add: in_nanos_def from_millis_def NANOS_PER_SEC_def)

lemma two_seconds [simp]: "in_nanos test_wait = 2000000000"
  by (simp add: test_wait_def in_nanos_def from_millis_def NANOS_PER_SEC_def)

text \<open>Joined, the blocks never overlap; the promised order is that of a \<open>zip\<close> that polls its first future first.\<close>

lemma future_join_log:
  "map snd (fst (future_join left_first now)) =
     (let a = [''ft1: starting sleeping for 1000ms'', ''ft1: woke from sleep''];
          b = [''ft2: starting sleeping for 500ms'', ''ft2: woke up''] in if left_first then a @ b else b @ a) \<and>
   snd (future_join left_first now) = now + 1500000000"
  by (simp add: future_join_def zip_threads_def ft1_def ft2_def)

lemma future_spawn_pool: "future_spawn pool [] = [ft1, ft2]"
  by (simp add: future_spawn_def task_spawn_def pool_def)

text \<open>
  Spawned, the second block runs inside the first when a thread is free for it within half a second,
  and every message is logged before the test ends when both start within a second.
\<close>

lemma future_spawn_two_threads:
  assumes "s1 < s2" and "s2 < s1 + 500000000"
  shows "map snd (pool_log [s1, s2] (future_spawn pool [])) =
    [''ft1: starting sleeping for 1000ms'', ''ft2: starting sleeping for 500ms'', ''ft2: woke up'', ''ft1: woke from sleep'']"
  using assms by (simp add: future_spawn_pool pool_log_def ft1_def ft2_def)

lemma future_spawn_within_test:
  assumes "s1 \<le> now + 1000000000" and "s2 \<le> now + 1500000000"
    and "(t, msg) \<in> set (pool_log [s1, s2] (future_spawn pool []))"
  shows "t \<le> now + in_nanos test_wait"
proof -
  from assms(3) have "(t, msg) \<in> set (fst (run_thread s1 ft1)) \<union> set (fst (run_thread s2 ft2))"
    unfolding pool_log_def set_sort future_spawn_pool by simp
  with assms(1,2) show ?thesis by (auto simp: ft1_def ft2_def)
qed

text \<open>An executor with a single thread starts the second block only after the first, and the order is another.\<close>

lemma future_spawn_one_thread:
  assumes "s2 = snd (run_thread s1 ft1) + d" and "0 < d"
  shows "map snd (pool_log [s1, s2] (future_spawn pool [])) =
    [''ft1: starting sleeping for 1000ms'', ''ft1: woke from sleep'', ''ft2: starting sleeping for 500ms'', ''ft2: woke up'']"
  using assms by (simp add: future_spawn_pool pool_log_def ft1_def ft2_def)

end
