(* ===== verification/Spec2Isabelle.thy ===== *)
theory Spec2Isabelle
  imports Retry Retry_Poll Timeouts Tasks Macros Zero_Copy Async_Fs Posix_Fs Bounded_File Write_Buf Mmap
    Shared_File Doomsday Net Tls_Connectors Rust_Tls Rust_Tls_Builder Native_Tls Openssl_Stream Wakeups
    Openssl_Certs Openssl_Tls Crate_Root Exchange Connection_Tests Test_Suite Test_Files Test_Tls Test_Time
    Test_Tasks
begin

text \<open>
  A verification library for \<open>fluvio-future\<close>, the asynchronous runtime layer of Fluvio (the Rust
  crate under \<open>src/\<close>): retries and time limits, files and zero-copy transfers, a watchdog timer, TCP
  connections and three TLS back ends.

  \<^bold>\<open>The program and its model.\<close> Each theory models one component, in the order of the code, with one
  definition per operation; the opening text of a theory names its source file.

  \<^item> \<open>Rust_Prelude\<close>, \<open>Rust_Time\<close>: what the sources use of the language and its library. Machine integers
    are words, read with \<open>unat\<close>; \<open>Result\<close> is a sum with the error on the left; a computation that may
    panic returns \<open>exec\<close>; \<open>+\<close> and \<open>-\<close> take the build profile as an argument (\<open>checks\<close>: an overflow
    panics, otherwise it wraps). A \<open>Duration\<close> is seconds and nanoseconds, an \<open>Instant\<close> the clock in
    nanoseconds.
  \<^item> \<open>Backoff\<close>, \<open>Retry\<close> (\<open>src/src/retry.rs\<close>): the three delay strategies as iterators, and the retry
    loop. The locale \<open>delay_strategy\<close> is the contract between them. \<open>Retry_Poll\<close>: the same function as the
    future that an executor polls and may drop between two polls, alone and under a time limit.
  \<^item> \<open>Timeouts\<close> (\<open>src/src/timer.rs\<close>, \<open>src/src/future.rs\<close>, \<open>RetryExt\<close> of \<open>retry.rs\<close>): sleeping and the two
    time limits, over the instants at which an executor polls.
  \<^item> \<open>Tasks\<close> (\<open>src/src/task.rs\<close>, the module \<open>subscriber\<close> of \<open>src/src/lib.rs\<close>, \<open>src/src/test_util.rs\<close>): running
    and spawning futures on both targets. \<open>Macros\<close> (\<open>src/fluvio-future-derive/\<close>): the attribute macros as
    functions from parsed items to trees of tokens. A reader of such tokens, written from the grammar of
    the language and not from the macros, and an evaluator for both targets say what the emitted code does.
  \<^item> \<open>File_Slice\<close>, \<open>Zero_Copy\<close> (\<open>src/src/file_slice.rs\<close>, \<open>src/src/zero_copy.rs\<close>): slices of files and the
    Linux and macOS loops that send one to a socket.
  \<^item> \<open>Async_Fs\<close>, \<open>Bounded_File\<close>, \<open>Mmap\<close> (\<open>src/src/fs/\<close>): opening files and taking slices, the sink that
    counts what is written through it (over a file that may buffer: what a write took and what is on
    disk are two views of it), mapped files behind a lock that can be poisoned. \<open>Posix_Fs\<close>: what the
    openers give, over the bytes of the files and the positions of the open ones. \<open>Write_Buf\<close>
    (\<open>src/src/write.rs\<close>): the future that writes a whole buffer. \<open>Rust_Sync\<close>: \<open>RwLock\<close> with poisoning, and
    reference-counted cells as a heap (locale \<open>counted_store\<close>). \<open>Shared_File\<close>
    (\<open>src/src/fs/shared_file.rs\<close>): a file shared by clones over such a cell, so that aliasing is explicit;
    an operation of the file that panics under the lock poisons it.
  \<^item> \<open>Doomsday\<close> (\<open>src/src/doomsday.rs\<close>): the watchdog timer. Its loop is cut at each access to shared
    state and interleaved with resets, \<open>defuse\<close>, \<open>explode\<close> and time by an inductive step relation.
  \<^item> \<open>Net\<close> (\<open>src/src/net/\<close>): TCP streams with their options, the traits \<open>TcpDomainConnector\<close> and
    \<open>CertBuilder\<close> as locales, the plain connector. \<open>Tls_Connectors\<close>: the six TLS connectors, each an
    interpretation of the trait; those of OpenSSL call the \<open>connect\<close> of \<open>Openssl_Tls\<close>.
  \<^item> \<open>Rust_Tls\<close>, \<open>Native_Tls\<close>, \<open>Openssl_Certs\<close>, \<open>Openssl_Tls\<close>: certificates, keys, identities and the
    builders of the three back ends. \<open>Rust_Tls_Builder\<close>: the builder types of \<open>src/src/rust_tls.rs\<close> as stages,
    and the chains of calls that type check. \<open>Openssl_Stream\<close>: the adapter between asynchronous streams and the
    synchronous OpenSSL library, its stream, and the handshake state machine. \<open>Wakeups\<close>: which task context
    a pending poll of them leaves with the socket.
  \<^item> \<open>Crate_Root\<close> (\<open>src/src/lib.rs\<close>, \<open>src/Cargo.toml\<close>): which modules a selection of features gives on a
    platform, for which \<open>unix\<close>, \<open>windows\<close> and \<open>wasm32\<close> are independent conditions, and which modules name which.
  \<^item> \<open>Test_Suite\<close>, \<open>Test_Files\<close>, \<open>Test_Tls\<close>, \<open>Test_Time\<close>, \<open>Test_Tasks\<close>: the unit tests of the repository, run on
    the model, with lemmas that say in which environments they pass. \<open>Exchange\<close>, \<open>Connection_Tests\<close>: the
    client and server blocks of the connection tests from their first poll, interleaved with each other
    and with the clock, over a listener and two byte streams; every operation has its error outcome.

  The components meet in four places. The retry loop calls a strategy and a timer. A file or a sink
  gives a slice (\<open>as_slice\<close>, \<open>slice_from\<close>) that the zero-copy loop sends; two properties of this theory
  follow the bytes over that way. A connector opens a TCP stream, applies the socket options and hands
  the stream to a TLS back end. For OpenSSL the whole way is modelled, and the last property of this
  theory follows it from the builder's calls to the returned connection.

  \<^bold>\<open>Code that is not in the repository\<close> (the kernel's \<open>sendfile\<close>, \<open>async_fs\<close>, \<open>memmap2\<close>, \<open>async_io\<close>,
  \<open>futures_lite\<close>, \<open>async_net\<close>, \<open>socket2\<close>, Rustls, \<open>native_tls\<close>, OpenSSL, the PEM parser) is a parameter:
  a function, or a record of functions named \<open>..._api\<close>. What is relied on is a predicate named
  \<open>..._contract\<close>, stated over views of the parameter's state, and appears as a hypothesis; each has a
  concrete instance that satisfies it, used by the witnesses.

  \<^bold>\<open>What is shown.\<close>

  \<^item> Retrying: the n-th delay of each strategy in closed form, with saturation at the limits of the
    types and at \<open>max_delay\<close>; schedules never run dry, never shrink and respect the limit; the loop
    agrees with a declarative specification, alternates attempts and sleeps, is bounded by \<open>take\<close>, and
    never returns on an unbounded strategy that keeps failing. The polled future refines the loop for every
    way of polling it; under a time limit its attempts start after their delays and fit into the limit.
  \<^item> Time limits: both agree with one specification over all polling times; the one built on \<open>race\<close> may
    choose when value and time-out coincide. \<open>task::main\<close> never returns and never spins. The code that
    \<open>main_async\<close> emits is the compile error of the case or a \<open>main\<close> with the outcome of the annotated
    function, and the test that \<open>test_async\<close> emits fails exactly on a panic or an error.
  \<^item> Files: what each opener promises about the old bytes holds over any sequence of calls; the zero-copy loops return and send exactly the bytes of the slice that the file has;
    the sink's counter is the number of bytes the file has taken, and of those on disk after a clean flush, and guarded writes keep its limit; writes to a
    mapping refine updates of a memory until the first one out of range, which poisons the lock; a
    flush makes the file equal to the mapping. Clones of a shared file have one cursor, no access
    reaches a freed cell, none is freed while a clone lives, and a poll panics exactly when the file's own
    operation does or did in an earlier poll.
  \<^item> The watchdog: no interleaving explodes before a full duration has passed since the reset in force
    began; a loop defused in its sleep returns; once the deadline of a neglected timer has passed, every run of
    its loop explodes within six steps.
  \<^item> Connections: a domain connector connects exactly when TCP does and TLS accepts the domain set last, the
    options of a socket are the ones asked for, errors keep their kind; the peer of an OpenSSL connection is
    trusted and named as its builder was asked for; identities
    survive their container; keys and roots are loaded completely and in order. A chain of builder
    calls that type checks ends in a connector with the roots and the identity it was given. Every
    compiled module finds the modules it names on the usual targets, except for two features that lack a
    dependency; the exceptions on other targets are listed.
  \<^item> OpenSSL streams: the assertions on the stored task context never fail, in handshakes or in any
    sequence of polls, no context is left behind, and the synchronous detour does not change results. No
    wake-up is lost: a pending poll has given its own context to the socket.
  \<^item> Tests: the TLS tests with replies, the TCP tests and the zero-copy tests of one read finish after a fixed
    number of steps in every interleaving in which the server is bound before the client wakes, without a
    failed assertion, on a network that binds, accepts and delivers whole messages and does not break; the other modelled tests pass under the timing and file conditions that their
    lemmas name.
  \<^item> Where the code does not do what it means to: an exact-end slice is refused, an empty slice on
    macOS sends the rest of the file, a pending whole-buffer write repeats its prefix, closing an
    OpenSSL stream never waits, the Rustls anonymous connector cannot connect to any usual address with a port, \<open>defuse\<close> can come too
    late, \<open>open\<close> of a mapped file does not enforce its minimum, a seek of a shared file that needs a second
    poll never completes, a \<open>test_async\<close> test passes unrun on WebAssembly, a retry with zero delays can hang its
    first poll and with it the time limit, two tests depend on timing or on leftover files, the TCP test passes
    without a connection and hangs when its server is late, the connection tests fail when a message arrives
    in pieces, modules do not compile on a \<open>wasm32\<close> target that is \<open>unix\<close> too, and the OpenSSL test of
    client authentication never asks for a client certificate.

  \<^bold>\<open>Loops and fuel.\<close> Loops over parameters that may never end (\<open>retry_loop\<close> for both targets, the two \<open>copy_loop\<close>s,
  \<open>load_keys_loop\<close>) are partial functions whose value \<open>None\<close> is non-termination; that they return is
  part of their properties, by measures on the bytes left, on the blocked calls left or on the
  sections left. \<open>write_loop\<close> is total, since each round shortens its buffer, and so is the reader
  of emitted code, since it consumes tokens. Awaiting a handshake
  (\<open>handshake_await\<close>) runs over a finite list of wake-ups of any length; \<open>None\<close> means still pending,
  and the properties hold for every list. \<open>drive\<close> runs the watchdog's loop alone, for the tests: fourteen
  rounds reach an explosion and eight a return from any place of the loop, which the lemmas prove; the
  explosion of a neglected timer is shown for all runs of the step relation and needs no fuel. The loops of
  \<open>task::main\<close> (\<open>sleep_loop\<close>, \<open>sleep_loop_wasm\<close>) are partial functions too: one poll of them ends because
  the sleep it starts is in the future. \<open>retry_poll\<close> is one as well: a poll returns when no delay is zero, and
  a lemma shows that it may not otherwise. No bound limits the size of the data.

  \<^bold>\<open>What is not modelled.\<close> Memory orderings weaker than interleaving; cancellation of a future between two
  polls, except for a retry under a time limit; wake-ups outside the OpenSSL stream, which are the packages'; log
  output; \<open>poll_next\<close> of \<open>src/src/fs/stream.rs\<close>, which has no body; the finished TLS streams of Rustls and
  \<open>native_tls\<close>, which belong to those packages; the client of the large zero-copy test, whose server and file
  are modelled; the WebAssembly test of \<open>src/src/net/mod.rs\<close>, the test of \<open>src/src/fs/shared_file.rs\<close> (a module that
  is not compiled), the tests of \<open>src/src/test_util.rs\<close> that only log and the compile tests of the macros. In the
  connection tests the set-up of a listener, an accepted connection and a handshake have their outcome
  from the environment; what a handshake does is modelled in \<open>Openssl_Stream\<close> and \<open>Openssl_Tls\<close> only.
\<close>

section \<open>For the witnesses\<close>

text \<open>A network whose sockets are the streams of \<open>blinker\<close>, and the OpenSSL library over them.\<close>

definition blink_net :: "(unit, bool, unit) net_api" where
  "blink_net = \<lparr>tcp_connect = (\<lambda>addr s. (Inr False, s)), set_nodelay = (\<lambda>t b s. (Inr (), s)),
     set_tcp_keepalive = (\<lambda>t k s. (Inr (), s)), as_raw_fd = (\<lambda>t. 5), tk_new = (),
     tk_with_time = (\<lambda>_ k. k), tk_with_interval = (\<lambda>_ k. k), tk_with_retries = (\<lambda>_ k. k)\<rparr>"

text \<open>
  An OpenSSL library whose peer has a trusted certificate for \<open>b.org\<close>: a builder is its verification
  setting, a configuration has the two checks, and a connection for another name fails when both are on.
\<close>

definition b_org_openssl :: "(bool, bool, bool \<times> bool, unit, u8, u8, bool, nat) openssl_api" where
  "b_org_openssl = \<lparr>os_connector_builder = Inr True, os_acceptor_builder = Inr False,
     os_set_verify = (\<lambda>m b. False), os_verify_none = (),
     os_set_certificate_file = (\<lambda>f b. Inr b), os_set_private_key_file = (\<lambda>f b. Inr b),
     os_set_ca_file = (\<lambda>f b. Inr b), os_store_add_cert = (\<lambda>x b. Inr b),
     os_set_certificate = (\<lambda>x b. Inr b), os_set_private_key = (\<lambda>k b. Inr b),
     os_add_extra_chain_cert = (\<lambda>x b. Inr b), os_build = (\<lambda>b. b),
     os_configure = (\<lambda>c. Inr (c, False)), os_verify_hostname = (\<lambda>v g. (fst g, v)),
     os_set_partial_chain = Inr,
     os_connect = (\<lambda>g d w. if fst g \<and> snd g \<and> d \<noteq> ''b.org'' then Returned (Inl Setup_Failure)
        else plain_start blinker w),
     os_accept = (\<lambda>c. plain_start blinker)\<rparr>"

definition b_org_session :: "bool \<times> bool \<Rightarrow> string \<Rightarrow> nat \<Rightarrow> bool" where
  "b_org_session = peer_checked fst snd (\<lambda>e. e = 0) (\<lambda>d e. d = ''b.org'' \<and> e = 0)"

lemma b_org_verify_contract: "verify_contract (\<lambda>b. b) fst snd b_org_openssl"
  by (simp add: verify_contract_def b_org_openssl_def)

lemma plain_handshake_engine:
  "answer_checked (\<lambda>e. e = ssl_engine s) (\<lambda>e. e = ssl_engine s) (ssl_handshake (plain_ssl st) s)"
  by (auto simp: answer_checked_def plain_ssl_def split: prod.split exec.split sum.split)

lemma b_org_session_contract:
  "session_contract (\<lambda>g d e. e = 0 \<and> b_org_session g d e) b_org_session b_org_openssl (plain_ssl blinker)"
proof -
  have step: "answer_checked (\<lambda>e. e = 0 \<and> b_org_session g d e) (b_org_session g d) (ssl_handshake (plain_ssl blinker) s)"
    if "ssl_engine s = 0" "b_org_session g d 0" for g d s
    using plain_handshake_engine [of s blinker] that
    by (auto simp: answer_checked_def split: exec.splits sum.splits HandshakeError.splits)
  moreover have "answer_checked (\<lambda>e. e = 0 \<and> b_org_session g d e) (b_org_session g d) (os_connect b_org_openssl g d w)"
    for g d w
  proof (cases "fst g \<and> snd g \<and> d \<noteq> ''b.org''")
    case True
    then show ?thesis by (simp add: b_org_openssl_def answer_checked_def)
  next
    case False
    then have "b_org_session g d 0" by (auto simp: b_org_session_def peer_checked_def)
    from step [OF _ this, of "\<lparr>ssl_engine = 0, ssl_io = w\<rparr>"] False show ?thesis
      by (auto simp: b_org_openssl_def plain_start_def)
  qed
  ultimately show ?thesis by (auto simp: session_contract_def)
qed

section \<open>From a file to a socket\<close>

text \<open>
  C7. A slice taken with \<open>as_slice\<close> is sent as it is: in a build with overflow checks, or when the
  requested end does not pass \<open>u64::MAX\<close>, \<open>copy_slice\<close> on the slice returns without a panic, and a
  success means that the target received the bytes of the file from the position on, as many as
  were asked for, or all of the rest when no length was given.
\<close>

theorem file_slice_is_sent:
  assumes "as_slice checks api f position dlen = Returned (Inr source)"
    and "checks \<or> unat position + unat (case dlen of None \<Rightarrow> 0 | Some d \<Rightarrow> d) < 2 ^ 64"
    and "fa_metadata_len api f = Inr len" and "unat len = length (file k)" and "unat len < 2 ^ 63"
    and "sendfile_contract file sent blocked target (fa_raw_fd api f) sendfile pause"
  shows "\<exists>res k'. copy_slice checks sendfile pause (ZeroCopy target) source k = Some (res, k') \<and>
     res \<noteq> Panicked \<and>
     (\<forall>n. res = Returned (Inr n) \<longrightarrow>
        n = slice_len source \<and>
        sent k' = sent k @ (case dlen of
            None \<Rightarrow> drop (unat position) (file k)
          | Some d \<Rightarrow> take (unat d) (drop (unat position) (file k))))"
proof -
  have sl: "slice_position source = position" "slice_fd source = fa_raw_fd api f"
    "unat position + unat (slice_len source) \<le> length (file k)"
    "dlen = None \<Longrightarrow> unat position + unat (slice_len source) = length (file k)"
    using as_slice_inside [OF assms(1,3,2)] assms(4) by auto
  have d: "slice_len source = d" if "dlen = Some d" for d
    using as_slice_Ok_cases [OF assms(1)] that by fastforce
  have small: "unat (slice_position source) + unat (slice_len source) < 2 ^ 63"
    using sl(1,3) assms(4,5) by simp
  have contract: "sendfile_contract file sent blocked target (slice_fd source) sendfile pause"
    using assms(6) sl(2) by simp
  obtain res k' where
    run: "copy_slice checks sendfile pause (ZeroCopy target) source k = Some (res, k')"
    and "transfer_done (file k) (sent k) (unat (slice_position source)) (unat (slice_len source)) res
       (sent k') (file k')"
    using copy_slice_ok [OF contract small, of checks k] by blast
  then have transferred: "transfer_done (file k) (sent k) (unat position) (unat (slice_len source)) res
       (sent k') (file k')" using sl(1) by simp
  have "n = slice_len source" if "res = Returned (Inr n)" for n
    using transferred that sl(3) by (simp add: transfer_done_def word_unat_eq_iff)
  moreover have "sent k' = sent k @ take (unat (slice_len source)) (drop (unat position) (file k))"
    if "res = Returned (Inr n)" for n
    using transferred that by (simp add: transfer_done_def)
  moreover have "res \<noteq> Panicked" using transferred by (auto simp: transfer_done_def)
  ultimately show ?thesis using run d sl(4) by (auto split: option.split)
qed

theorem file_slice_is_sent_witness:
  "\<exists>res k'. copy_slice True sim_sendfile (\<lambda>_ k. k) (ZeroCopy 7) (raw_slice mem_file [1, 2, 3, 4] 1 3)
       \<lparr>sim_file = [1, 2, 3, 4], sim_sent = [], sim_script = [0, 2, 0]\<rparr> = Some (res, k') \<and>
     res \<noteq> Panicked"
proof -
  let ?k = "\<lparr>sim_file = [1, 2, 3, 4], sim_sent = [], sim_script = [0, 2, 0]\<rparr>"
  have run: "as_slice True mem_file [1, 2, 3, 4] 1 None
      = Returned (Inr (raw_slice mem_file [1, 2, 3, 4] 1 3))"
    by (simp add: as_slice_rest [of _ _ 4] mem_file_def)
  have len: "fa_metadata_len mem_file [1, 2, 3, 4] = Inr 4" "unat (4 :: u64) = length (sim_file ?k)"
    "unat (4 :: u64) < 2 ^ 63"
    by (simp_all add: mem_file_def)
  from file_slice_is_sent [OF run _ len sim_sendfile_contract, of 7] show ?thesis by auto
qed

text \<open>
  C8. What is appended through a bounded sink can be sent by zero copy: take the length before and
  after any sequence of writes, flushes and closes on a sink opened for appending; the slice between
  the two is exactly what was appended, and, once the kernel has the bytes of the file, \<open>copy_slice\<close>
  on it returns without a panic, and a success has sent precisely the appended bytes.
\<close>

theorem appended_bytes_are_sent:
  assumes "file_contract bytes disk api" and "opens_settled bytes disk fs"
    and "sink_open_append fs api path opt s = (Inr self, s')"
    and "unat (get_current_len self) + sum_list (map op_size ops) < 2 ^ 63"
    and "sink_run checks api ops self = Some self'"
    and "file k = bytes (sink_inner self')"
    and "sendfile_contract file sent blocked target (fa_raw_fd api (sink_inner self')) sendfile pause"
  shows "\<exists>appended source res k'. bytes (sink_inner self') = bytes (sink_inner self) @ appended \<and>
     slice_from api self' (get_current_len self) (get_current_len self' - get_current_len self) = Inr source \<and>
     copy_slice checks sendfile pause (ZeroCopy target) source k = Some (res, k') \<and> res \<noteq> Panicked \<and>
     (\<forall>n. res = Returned (Inr n) \<longrightarrow> unat n = length appended \<and> sent k' = sent k @ appended)"
proof -
  let ?p = "get_current_len self" and ?n = "get_current_len self' - get_current_len self"
  let ?source = "raw_slice api (writer self') ?p ?n"
  have opened: "sink_counts bytes self"
    using sink_open_append_settled [OF assms(1-3)] by blast
  have fits: "unat (current_len self) + sum_list (map op_size ops) < 2 ^ 64"
    using assms(4) by (simp add: get_current_len_def)
  obtain appended where app: "bytes (writer self') = bytes (writer self) @ appended"
    and counts: "sink_counts bytes self'" and le: "unat (current_len self') \<le> unat (current_len self)
      + sum_list (map op_size ops)"
    using sink_run_ok [OF assms(1) opened fits, of checks] assms(5) by auto
  have p: "unat ?p = length (bytes (writer self))" "unat (get_current_len self') = length (bytes (writer self'))"
    using opened counts by (simp_all add: sink_counts_def get_current_len_def)
  then have n: "unat ?n = length appended" using app by (subst unat_sub_small) simp_all
  have small: "unat (slice_position ?source) + unat (slice_len ?source) < 2 ^ 63"
    using p n app le assms(4) by (simp add: get_current_len_def)
  have contract: "sendfile_contract file sent blocked target (slice_fd ?source) sendfile pause"
    using assms(7) by (simp add: sink_inner_def)
  obtain res k' where run: "copy_slice checks sendfile pause (ZeroCopy target) ?source k = Some (res, k')"
    and "transfer_done (file k) (sent k) (unat (slice_position ?source)) (unat (slice_len ?source)) res
       (sent k') (file k')"
    using copy_slice_ok [OF contract small, of checks k] by blast
  then have sent: "transfer_done (file k) (sent k) (unat ?p) (unat ?n) res (sent k') (file k')"
    by simp
  have "drop (unat ?p) (file k) = appended" using app p(1) assms(6) by (simp add: sink_inner_def)
  with sent n have "res \<noteq> Panicked"
    "\<forall>m. res = Returned (Inr m) \<longrightarrow> unat m = length appended \<and> sent k' = sent k @ appended"
    by (auto simp: transfer_done_def)
  with run app show ?thesis by (auto simp: slice_from_def sink_inner_def)
qed

theorem appended_bytes_are_sent_witness:
  "\<exists>appended res k'. [9, 9, 9, 1, 2, 3] = [9, 9, 9 :: u8] @ appended \<and>
     copy_slice True sim_sendfile (\<lambda>_ k. k) (ZeroCopy 7) (raw_slice mem_file [9, 9, 9, 1, 2, 3] 3 3)
       \<lparr>sim_file = [9, 9, 9, 1, 2, 3], sim_sent = [], sim_script = [0, 2, 0]\<rparr> = Some (res, k') \<and>
     res \<noteq> Panicked"
proof -
  let ?self = "mem_sink None [9, 9, 9]" and ?self' = "mem_sink None [9, 9, 9, 1, 2, 3]"
  let ?k = "\<lparr>sim_file = [9, 9, 9, 1, 2, 3], sim_sent = [], sim_script = [0, 2, 0]\<rparr>"
  have opened: "sink_open_append mem_fs mem_file ''file'' \<lparr>max_len = None\<rparr> [9, 9, 9] = (Inr ?self, [9, 9, 9])"
    by (simp add: sink_open_append_def sink_of_opened_def util_open_read_append_def mem_fs_def
        mem_file_def mem_sink_def)
  have fits: "unat (get_current_len ?self) + sum_list (map op_size [Op_Write [1, 2, 3], Op_Flush]) < 2 ^ 63"
    by (simp add: get_current_len_def mem_sink_def)
  have run: "sink_run True mem_file [Op_Write [1, 2, 3], Op_Flush] ?self = Some ?self'"
    by (simp add: sink_step_def sink_poll_write_def sink_poll_flush_def mem_file_def mem_sink_def add_op_def)
  have k: "sim_file ?k = sink_inner ?self'" by (simp add: sink_inner_def mem_sink_def)
  from appended_bytes_are_sent [OF mem_file_contract mem_fs_settled opened fits run k sim_sendfile_contract, of 7]
  show ?thesis by (simp add: slice_from_def sink_inner_def get_current_len_def mem_sink_def) blast
qed

section \<open>From a builder to a verified connection\<close>

text \<open>
  C13. A connection that an OpenSSL domain connector returns is as verified as its builder was asked
  for: for every sequence of calls on the builder, every sequence of \<open>new_domain\<close> and clones on the
  connector and every way the handshake is woken, success means that the TCP connection to the address
  was made and that the halves returned are those of a session over it; the certificate of the peer is
  trusted unless \<open>with_certificate_verification_disabled\<close> was called, and it is for the domain set last
  unless that or \<open>with_hostname_verification_disabled\<close> was called. What is relied on of the bindings is
  stated for single calls: how each changes the settings, and that a handshake call completes only
  when the checks of its configuration passed.
\<close>

theorem openssl_connection_is_verified:
  assumes "verify_contract peer checks_peer checks_host os"
    and "session_contract midway (peer_checked checks_peer checks_host trusted named) os ssl"
    and "TlsConnector_builder os = Inr b"
    and "try_fold (connector_builder_step pk os) ops b = Inr b'"
    and "openssl_domain_connect net os ssl display cxs split
       (connector_run openssl_domain_new_domain openssl_domain_clone_box cops
         (openssl_domain_new (TlsConnectorBuilder_build os b') d)) addr s = Some (Returned (Inr (w, r, fd)), s')"
  shows "\<exists>t x. tcp_stream net addr s = (Inr t, s') \<and> fd = as_raw_fd net t \<and> split x = (r, w) \<and>
     (CB_No_Certificate \<notin> set ops \<longrightarrow> trusted (ssl_engine (tls x)) \<and>
        (CB_No_Hostname \<notin> set ops \<longrightarrow> named (last_domain d cops) (ssl_engine (tls x))))"
proof -
  let ?k = "TlsConnectorBuilder_build os b'" and ?d = "last_domain d cops"
  have "openssl_domain_connect net os ssl display cxs split (openssl_domain_new ?k ?d) addr s
      = Some (Returned (Inr (w, r, fd)), s')"
    using assms(5)
    by (simp add: openssl_domain.run_is_new_domain openssl_defs openssl_domain_new_def)
  then obtain t x where t: "tcp_stream net addr s = (Inr t, s')" "split x = (r, w)" "fd = as_raw_fd net t"
    and hs: "TlsConnector_connect os ssl display cxs ?k ?d t = Some (Returned (Inr x))"
    unfolding openssl_domain_connect_ok by blast
  obtain g0 g where g: "os_configure os (os_build os (cb_inner b')) = Inr g0"
    "os_set_partial_chain os (os_verify_hostname os (CB_No_Hostname \<notin> set ops) g0) = Inr g"
    "await_handshake ssl display cxs (os_connect os g ?d) t = Some (Returned (Inr x))"
    using hs connect_configured [OF assms(3,4), of ssl display cxs ?d t]
    by (auto simp: result_bind_Inr_iff split: sum.splits)
  have "peer (cb_inner b)"
    using assms(1,3) by (auto simp: TlsConnector_builder_def result_bind_Inr_iff verify_contract_def)
  then have "checks_peer g = (CB_No_Certificate \<notin> set ops)" "checks_host g = (CB_No_Hostname \<notin> set ops)"
    using builder_run_peer [OF assms(1,4)] assms(1) g(1,2) by (auto simp: verify_contract_def)
  with await_handshake_checked [OF assms(2) g(3)] t show ?thesis by (auto simp: peer_checked_def)
qed

text \<open>
  With both checks on, the connector for \<open>b.org\<close> connects and its session is checked; a connector left
  with another domain does not get a connection.
\<close>

theorem openssl_connection_is_verified_witness:
  "\<exists>x. openssl_domain_connect blink_net b_org_openssl (plain_ssl blinker) (\<lambda>_. ''failed'') [8, 16] (\<lambda>x. (x, x))
       (connector_run openssl_domain_new_domain openssl_domain_clone_box [Op_New_Domain ''b.org'', Op_Clone]
         (openssl_domain_new (TlsConnectorBuilder_build b_org_openssl
            \<lparr>cb_inner = True, cb_verify_hostname = True, cb_allow_partial = True\<rparr>) ''a.org'')) ''h:1'' ()
     = Some (Returned (Inr (x, x, 5)), ()) \<and> ssl_engine (tls x) = 0"
proof -
  let ?b = "\<lparr>cb_inner = True, cb_verify_hostname = True, cb_allow_partial = True\<rparr> :: bool TlsConnectorBuilder"
  let ?cops = "[Op_New_Domain ''b.org'', Op_Clone]"
  let ?run = "openssl_domain_connect blink_net b_org_openssl (plain_ssl blinker) (\<lambda>_. ''failed'') [8, 16] (\<lambda>x. (x, x))
       (connector_run openssl_domain_new_domain openssl_domain_clone_box ?cops
         (openssl_domain_new (TlsConnectorBuilder_build b_org_openssl ?b) ''a.org'')) ''h:1'' ()"
  have b: "TlsConnector_builder b_org_openssl = Inr ?b" by (simp add: TlsConnector_builder_def b_org_openssl_def)
  have r: "try_fold (connector_builder_step toy_pkcs b_org_openssl) [CB_Ca_File ''f''] ?b = Inr ?b"
    by (simp add: connector_builder_step_def connector_with_ca_file_def b_org_openssl_def)
  have d: "last_domain ''a.org'' ?cops = ''b.org''" by (simp add: last_domain_def)
  have tcp: "tcp_stream blink_net ''h:1'' () = (Inr False, ())"
    by (simp add: tcp_stream_def stream_with_opts_def blink_net_def SocketOpts_default_def)
  have "\<exists>x. TlsConnector_connect b_org_openssl (plain_ssl blinker) (\<lambda>_. ''failed'') [8, 16]
      (TlsConnectorBuilder_build b_org_openssl ?b) ''b.org'' False = Some (Returned (Inr x))"
    by (simp add: TlsConnector_connect_def client_configuration_def TlsConnectorBuilder_build_def b_org_openssl_def
        await_handshake_def handshake_poll_def handshake_arm_def plain_start_def plain_ssl_def blinker_def
        wrapper_new_def set_context_def unset_context_def wrapper_write_def wrapper_with_context_def)
  then obtain x where "TlsConnector_connect b_org_openssl (plain_ssl blinker) (\<lambda>_. ''failed'') [8, 16]
      (TlsConnectorBuilder_build b_org_openssl ?b) ''b.org'' False = Some (Returned (Inr x))" ..
  then have run: "?run = Some (Returned (Inr (x, x, 5)), ())"
    using tcp d
    by (simp add: openssl_domain.run_is_new_domain openssl_defs openssl_domain_new_def openssl_domain_connect_def
        openssl_finish_def openssl_split_connection_def as_connection_fd_def) (simp add: blink_net_def)
  note verified = openssl_connection_is_verified [OF b_org_verify_contract
      b_org_session_contract [unfolded b_org_session_def] b r run]
  from verified run show ?thesis by auto
qed

lemma other_domain_is_refused:
  "openssl_domain_connect blink_net b_org_openssl (plain_ssl blinker) (\<lambda>_. ''failed'') [8, 16] (\<lambda>x. (x, x))
     (openssl_domain_new (TlsConnectorBuilder_build b_org_openssl
        \<lparr>cb_inner = True, cb_verify_hostname = True, cb_allow_partial = True\<rparr>) ''a.org'') ''h:1'' ()
   = Some (Returned (Inl (IoError ConnectionRefused ''failed to connect: failed'')), ())"
  by (simp add: openssl_domain_connect_def openssl_domain_new_def tcp_stream_def stream_with_opts_def blink_net_def
      SocketOpts_default_def openssl_finish_def TlsConnector_connect_def client_configuration_def
      TlsConnectorBuilder_build_def b_org_openssl_def await_handshake_def handshake_poll_def handshake_arm_def
      wrapper_new_def set_context_def unset_context_def anyhow_msg_def)

end
